(* ===== verification/NPS_Prelude.thy ===== *)
theory NPS_Prelude
  imports Main "HOL-Library.Word" "HOL-Library.AList" "HOL-Library.Char_ord"
    "HOL-Library.List_Lexorder"
begin

text \<open>
  Shared vocabulary of the development: the widths of Go's machine integers, the error
  values of the SDK (\<open>core/errors.go\<close> and plain \<open>fmt.Errorf\<close> errors), results as a
  sum type, the fixed-width byte orders of \<open>encoding/binary\<close>, decimal and hexadecimal
  printing as \<open>fmt\<close> and \<open>strconv\<close> do it, and Go maps as association lists with one
  entry per key.  The collections \<open>wire_simps\<close> and \<open>dict_simps\<close> carry the facts that
  the codec and the frame proofs share.
\<close>

unbundle bit_operations_syntax

named_theorems wire_simps "byte-order round trips and lengths"
named_theorems dict_simps "lookups after updates of Go maps"

section \<open>Machine integers\<close>

type_synonym byte = "8 word"
type_synonym u16 = "16 word"
type_synonym u32 = "32 word"
type_synonym u64 = "64 word"

section \<open>Errors and results\<close>

text \<open>
  \<open>core/errors.go\<close> declares five error types; \<open>ErrPlain\<close> is an error made by
  \<open>fmt.Errorf\<close> or \<open>errors.New\<close>, \<open>ErrCode\<close> one that carries a wire error code
  beside its message, and \<open>ErrEOF\<close> / \<open>ErrUnexpectedEOF\<close> are those of package \<open>io\<close>.
\<close>

datatype nps_error =
    ErrFrame string
  | ErrCodec string
  | ErrAnchorNotFound string
  | ErrAnchorPoison string
  | ErrIdentity string
  | ErrPlain string
  | ErrCode string string
  | ErrEOF
  | ErrUnexpectedEOF

type_synonym 'a res = "nps_error + 'a"

fun is_ok :: "'a res \<Rightarrow> bool" where
  "is_ok (Inl e) = False"
| "is_ok (Inr x) = True"

lemma is_ok_iff: "is_ok r \<longleftrightarrow> (\<exists>x. r = Inr x)"
  by (cases r) auto

definition bindr :: "'a res \<Rightarrow> ('a \<Rightarrow> 'b res) \<Rightarrow> 'b res" where
  "bindr r k = (case r of Inl e \<Rightarrow> Inl e | Inr x \<Rightarrow> k x)"

lemma bindr_simps [simp]:
  "bindr (Inl e) k = Inl e"
  "bindr (Inr x) k = k x"
  by (simp_all add: bindr_def)

lemma bindr_Inr_iff: "bindr r k = Inr y \<longleftrightarrow> (\<exists>x. r = Inr x \<and> k x = Inr y)"
  by (cases r) auto

section \<open>Byte orders\<close>

text \<open>\<open>binary.BigEndian.PutUint16\<close>, \<open>PutUint32\<close>, \<open>Uint16\<close>, \<open>Uint32\<close> and the
  little-endian \<open>Uint32\<close> pair.  The readers take a slice of exactly their width; the
  callers slice before they read.\<close>

definition be16 :: "u16 \<Rightarrow> byte list" where
  "be16 w = [ucast (drop_bit 8 w), ucast w]"

definition be32 :: "u32 \<Rightarrow> byte list" where
  "be32 w = [ucast (drop_bit 24 w), ucast (drop_bit 16 w), ucast (drop_bit 8 w), ucast w]"

definition le32 :: "u32 \<Rightarrow> byte list" where
  "le32 w = rev (be32 w)"

fun rd16 :: "byte list \<Rightarrow> u16" where
  "rd16 [a, b] = push_bit 8 (ucast a) OR ucast b"
| "rd16 _ = 0"

fun rd32 :: "byte list \<Rightarrow> u32" where
  "rd32 [a, b, c, d] =
     push_bit 24 (ucast a) OR push_bit 16 (ucast b) OR push_bit 8 (ucast c) OR ucast d"
| "rd32 _ = 0"

definition rdl32 :: "byte list \<Rightarrow> u32" where
  "rdl32 bs = rd32 (rev bs)"

lemma length_be [simp, wire_simps]:
  "length (be16 w) = 2" "length (be32 v) = 4" "length (le32 v) = 4"
  by (simp_all add: be16_def be32_def le32_def)

lemma rd16_be16 [simp, wire_simps]: "rd16 (be16 w) = w"
proof -
  have "push_bit 8 (ucast (ucast (drop_bit 8 w) :: byte)) OR ucast (ucast w :: byte) = w"
    by (rule bit_word_eqI) (auto simp add: bit_simps)
  then show ?thesis by (simp add: be16_def)
qed

lemma bit_lt_16: "\<not> bit w (16 + (n - 16)) \<Longrightarrow> bit w n \<Longrightarrow> n - 8 < (8::nat)"
  by (cases "16 \<le> n") auto

lemma rd32_be32 [simp, wire_simps]: "rd32 (be32 w) = w"
proof -
  have "push_bit 24 (ucast (ucast (drop_bit 24 w) :: byte))
      OR push_bit 16 (ucast (ucast (drop_bit 16 w) :: byte))
      OR push_bit 8 (ucast (ucast (drop_bit 8 w) :: byte)) OR ucast (ucast w :: byte) = w"
    by (rule bit_word_eqI) (auto simp add: bit_simps dest: bit_lt_16)
  then show ?thesis by (simp add: be32_def)
qed

lemma rdl32_le32 [simp, wire_simps]: "rdl32 (le32 w) = w"
  by (simp add: rdl32_def le32_def)

lemma be16_rd16: "be16 (rd16 [a, b]) = [a, b]"
proof -
  have "ucast (drop_bit 8 (push_bit 8 (ucast a) OR ucast b :: u16)) = a"
    by (rule bit_word_eqI) (auto simp add: bit_simps dest: bit_imp_le_length)
  moreover have "ucast (push_bit 8 (ucast a) OR ucast b :: u16) = b"
    by (rule bit_word_eqI) (auto simp add: bit_simps)
  ultimately show ?thesis by (simp add: be16_def)
qed

end
