(* ===== verification/Go_Text.thy ===== *)
theory Go_Text
  imports NPS_Prelude
begin

text \<open>
  Go strings are byte sequences, here lists of \<open>char\<close>.  This theory holds what the SDK
  uses of \<open>strings\<close>, \<open>strconv\<close> and \<open>fmt\<close>: splitting and joining at a separator
  byte, prefixes, trimming of white space (with the UTF-8 encodings of the Unicode space
  characters), ASCII case folding, decimal printing and parsing, hexadecimal printing,
  byte-wise comparison.  The round trips at the end are shared by every component
  that prints or parses a name.
\<close>

section \<open>Splitting and joining\<close>

fun split_on :: "char \<Rightarrow> string \<Rightarrow> string list" where
  "split_on c [] = [[]]"
| "split_on c (x # xs) =
     (if x = c then [] # split_on c xs
      else (case split_on c xs of [] \<Rightarrow> [[x]] | h # t \<Rightarrow> (x # h) # t))"

fun join_with :: "string \<Rightarrow> string list \<Rightarrow> string" where
  "join_with sep [] = []"
| "join_with sep [s] = s"
| "join_with sep (s # t # ss) = s @ sep @ join_with sep (t # ss)"

definition has_prefix :: "string \<Rightarrow> string \<Rightarrow> bool" where
  "has_prefix s p \<longleftrightarrow> take (length p) s = p"

definition has_suffix :: "string \<Rightarrow> string \<Rightarrow> bool" where
  "has_suffix s p \<longleftrightarrow> length p \<le> length s \<and> drop (length s - length p) s = p"

text \<open>\<open>strings.IndexByte\<close>: the position of the first occurrence, if any.\<close>

fun index_byte :: "string \<Rightarrow> char \<Rightarrow> nat option" where
  "index_byte [] c = None"
| "index_byte (x # xs) c = (if x = c then Some 0 else map_option Suc (index_byte xs c))"

section \<open>White space and case\<close>

definition ascii_spaces :: "char list" where
  "ascii_spaces = [CHR 0x09, CHR 0x0A, CHR 0x0B, CHR 0x0C, CHR 0x0D, CHR 0x20]"

definition utf8_spaces :: "string list" where
  "utf8_spaces = map (\<lambda>c. [c]) ascii_spaces
     @ [[CHR 0xC2, CHR 0x85], [CHR 0xC2, CHR 0xA0], [CHR 0xE1, CHR 0x9A, CHR 0x80]]
     @ map (\<lambda>k. [CHR 0xE2, CHR 0x80, char_of k]) [0x80 ..< 0x8B]
     @ [[CHR 0xE2, CHR 0x80, CHR 0xA8], [CHR 0xE2, CHR 0x80, CHR 0xA9],
        [CHR 0xE2, CHR 0x80, CHR 0xAF], [CHR 0xE2, CHR 0x81, CHR 0x9F],
        [CHR 0xE3, CHR 0x80, CHR 0x80]]"

text \<open>The length of the first of the given patterns that starts \<open>s\<close>, 0 for none.\<close>

fun space_len :: "string list \<Rightarrow> string \<Rightarrow> nat" where
  "space_len [] s = 0"
| "space_len (p # ps) s = (if p \<noteq> [] \<and> has_prefix s p then length p else space_len ps s)"

lemma space_len_le: "space_len ps s \<le> length s"
  by (induction ps) (auto simp: has_prefix_def, metis length_take min.cobounded1)

function trim_left_by :: "string list \<Rightarrow> string \<Rightarrow> string" where
  "trim_left_by ps s =
     (if s = [] \<or> space_len ps s = 0 then s else trim_left_by ps (drop (space_len ps s) s))"
  by pat_completeness auto
termination
  by (relation "measure (\<lambda>(ps, s). length s)") auto

declare trim_left_by.simps [simp del]

definition TrimSpace :: "string \<Rightarrow> string" where
  "TrimSpace s = rev (trim_left_by (map rev utf8_spaces) (rev (trim_left_by utf8_spaces s)))"

text \<open>\<open>strings.Fields\<close>: the words between white space; \<open>w\<close> is the word being read, backwards.\<close>

function words_from :: "string \<Rightarrow> string \<Rightarrow> string list" where
  "words_from w s =
     (if s = [] then (if w = [] then [] else [rev w])
      else if space_len utf8_spaces s = 0 then words_from (hd s # w) (tl s)
      else (if w = [] then [] else [rev w]) @ words_from [] (drop (space_len utf8_spaces s) s))"
  by pat_completeness auto
termination
  by (relation "measure (\<lambda>(w, s). length s)") (auto simp: length_greater_0_conv [symmetric] simp del: length_greater_0_conv)

declare words_from.simps [simp del]

definition Fields :: "string \<Rightarrow> string list" where
  "Fields s = words_from [] s"

definition lower_char :: "char \<Rightarrow> char" where
  "lower_char c = (if 65 \<le> (of_char c :: nat) \<and> (of_char c :: nat) \<le> 90
                   then char_of ((of_char c :: nat) + 32) else c)"

text \<open>\<open>strings.ToLower\<close> on ASCII text; \<open>strings.EqualFold\<close> compares folded text.\<close>

definition to_lower :: "string \<Rightarrow> string" where
  "to_lower s = map lower_char s"

definition equal_fold :: "string \<Rightarrow> string \<Rightarrow> bool" where
  "equal_fold s t \<longleftrightarrow> to_lower s = to_lower t"

definition is_digit :: "char \<Rightarrow> bool" where
  "is_digit c \<longleftrightarrow> 48 \<le> (of_char c :: nat) \<and> (of_char c :: nat) \<le> 57"

definition is_alnum :: "char \<Rightarrow> bool" where
  "is_alnum c \<longleftrightarrow> is_digit c
     \<or> (97 \<le> (of_char c :: nat) \<and> (of_char c :: nat) \<le> 122)
     \<or> (65 \<le> (of_char c :: nat) \<and> (of_char c :: nat) \<le> 90)"

section \<open>Numbers as text\<close>

definition digit_char :: "nat \<Rightarrow> char" where
  "digit_char d = char_of (48 + d)"

definition digit_val :: "char \<Rightarrow> nat" where
  "digit_val c = of_char c - 48"

fun dec :: "nat \<Rightarrow> string" where
  "dec n = (if n < 10 then [digit_char n] else dec (n div 10) @ [digit_char (n mod 10)])"

declare dec.simps [simp del]

definition dec_int :: "int \<Rightarrow> string" where
  "dec_int i = (if i < 0 then CHR ''-'' # dec (nat (- i)) else dec (nat i))"

fun digits_val :: "nat \<Rightarrow> string \<Rightarrow> nat" where
  "digits_val acc [] = acc"
| "digits_val acc (c # cs) = digits_val (10 * acc + digit_val c) cs"

text \<open>\<open>strconv.ParseUint(s, 10, 64)\<close>: no sign, at least one digit, no overflow.\<close>

definition ParseUint64 :: "string \<Rightarrow> u64 option" where
  "ParseUint64 s =
     (if s \<noteq> [] \<and> list_all is_digit s \<and> int (digits_val 0 s) < 2 ^ 64
      then Some (of_nat (digits_val 0 s)) else None)"

text \<open>\<open>strconv.ParseInt(s, 10, 64)\<close>: an optional sign, at least one digit, no overflow.\<close>

definition ParseInt64 :: "string \<Rightarrow> int option" where
  "ParseInt64 s =
     (case s of
        [] \<Rightarrow> None
      | c # cs \<Rightarrow>
          let ds = (if c \<in> {CHR ''+'', CHR ''-''} then cs else s)
          in if ds = [] \<or> \<not> list_all is_digit ds then None
             else let n = (if c = CHR ''-'' then - int (digits_val 0 ds) else int (digits_val 0 ds))
                  in if - (2 ^ 63) \<le> n \<and> n < 2 ^ 63 then Some n else None)"

definition hex_digit :: "nat \<Rightarrow> char" where
  "hex_digit d = (if d < 10 then char_of (48 + d) else char_of (55 + d))"

text \<open>The verb \<open>%02X\<close> on a byte and \<open>%X\<close> on a number.\<close>

definition hex2 :: "byte \<Rightarrow> string" where
  "hex2 b = [hex_digit (unat b div 16), hex_digit (unat b mod 16)]"

fun hexX :: "nat \<Rightarrow> string" where
  "hexX n = (if n < 16 then [hex_digit n] else hexX (n div 16) @ [hex_digit (n mod 16)])"

declare hexX.simps [simp del]

section \<open>Byte order on strings\<close>

text \<open>\<open>sort.Strings\<close> and \<open>strings.Compare\<close> use the byte-wise lexicographic order, which
  is the library order on lists of characters.\<close>

definition sort_strings :: "string list \<Rightarrow> string list" where
  "sort_strings xs = sort xs"

section \<open>Round trips\<close>

lemma split_on_ne [simp]: "split_on c s \<noteq> []"
  by (induction s) (auto split: list.splits)

lemma split_on_fresh: "c \<notin> set s \<Longrightarrow> split_on c s = [s]"
  by (induction s) auto

lemma split_on_append:
  "c \<notin> set s \<Longrightarrow> split_on c (s @ c # t) = s # split_on c t"
  by (induction s) auto

lemma join_split: "join_with [c] (split_on c s) = s"
proof (induction s)
  case (Cons x xs)
  show ?case
  proof (cases "split_on c xs")
    case (Cons h t)
    with Cons.IH show ?thesis by (cases t) auto
  qed (use split_on_ne in blast)
qed simp

lemma split_on_no_sep: "p \<in> set (split_on c s) \<Longrightarrow> c \<notin> set p"
  by (induction s arbitrary: p) (auto split: if_splits list.splits)

lemma length_split_on: "length (split_on c s) = Suc (count_list s c)"
  by (induction s) (auto split: list.splits)

lemma digit_char_ok: "d < 10 \<Longrightarrow> is_digit (digit_char d) \<and> digit_val (digit_char d) = d"
  by (simp add: is_digit_def digit_char_def digit_val_def)

lemma dec_digits: "list_all is_digit (dec n)"
proof (induction n rule: dec.induct)
  case (1 n)
  then show ?case by (subst dec.simps) (auto simp: digit_char_ok)
qed

lemma dec_ne [simp]: "dec n \<noteq> []"
  by (subst dec.simps) simp

lemma digits_val_append: "digits_val acc (xs @ ys) = digits_val (digits_val acc xs) ys"
  by (induction xs arbitrary: acc) auto

lemma digits_val_dec [simp]: "digits_val 0 (dec n) = n"
proof (induction n rule: dec.induct)
  case (1 n)
  then show ?case
    by (subst dec.simps) (auto simp: digits_val_append digit_char_ok)
qed

lemma ParseUint64_dec: "n < 2 ^ 64 \<Longrightarrow> ParseUint64 (dec n) = Some (of_nat n)"
  by (simp add: ParseUint64_def dec_digits)

lemma ParseUint64_dec_unat: "ParseUint64 (dec (unat (w :: u64))) = Some w"
  using unsigned_less [where ?'a = nat, of w] by (subst ParseUint64_dec) auto

lemma dec_inj: "dec m = dec n \<Longrightarrow> m = n"
  by (metis digits_val_dec)

lemma is_digit_ne: "is_digit c \<Longrightarrow> c \<noteq> CHR ''.'' \<and> c \<noteq> CHR '':''"
  by (auto simp: is_digit_def)

lemma dec_no_dot: "CHR ''.'' \<notin> set (dec n)"
  using dec_digits [of n] is_digit_ne by (auto simp: list_all_iff)

text \<open>The printer on integers, for evaluation.\<close>

function dec_z :: "int \<Rightarrow> string" where
  "dec_z i = (if i < 10 then [digit_char (nat i)] else dec_z (i div 10) @ [digit_char (nat (i mod 10))])"
  by pat_completeness auto
termination
  by (relation "measure nat") auto

declare dec_z.simps [simp del]

lemma dec_z_dec: "dec_z (int n) = dec n"
proof (induction n rule: dec.induct)
  case (1 n)
  then show ?case
    by (subst dec_z.simps, subst dec.simps) (auto simp: nat_mod_distrib zdiv_int)
qed

lemma dec_int_code [code]:
  "dec_int i = (if i < 0 then CHR ''-'' # dec_z (- i) else dec_z i)"
  using dec_z_dec [of "nat i"] dec_z_dec [of "nat (- i)"] by (auto simp: dec_int_def split: if_splits)

end
