(* ===== verification/Go_Values.thy ===== *)
theory Go_Values
  imports Go_Text
begin

text \<open>
  The dynamic values of the SDK: IEEE 754 numbers by their bit patterns, \<open>any\<close> values
  as a datatype with one constructor per dynamic type the code switches on, and
  \<open>map[string]any\<close> (\<open>core.FrameDict\<close>) as association lists.  Conversions between
  numeric types wrap, truncate or round as Go's do; a \<open>float64\<close> outside the target's
  range has an implementation-dependent conversion in Go and an unspecified value here.
\<close>

section \<open>Floating point by bit pattern\<close>

type_synonym f32 = "32 word"
type_synonym f64 = "64 word"

function bitlen :: "int \<Rightarrow> int" where
  "bitlen n = (if n \<le> 0 then 0 else 1 + bitlen (n div 2))"
  by pat_completeness auto
termination
  by (relation "measure nat") auto

declare bitlen.simps [simp del]

definition round_half_even :: "int \<Rightarrow> int \<Rightarrow> int" where
  "round_half_even n d =
     (let q = n div d; r = n mod d
      in if 2 * r > d \<or> (2 * r = d \<and> odd q) then q + 1 else q)"

text \<open>The largest \<open>e\<close> with \<open>2 ^ e \<le> n / d\<close>.\<close>

definition ilog2_ratio :: "int \<Rightarrow> int \<Rightarrow> int" where
  "ilog2_ratio n d =
     (let k = bitlen n - bitlen d
      in if d * 2 ^ nat k \<le> n * 2 ^ nat (- k) then k else k - 1)"

text \<open>
  The encoding, without sign, of the number nearest to \<open>n / d\<close> (ties to even) in the
  binary format with \<open>p\<close> significand bits and \<open>w\<close> exponent bits; too large a number
  gives infinity.
\<close>

definition ieee_encode :: "nat \<Rightarrow> nat \<Rightarrow> int \<Rightarrow> int \<Rightarrow> int" where
  "ieee_encode p w n d =
     (if n = 0 then 0
      else let emax = 2 ^ (w - 1) - 1 :: int;
               e = max (ilog2_ratio n d) (1 - emax);
               q = e - (int p - 1);
               m = round_half_even (n * 2 ^ nat (- q)) (d * 2 ^ nat q)
           in min ((e + emax - 1) * 2 ^ (p - 1) + m) ((2 ^ w - 1) * 2 ^ (p - 1)))"

definition f64_of_ratio :: "bool \<Rightarrow> int \<Rightarrow> int \<Rightarrow> f64" where
  "f64_of_ratio neg n d = word_of_int ((if neg then 2 ^ 63 else 0) + ieee_encode 53 11 n d)"

definition f32_of_ratio :: "bool \<Rightarrow> int \<Rightarrow> int \<Rightarrow> f32" where
  "f32_of_ratio neg n d = word_of_int ((if neg then 2 ^ 31 else 0) + ieee_encode 24 8 n d)"

definition f64_of_int :: "int \<Rightarrow> f64" where
  "f64_of_int i = f64_of_ratio (i < 0) \<bar>i\<bar> 1"

definition f64_neg :: "f64 \<Rightarrow> bool" where
  "f64_neg x \<longleftrightarrow> 2 ^ 63 \<le> uint x"

definition f64_exp :: "f64 \<Rightarrow> int" where
  "f64_exp x = uint x div 2 ^ 52 mod 2 ^ 11"

definition f64_frac :: "f64 \<Rightarrow> int" where
  "f64_frac x = uint x mod 2 ^ 52"

definition f64_isnan :: "f64 \<Rightarrow> bool" where
  "f64_isnan x \<longleftrightarrow> f64_exp x = 2047 \<and> f64_frac x \<noteq> 0"

definition f64_isinf :: "f64 \<Rightarrow> bool" where
  "f64_isinf x \<longleftrightarrow> f64_exp x = 2047 \<and> f64_frac x = 0"

text \<open>A finite value is \<open>f64_mant x * 2 ^ f64_pow x\<close> with its sign.\<close>

definition f64_mant :: "f64 \<Rightarrow> int" where
  "f64_mant x = (if f64_exp x = 0 then f64_frac x else 2 ^ 52 + f64_frac x)"

definition f64_pow :: "f64 \<Rightarrow> int" where
  "f64_pow x = (if f64_exp x = 0 then - 1074 else f64_exp x - 1075)"

definition f64_trunc :: "f64 \<Rightarrow> int" where
  "f64_trunc x =
     (let a = f64_mant x * 2 ^ nat (f64_pow x) div 2 ^ nat (- f64_pow x)
      in if f64_neg x then - a else a)"

definition f64_integral :: "f64 \<Rightarrow> bool" where
  "f64_integral x \<longleftrightarrow> \<not> f64_isnan x \<and> \<not> f64_isinf x
     \<and> f64_mant x * 2 ^ nat (f64_pow x) mod 2 ^ nat (- f64_pow x) = 0"

text \<open>The exact value times \<open>2 ^ 1074\<close>, an integer; infinities lie beyond every value.\<close>

definition f64_key :: "f64 \<Rightarrow> int" where
  "f64_key x =
     (let a = (if f64_isinf x then 2 ^ 2100 else f64_mant x * 2 ^ nat (f64_pow x + 1074))
      in if f64_neg x then - a else a)"

definition f64_eq :: "f64 \<Rightarrow> f64 \<Rightarrow> bool" where
  "f64_eq x y \<longleftrightarrow> \<not> f64_isnan x \<and> \<not> f64_isnan y \<and> f64_key x = f64_key y"

definition f64_less :: "f64 \<Rightarrow> f64 \<Rightarrow> bool" where
  "f64_less x y \<longleftrightarrow> \<not> f64_isnan x \<and> \<not> f64_isnan y \<and> f64_key x < f64_key y"

definition f64_le :: "f64 \<Rightarrow> f64 \<Rightarrow> bool" where
  "f64_le x y \<longleftrightarrow> \<not> f64_isnan x \<and> \<not> f64_isnan y \<and> f64_key x \<le> f64_key y"

definition f32_exp :: "f32 \<Rightarrow> int" where
  "f32_exp x = uint x div 2 ^ 23 mod 2 ^ 8"

definition f32_frac :: "f32 \<Rightarrow> int" where
  "f32_frac x = uint x mod 2 ^ 23"

definition f32_isnan :: "f32 \<Rightarrow> bool" where
  "f32_isnan x \<longleftrightarrow> f32_exp x = 255 \<and> f32_frac x \<noteq> 0"

definition f32_isinf :: "f32 \<Rightarrow> bool" where
  "f32_isinf x \<longleftrightarrow> f32_exp x = 255 \<and> f32_frac x = 0"

definition f32_finite :: "f32 \<Rightarrow> bool" where
  "f32_finite x \<longleftrightarrow> \<not> f32_isnan x \<and> \<not> f32_isinf x"

text \<open>\<open>float32(x)\<close> of a \<open>float64\<close>: a NaN keeps its sign and the leading payload bits.\<close>

definition f32_of_f64 :: "f64 \<Rightarrow> f32" where
  "f32_of_f64 x =
     (let s = (if f64_neg x then 2 ^ 31 else 0)
      in if f64_isnan x
         then word_of_int (s + 255 * 2 ^ 23 + 2 ^ 22 + f64_frac x div 2 ^ 29 mod 2 ^ 22)
         else if f64_isinf x then word_of_int (s + 255 * 2 ^ 23)
         else f32_of_ratio (f64_neg x) (f64_mant x * 2 ^ nat (f64_pow x)) (2 ^ nat (- f64_pow x)))"

text \<open>\<open>float64(x)\<close> of a \<open>float32\<close> is exact.\<close>

definition f64_of_f32 :: "f32 \<Rightarrow> f64" where
  "f64_of_f32 x =
     (let s = 2 ^ 31 \<le> uint x; ex = f32_exp x; fr = f32_frac x
      in if ex = 255 then word_of_int ((if s then 2 ^ 63 else 0) + 2047 * 2 ^ 52 + fr * 2 ^ 29)
         else f64_of_ratio s ((if ex = 0 then 2 * fr else (2 ^ 23 + fr) * 2 ^ nat ex)) (2 ^ 150))"

section \<open>Dynamic values\<close>

datatype num_kind = KInt | KInt8 | KInt16 | KInt32 | KInt64
  | KUint | KUint8 | KUint16 | KUint32 | KUint64

text \<open>\<open>GNil\<close> is the nil interface; \<open>GTypedNil\<close> is an interface that holds a nil slice or map,
  which compares unequal to nil and is written as null.\<close>

datatype goany =
    GNil
  | GBool bool
  | GNum num_kind int
  | GF64 f64
  | GF32 f32
  | GJnum string
  | GStr string
  | GList "goany list"
  | GMap "(string \<times> goany) list"
  | GStrs "string list"
  | GF32s "f32 list"
  | GF64s "f64 list"
  | GMaps "(string \<times> goany) list list"
  | GTypedNil

type_synonym dict = "(string \<times> goany) list"

text \<open>Reading \<open>d[k]\<close> gives \<open>nil\<close> for a missing key; the two-value form tells them apart.\<close>

definition dget :: "dict \<Rightarrow> string \<Rightarrow> goany" where
  "dget d k = (case map_of d k of None \<Rightarrow> GNil | Some v \<Rightarrow> v)"

definition dhas :: "dict \<Rightarrow> string \<Rightarrow> bool" where
  "dhas d k \<longleftrightarrow> map_of d k \<noteq> None"

abbreviation dput :: "string \<Rightarrow> goany \<Rightarrow> dict \<Rightarrow> dict" where
  "dput \<equiv> AList.update"

text \<open>Two association lists stand for the same Go map when their lookups agree.\<close>

definition same_dict :: "dict \<Rightarrow> dict \<Rightarrow> bool" where
  "same_dict d e \<longleftrightarrow> map_of d = map_of e"

section \<open>Integer conversions\<close>

definition wrap64 :: "int \<Rightarrow> int" where
  "wrap64 i = sint (word_of_int i :: u64)"

text \<open>An out-of-range \<open>float64\<close> has no specified integer conversion.\<close>

definition f64_out_of_range :: "f64 \<Rightarrow> int" where
  "f64_out_of_range x = undefined x"

definition f64_to_u64 :: "f64 \<Rightarrow> u64" where
  "f64_to_u64 x =
     (if \<not> f64_isnan x \<and> \<not> f64_isinf x \<and> 0 \<le> f64_trunc x \<and> f64_trunc x < 2 ^ 64
      then word_of_int (f64_trunc x) else word_of_int (f64_out_of_range x))"

definition f64_to_int :: "f64 \<Rightarrow> int" where
  "f64_to_int x =
     (if \<not> f64_isnan x \<and> \<not> f64_isinf x \<and> - (2 ^ 63) \<le> f64_trunc x \<and> f64_trunc x < 2 ^ 63
      then f64_trunc x else wrap64 (f64_out_of_range x))"

lemma dget_update [simp, dict_simps]:
  "dget (dput k v d) j = (if j = k then v else dget d j)"
  by (simp add: dget_def update_conv')

lemma dhas_update [simp, dict_simps]: "dhas (dput k v d) j \<longleftrightarrow> j = k \<or> dhas d j"
  by (simp add: dhas_def update_conv')

lemma dget_Cons [simp, dict_simps]:
  "dget ((k, v) # d) j = (if j = k then v else dget d j)" "dget [] j = GNil"
  by (auto simp: dget_def)

lemma dhas_Cons [simp, dict_simps]:
  "dhas ((k, v) # d) j \<longleftrightarrow> j = k \<or> dhas d j" "\<not> dhas [] j"
  by (auto simp: dhas_def)

lemma same_dictI: "(\<And>k. map_of d k = map_of e k) \<Longrightarrow> same_dict d e"
  by (auto simp: same_dict_def)

lemma same_dict_refl [simp]: "same_dict d d"
  by (simp add: same_dict_def)

lemma wrap64_id: "- (2 ^ 63) \<le> i \<Longrightarrow> i < 2 ^ 63 \<Longrightarrow> wrap64 i = i"
  by (simp add: wrap64_def signed_of_int signed_take_bit_int_eq_self)

end
