(* ===== verification/Core_Frames.thy ===== *)
theory Core_Frames
  imports Go_Values
begin

text \<open>
  \<open>core/frames.go\<close> and \<open>core/registry.go\<close>: frame types, encoding tiers, the 4-byte and
  8-byte frame header with its flag bits, and the registry of decodable frame types.
  The lemmas show that headers survive a round trip over the wire, that parsing consumes
  the header only, and which wires it refuses.
\<close>

section \<open>Frame types\<close>

type_synonym FrameType = byte

definition FrameTypeAnchor :: FrameType where "FrameTypeAnchor = 0x01"
definition FrameTypeDiff :: FrameType where "FrameTypeDiff = 0x02"
definition FrameTypeStream :: FrameType where "FrameTypeStream = 0x03"
definition FrameTypeCaps :: FrameType where "FrameTypeCaps = 0x04"
definition FrameTypeHello :: FrameType where "FrameTypeHello = 0x06"
definition FrameTypeNop :: FrameType where "FrameTypeNop = 0x07"
definition FrameTypeQuery :: FrameType where "FrameTypeQuery = 0x10"
definition FrameTypeAction :: FrameType where "FrameTypeAction = 0x11"
definition FrameTypeIdent :: FrameType where "FrameTypeIdent = 0x20"
definition FrameTypeTrust :: FrameType where "FrameTypeTrust = 0x21"
definition FrameTypeRevoke :: FrameType where "FrameTypeRevoke = 0x22"
definition FrameTypeAnnounce :: FrameType where "FrameTypeAnnounce = 0x30"
definition FrameTypeResolve :: FrameType where "FrameTypeResolve = 0x31"
definition FrameTypeGraph :: FrameType where "FrameTypeGraph = 0x32"
definition FrameTypeSubscribe :: FrameType where "FrameTypeSubscribe = 0x12"
definition FrameTypeTask :: FrameType where "FrameTypeTask = 0x40"
definition FrameTypeDelegate :: FrameType where "FrameTypeDelegate = 0x41"
definition FrameTypeSync :: FrameType where "FrameTypeSync = 0x42"
definition FrameTypeAlignStream :: FrameType where "FrameTypeAlignStream = 0x43"
definition FrameTypeError :: FrameType where "FrameTypeError = 0xFE"

lemmas frame_type_defs =
  FrameTypeAnchor_def FrameTypeDiff_def FrameTypeStream_def FrameTypeCaps_def
  FrameTypeHello_def FrameTypeNop_def FrameTypeQuery_def FrameTypeAction_def
  FrameTypeIdent_def FrameTypeTrust_def FrameTypeRevoke_def FrameTypeAnnounce_def
  FrameTypeResolve_def FrameTypeGraph_def FrameTypeSubscribe_def FrameTypeTask_def
  FrameTypeDelegate_def FrameTypeSync_def FrameTypeAlignStream_def FrameTypeError_def

definition knownFrameTypes :: "FrameType list" where
  "knownFrameTypes =
     [FrameTypeAnchor, FrameTypeDiff, FrameTypeStream,
      FrameTypeCaps, FrameTypeHello, FrameTypeNop, FrameTypeQuery, FrameTypeAction,
      FrameTypeSubscribe,
      FrameTypeIdent, FrameTypeTrust, FrameTypeRevoke,
      FrameTypeAnnounce, FrameTypeResolve, FrameTypeGraph,
      FrameTypeTask, FrameTypeDelegate, FrameTypeSync,
      FrameTypeAlignStream, FrameTypeError]"

definition FrameTypeFromByte :: "byte \<Rightarrow> FrameType res" where
  "FrameTypeFromByte b =
     (if b \<in> set knownFrameTypes then Inr b
      else Inl (ErrPlain (''unknown frame type: 0x'' @ hex2 b)))"

section \<open>Encoding tiers\<close>

type_synonym EncodingTier = byte

definition EncodingTierJSON :: EncodingTier where "EncodingTierJSON = 0"
definition EncodingTierMsgPack :: EncodingTier where "EncodingTierMsgPack = 1"
definition EncodingTierBinaryVector :: EncodingTier where "EncodingTierBinaryVector = 2"

lemmas tier_defs = EncodingTierJSON_def EncodingTierMsgPack_def EncodingTierBinaryVector_def

section \<open>Frame headers\<close>

record FrameHeader =
  hFrameType :: FrameType
  hFlags :: byte
  hPayloadLength :: u64
  hIsExtended :: bool

definition NewFrameHeader :: "FrameType \<Rightarrow> EncodingTier \<Rightarrow> bool \<Rightarrow> u64 \<Rightarrow> FrameHeader" where
  "NewFrameHeader ft tier isFinal payloadLen =
     (let isExt = payloadLen > 0xFFFF;
          flags = tier AND 0x03;
          flags = (if isFinal then flags OR 0x04 else flags);
          flags = (if isExt then flags OR 0x80 else flags)
      in \<lparr>hFrameType = ft, hFlags = flags, hPayloadLength = payloadLen, hIsExtended = isExt\<rparr>)"

definition header_tier :: "FrameHeader \<Rightarrow> EncodingTier" where
  "header_tier h = hFlags h AND 0x03"

definition IsFinal :: "FrameHeader \<Rightarrow> bool" where
  "IsFinal h \<longleftrightarrow> hFlags h AND 0x04 \<noteq> 0"

definition HeaderSize :: "FrameHeader \<Rightarrow> nat" where
  "HeaderSize h = (if hIsExtended h then 8 else 4)"

definition ToBytes :: "FrameHeader \<Rightarrow> byte list" where
  "ToBytes h =
     (if hIsExtended h
      then [hFrameType h, hFlags h, 0, 0] @ be32 (ucast (hPayloadLength h))
      else [hFrameType h, hFlags h] @ be16 (ucast (hPayloadLength h)))"

definition ParseFrameHeader :: "byte list \<Rightarrow> FrameHeader res" where
  "ParseFrameHeader wire =
     (if length wire < 4 then Inl (ErrPlain ''buffer too small for frame header'')
      else case FrameTypeFromByte (wire ! 0) of
        Inl err \<Rightarrow> Inl err
      | Inr ft \<Rightarrow>
          let flags = wire ! 1; isExt = flags AND 0x80 \<noteq> 0
          in if isExt
             then (if length wire < 8
                   then Inl (ErrPlain ''buffer too small for extended header'')
                   else Inr \<lparr>hFrameType = ft, hFlags = flags,
                             hPayloadLength = ucast (rd32 (take 4 (drop 4 wire))),
                             hIsExtended = True\<rparr>)
             else Inr \<lparr>hFrameType = ft, hFlags = flags,
                       hPayloadLength = ucast (rd16 (take 2 (drop 2 wire))),
                       hIsExtended = False\<rparr>)"

section \<open>The frame registry\<close>

text \<open>A set of registered types, kept as the list of keys of the Go map.\<close>

type_synonym FrameRegistry = "FrameType list"

definition NewFrameRegistry :: FrameRegistry where
  "NewFrameRegistry = []"

definition Register :: "FrameType \<Rightarrow> FrameRegistry \<Rightarrow> FrameRegistry" where
  "Register ft r = List.insert ft r"

definition IsRegistered :: "FrameRegistry \<Rightarrow> FrameType \<Rightarrow> bool" where
  "IsRegistered r ft \<longleftrightarrow> ft \<in> set r"

definition CreateDefaultRegistry :: FrameRegistry where
  "CreateDefaultRegistry = fold Register
     [FrameTypeAnchor, FrameTypeDiff, FrameTypeStream, FrameTypeCaps, FrameTypeHello,
      FrameTypeError] NewFrameRegistry"

definition CreateFullRegistry :: FrameRegistry where
  "CreateFullRegistry = fold Register
     [FrameTypeQuery, FrameTypeAction, FrameTypeSubscribe,
      FrameTypeIdent, FrameTypeTrust, FrameTypeRevoke,
      FrameTypeAnnounce, FrameTypeResolve, FrameTypeGraph,
      FrameTypeTask, FrameTypeDelegate, FrameTypeSync, FrameTypeAlignStream]
     CreateDefaultRegistry"

section \<open>Lemmas on headers\<close>

lemma NewFrameHeader_fields [simp]:
  "hFrameType (NewFrameHeader ft tier fin n) = ft"
  "hPayloadLength (NewFrameHeader ft tier fin n) = n"
  "hIsExtended (NewFrameHeader ft tier fin n) \<longleftrightarrow> 0xFFFF < n"
  by (simp_all add: NewFrameHeader_def Let_def)

lemma NewFrameHeader_ext_flag:
  "hFlags (NewFrameHeader ft tier fin n) AND 0x80 \<noteq> 0 \<longleftrightarrow> 0xFFFF < n"
  by (simp add: NewFrameHeader_def Let_def bit.conj_disj_distrib2 and.assoc)

lemma NewFrameHeader_tier: "header_tier (NewFrameHeader ft tier fin n) = tier AND 0x03"
  by (simp add: header_tier_def NewFrameHeader_def Let_def bit.conj_disj_distrib2 and.assoc)

lemma NewFrameHeader_final: "IsFinal (NewFrameHeader ft tier fin n) \<longleftrightarrow> fin"
  by (simp add: IsFinal_def NewFrameHeader_def Let_def bit.conj_disj_distrib2 and.assoc)

lemma length_ToBytes [simp, wire_simps]: "length (ToBytes h) = HeaderSize h"
  by (simp add: ToBytes_def HeaderSize_def)

lemma ucast_u16_u64: "(n :: u64) \<le> 0xFFFF \<Longrightarrow> ucast (ucast n :: u16) = n"
  by (simp add: word_uint_eq_iff unsigned_ucast_eq take_bit_word_eq_self word_le_def
        unsigned_take_bit_eq take_bit_int_eq_self)

lemma ucast_u32_u64: "(n :: u64) \<le> 0xFFFFFFFF \<Longrightarrow> ucast (ucast n :: u32) = n"
  by (simp add: word_uint_eq_iff unsigned_ucast_eq take_bit_word_eq_self word_le_def
        unsigned_take_bit_eq take_bit_int_eq_self)

lemma FrameTypeFromByte_known [simp]:
  "ft \<in> set knownFrameTypes \<Longrightarrow> FrameTypeFromByte ft = Inr ft"
  by (simp add: FrameTypeFromByte_def)

text \<open>A header whose extended bit agrees with its \<open>IsExtended\<close> field and whose length fits
  the field on the wire; both \<open>NewFrameHeader\<close> and \<open>ParseFrameHeader\<close> make such headers.\<close>

definition header_ok :: "FrameHeader \<Rightarrow> bool" where
  "header_ok h \<longleftrightarrow> hFrameType h \<in> set knownFrameTypes
     \<and> (hFlags h AND 0x80 \<noteq> 0 \<longleftrightarrow> hIsExtended h)
     \<and> hPayloadLength h \<le> (if hIsExtended h then 0xFFFFFFFF else 0xFFFF)"

lemma ParseFrameHeader_ToBytes:
  assumes "header_ok h"
  shows "ParseFrameHeader (ToBytes h @ rest) = Inr h"
  using assms
  by (cases h) (auto simp: header_ok_def ParseFrameHeader_def ToBytes_def Let_def
      ucast_u16_u64 ucast_u32_u64)

lemma NewFrameHeader_ok:
  "ft \<in> set knownFrameTypes \<Longrightarrow> n \<le> 0xFFFFFFFF \<Longrightarrow> header_ok (NewFrameHeader ft tier fin n)"
  using NewFrameHeader_ext_flag [of ft tier fin n] by (auto simp: header_ok_def)

lemma ucast_le_max: "(ucast (a :: u16) :: u64) \<le> 0xFFFF" "(ucast (b :: u32) :: u64) \<le> 0xFFFFFFFF"
  using uint_range_size [of a] uint_range_size [of b]
  by (simp_all add: word_le_def unsigned_ucast_eq wsst_TYs(3) take_bit_int_eq_self)

lemma ParseFrameHeader_ok:
  assumes "ParseFrameHeader wire = Inr h"
  shows "header_ok h" and "HeaderSize h \<le> length wire"
  using assms
  by (auto simp: ParseFrameHeader_def header_ok_def HeaderSize_def FrameTypeFromByte_def Let_def
      ucast_le_max split: if_splits)

lemma ParseFrameHeader_is_ok:
  "is_ok (ParseFrameHeader wire) \<longleftrightarrow>
     4 \<le> length wire \<and> wire ! 0 \<in> set knownFrameTypes \<and>
     (wire ! 1 AND 0x80 = 0 \<or> 8 \<le> length wire)"
  by (auto simp: ParseFrameHeader_def FrameTypeFromByte_def Let_def)

lemma ParseFrameHeader_local:
  assumes "ParseFrameHeader wire = Inr h"
  shows "ParseFrameHeader (take (HeaderSize h) wire @ rest) = Inr h"
  using assms
  by (auto simp: ParseFrameHeader_def FrameTypeFromByte_def HeaderSize_def Let_def nth_append
      drop_take min_def split: if_splits)

section \<open>Properties\<close>

text \<open>C21: For every known frame type, every tier, either final flag and every payload length a
  header can carry, parsing the bytes \<open>ToBytes\<close> writes for \<open>NewFrameHeader\<close> gives that header
  back whatever follows it, with the two low bits of the tier and the final flag as they were
  asked for.\<close>

theorem frame_header_roundtrip:
  assumes "ft \<in> set knownFrameTypes" and "n \<le> 0xFFFFFFFF"
  shows "ParseFrameHeader (ToBytes (NewFrameHeader ft tier fin n) @ rest)
           = Inr (NewFrameHeader ft tier fin n)
       \<and> header_tier (NewFrameHeader ft tier fin n) = tier AND 0x03
       \<and> IsFinal (NewFrameHeader ft tier fin n) = fin
       \<and> HeaderSize (NewFrameHeader ft tier fin n) = (if n \<le> 0xFFFF then 4 else 8)"
  using ParseFrameHeader_ToBytes [OF NewFrameHeader_ok [OF assms]]
  by (simp add: NewFrameHeader_tier NewFrameHeader_final HeaderSize_def flip: not_le)

theorem frame_header_roundtrip_witness:
  "ParseFrameHeader (ToBytes (NewFrameHeader FrameTypeCaps EncodingTierMsgPack True 0x1F000) @ [7])
     = Inr (NewFrameHeader FrameTypeCaps EncodingTierMsgPack True 0x1F000)"
  using frame_header_roundtrip [of FrameTypeCaps "0x1F000" EncodingTierMsgPack True "[7]"]
  by (simp add: knownFrameTypes_def)

text \<open>A wire parses exactly when its first four bytes are there, its type byte is one of the
  known types and, if the extended bit is set, all eight bytes are there; what is parsed fits
  its length field and depends on the header's own bytes alone.\<close>

theorem parse_frame_header_accepts:
  "is_ok (ParseFrameHeader wire) =
     (4 \<le> length wire \<and> wire ! 0 \<in> set knownFrameTypes \<and>
      (wire ! 1 AND 0x80 = 0 \<or> 8 \<le> length wire))
   \<and> (case ParseFrameHeader wire of
        Inl e \<Rightarrow> True
      | Inr h \<Rightarrow> HeaderSize h \<le> length wire \<and> header_ok h
               \<and> ParseFrameHeader (take (HeaderSize h) wire @ rest) = Inr h)"
  by (simp add: ParseFrameHeader_is_ok ParseFrameHeader_ok ParseFrameHeader_local split: sum.split)

end
