(* ===== verification/Go_Json.thy ===== *)
theory Go_Json
  imports Go_Values
begin

text \<open>
  What the SDK uses of \<open>encoding/json\<close>.  A JSON text is scanned into tokens and parsed by a
  pushdown automaton (as the package's scanner does, with its nesting limit); the tree keeps
  the literals of strings and numbers, so that printing it gives the compact text back, as
  \<open>json.RawMessage\<close> needs.  Trees are converted to and from \<open>any\<close> values.  The shortest
  decimal text of a floating-point number (\<open>strconv.AppendFloat\<close>) is a parameter of
  \<open>Marshal\<close>; error texts of the package are not modelled.
\<close>

section \<open>Bytes and UTF-8\<close>

abbreviation code :: "char \<Rightarrow> nat" where
  "code c \<equiv> of_char c"

definition bytes_of :: "string \<Rightarrow> byte list" where
  "bytes_of s = map of_char s"

definition string_of :: "byte list \<Rightarrow> string" where
  "string_of bs = map (\<lambda>b. char_of (unat b)) bs"

lemma string_of_bytes_of [simp]: "string_of (bytes_of s) = s"
proof -
  have "unat (of_char c :: byte) = of_char c" for c
    using nat_of_char_less_256 [of c] unat_of_nat [where ?'a = 8, of "of_char c"]
    by (simp add: of_nat_of_char)
  then show ?thesis by (simp add: string_of_def bytes_of_def comp_def)
qed

definition in_range :: "nat \<Rightarrow> nat \<Rightarrow> char \<Rightarrow> bool" where
  "in_range lo hi c \<longleftrightarrow> lo \<le> code c \<and> code c \<le> hi"

abbreviation cont :: "char \<Rightarrow> bool" where
  "cont \<equiv> in_range 0x80 0xBF"

text \<open>The width of the well-formed UTF-8 sequence that starts a string, 0 for none.\<close>

fun utf8_width :: "string \<Rightarrow> nat" where
  "utf8_width [] = 0"
| "utf8_width (a # s) =
     (if code a < 0x80 then 1
      else case s of
        [] \<Rightarrow> 0
      | b # s \<Rightarrow>
          if in_range 0xC2 0xDF a then (if cont b then 2 else 0)
          else case s of
            [] \<Rightarrow> 0
          | c # s \<Rightarrow>
              if in_range 0xE0 0xEF a
              then (if cont c \<and> in_range (if code a = 0xE0 then 0xA0 else 0x80)
                                        (if code a = 0xED then 0x9F else 0xBF) b then 3 else 0)
              else case s of
                [] \<Rightarrow> 0
              | d # s \<Rightarrow>
                  if in_range 0xF0 0xF4 a \<and> cont c \<and> cont d
                     \<and> in_range (if code a = 0xF0 then 0x90 else 0x80)
                                (if code a = 0xF4 then 0x8F else 0xBF) b then 4 else 0)"

declare utf8_width.simps [simp del]

fun utf8_valid :: "string \<Rightarrow> bool" where
  "utf8_valid [] = True"
| "utf8_valid (a # s) \<longleftrightarrow>
     utf8_width (a # s) \<noteq> 0 \<and> utf8_valid (drop (utf8_width (a # s) - 1) s)"

text \<open>The encoding of a code point.\<close>

definition utf8_encode :: "nat \<Rightarrow> string" where
  "utf8_encode n =
     (if n < 0x80 then [char_of n]
      else if n < 0x800 then [char_of (0xC0 + n div 64), char_of (0x80 + n mod 64)]
      else if n < 0x10000
      then [char_of (0xE0 + n div 4096), char_of (0x80 + n div 64 mod 64), char_of (0x80 + n mod 64)]
      else [char_of (0xF0 + n div 262144), char_of (0x80 + n div 4096 mod 64),
            char_of (0x80 + n div 64 mod 64), char_of (0x80 + n mod 64)])"

definition utf8_replacement :: string where
  "utf8_replacement = [CHR 0xEF, CHR 0xBF, CHR 0xBD]"

section \<open>String literals\<close>

definition hex_low :: "nat \<Rightarrow> char" where
  "hex_low d = (if d < 10 then char_of (48 + d) else char_of (87 + d))"

definition is_hex :: "char \<Rightarrow> bool" where
  "is_hex c \<longleftrightarrow> is_digit c \<or> in_range 97 102 c \<or> in_range 65 70 c"

definition hex_val :: "char \<Rightarrow> nat" where
  "hex_val c = (if is_digit c then code c - 48 else if in_range 97 102 c then code c - 87
                else code c - 55)"

definition hex4 :: "char \<Rightarrow> char \<Rightarrow> char \<Rightarrow> char \<Rightarrow> nat" where
  "hex4 a b c d = ((hex_val a * 16 + hex_val b) * 16 + hex_val c) * 16 + hex_val d"

text \<open>The body of the literal \<open>json.Marshal\<close> writes for a string: HTML characters, control
  characters and the two line separators are escaped, ill-formed bytes are replaced.\<close>

definition quote_ascii :: "char \<Rightarrow> string" where
  "quote_ascii c =
     (if c = CHR 0x22 \<or> c = CHR 0x5C then [CHR 0x5C, c]
      else if c = CHR 0x08 then [CHR 0x5C, CHR ''b'']
      else if c = CHR 0x0C then [CHR 0x5C, CHR ''f'']
      else if c = CHR 0x0A then [CHR 0x5C, CHR ''n'']
      else if c = CHR 0x0D then [CHR 0x5C, CHR ''r'']
      else if c = CHR 0x09 then [CHR 0x5C, CHR ''t'']
      else if code c < 0x20 \<or> c = CHR ''<'' \<or> c = CHR ''>'' \<or> c = CHR ''&''
      then [CHR 0x5C, CHR ''u'', CHR ''0'', CHR ''0'', hex_low (code c div 16), hex_low (code c mod 16)]
      else [c])"

definition quote_seq :: "string \<Rightarrow> string" where
  "quote_seq s =
     (if s = [CHR 0xE2, CHR 0x80, CHR 0xA8] then [CHR 0x5C] @ ''u2028''
      else if s = [CHR 0xE2, CHR 0x80, CHR 0xA9] then [CHR 0x5C] @ ''u2029''
      else s)"

fun json_quote :: "string \<Rightarrow> string" where
  "json_quote [] = []"
| "json_quote (a # s) =
     (if code a < 0x80 then quote_ascii a @ json_quote s
      else let w = utf8_width (a # s)
           in if w = 0 then [CHR 0x5C] @ ''ufffd'' @ json_quote s
              else quote_seq (a # take (w - 1) s) @ json_quote (drop (w - 1) s))"

definition escape_val :: "char \<Rightarrow> char option" where
  "escape_val c =
     (if c = CHR 0x22 \<or> c = CHR 0x5C \<or> c = CHR ''/'' then Some c
      else if c = CHR ''b'' then Some (CHR 0x08)
      else if c = CHR ''f'' then Some (CHR 0x0C)
      else if c = CHR ''n'' then Some (CHR 0x0A)
      else if c = CHR ''r'' then Some (CHR 0x0D)
      else if c = CHR ''t'' then Some (CHR 0x09)
      else None)"

text \<open>Scanning a literal up to its closing quote: the body and the rest.\<close>

fun scan_str :: "string \<Rightarrow> (string \<times> string) option" where
  "scan_str [] = None"
| "scan_str (c # s) =
     (if c = CHR 0x22 then Some ([], s)
      else if c = CHR 0x5C then
        (case s of
           [] \<Rightarrow> None
         | e # s \<Rightarrow>
             if e = CHR ''u'' then
               (case s of
                  x1 # x2 # x3 # x4 # s \<Rightarrow>
                    if is_hex x1 \<and> is_hex x2 \<and> is_hex x3 \<and> is_hex x4
                    then map_option (\<lambda>(b, r). ([c, e, x1, x2, x3, x4] @ b, r)) (scan_str s)
                    else None
                | _ \<Rightarrow> None)
             else if escape_val e \<noteq> None
             then map_option (\<lambda>(b, r). ([c, e] @ b, r)) (scan_str s)
             else None)
      else if code c < 0x20 then None
      else map_option (\<lambda>(b, r). (c # b, r)) (scan_str s))"

text \<open>The string a literal body denotes.  An unpaired surrogate and an ill-formed byte
  become the replacement character.\<close>

definition is_surrogate :: "nat \<Rightarrow> bool" where
  "is_surrogate n \<longleftrightarrow> 0xD800 \<le> n \<and> n < 0xE000"

definition surrogate_pair :: "nat \<Rightarrow> string \<Rightarrow> nat option" where
  "surrogate_pair hi s =
     (case s of
        bs # u # x1 # x2 # x3 # x4 # _ \<Rightarrow>
          let lo = hex4 x1 x2 x3 x4
          in if bs = CHR 0x5C \<and> u = CHR ''u'' \<and> hi < 0xDC00 \<and> 0xDC00 \<le> lo \<and> lo < 0xE000
             then Some (0x10000 + (hi - 0xD800) * 1024 + (lo - 0xDC00)) else None
      | _ \<Rightarrow> None)"

fun unquote :: "string \<Rightarrow> string" where
  "unquote [] = []"
| "unquote (c # s) =
     (if c = CHR 0x5C then
        (case s of
           [] \<Rightarrow> []
         | e # s \<Rightarrow>
             if e = CHR ''u'' then
               (case s of
                  x1 # x2 # x3 # x4 # s \<Rightarrow>
                    let n = hex4 x1 x2 x3 x4
                    in if is_surrogate n then
                         (case surrogate_pair n s of
                            Some r \<Rightarrow> utf8_encode r @ unquote (drop 6 s)
                          | None \<Rightarrow> utf8_replacement @ unquote s)
                       else utf8_encode n @ unquote s
                | _ \<Rightarrow> [])
             else (case escape_val e of Some x \<Rightarrow> x # unquote s | None \<Rightarrow> unquote s))
      else if code c < 0x80 then c # unquote s
      else let w = utf8_width (c # s)
           in if w = 0 then utf8_replacement @ unquote s
              else (c # take (w - 1) s) @ unquote (drop (w - 1) s))"

section \<open>Number literals\<close>

definition scan_int :: "string \<Rightarrow> (string \<times> string) option" where
  "scan_int s =
     (case s of
        [] \<Rightarrow> None
      | c # cs \<Rightarrow> if c = CHR ''0'' then Some ([c], cs)
                 else if is_digit c then Some (takeWhile is_digit s, dropWhile is_digit s)
                 else None)"

definition scan_digits :: "string \<Rightarrow> (string \<times> string) option" where
  "scan_digits s =
     (if takeWhile is_digit s = [] then None
      else Some (takeWhile is_digit s, dropWhile is_digit s))"

definition scan_frac :: "string \<Rightarrow> (string \<times> string) option" where
  "scan_frac s =
     (case s of
        c # cs \<Rightarrow> if c = CHR ''.'' then map_option (\<lambda>(d, r). (c # d, r)) (scan_digits cs)
                 else Some ([], s)
      | [] \<Rightarrow> Some ([], []))"

definition scan_exp :: "string \<Rightarrow> (string \<times> string) option" where
  "scan_exp s =
     (case s of
        c # cs \<Rightarrow>
          if c = CHR ''e'' \<or> c = CHR ''E'' then
            (case cs of
               g # ds \<Rightarrow> if g = CHR ''+'' \<or> g = CHR ''-''
                        then map_option (\<lambda>(d, r). (c # g # d, r)) (scan_digits ds)
                        else map_option (\<lambda>(d, r). (c # d, r)) (scan_digits cs)
             | [] \<Rightarrow> None)
          else Some ([], s)
      | [] \<Rightarrow> Some ([], []))"

definition scan_sign :: "string \<Rightarrow> string \<times> string" where
  "scan_sign s = (case s of c # cs \<Rightarrow> if c = CHR ''-'' then ([c], cs) else ([], s) | [] \<Rightarrow> ([], []))"

definition scan_num :: "string \<Rightarrow> (string \<times> string) option" where
  "scan_num s =
     (case scan_sign s of (g, s) \<Rightarrow>
      case scan_int s of None \<Rightarrow> None | Some (i, s) \<Rightarrow>
      case scan_frac s of None \<Rightarrow> None | Some (f, s) \<Rightarrow>
      case scan_exp s of None \<Rightarrow> None | Some (e, s) \<Rightarrow> Some (g @ i @ f @ e, s))"

definition num_lit :: "string \<Rightarrow> bool" where
  "num_lit s \<longleftrightarrow> scan_num s = Some (s, [])"

text \<open>The exact value of a literal, \<open>n / d\<close> with its sign, and the nearest \<open>float64\<close>.\<close>

fun int_digits :: "int \<Rightarrow> string \<Rightarrow> int" where
  "int_digits acc [] = acc"
| "int_digits acc (c # cs) = int_digits (10 * acc + int (digit_val c)) cs"

definition exp_val :: "string \<Rightarrow> int" where
  "exp_val e =
     (case e of
        _ # g # ds \<Rightarrow> if g = CHR ''-'' then - int_digits 0 ds
                     else if g = CHR ''+'' then int_digits 0 ds
                     else int_digits 0 (g # ds)
      | _ \<Rightarrow> 0)"

definition ParseFloat :: "string \<Rightarrow> f64 option" where
  "ParseFloat s =
     (case scan_sign s of (g, s) \<Rightarrow>
      case scan_int s of None \<Rightarrow> None | Some (i, s) \<Rightarrow>
      case scan_frac s of None \<Rightarrow> None | Some (f, s) \<Rightarrow>
      case scan_exp s of None \<Rightarrow> None | Some (e, s) \<Rightarrow>
        if s \<noteq> [] then None
        else let k = exp_val e - int (length (tl f));
                 x = f64_of_ratio (g \<noteq> []) (int_digits 0 (i @ tl f) * 10 ^ nat k) (10 ^ nat (- k))
             in if f64_isinf x then None else Some x)"

section \<open>Tokens\<close>

datatype tok = TLBrace | TRBrace | TLBrack | TRBrack | TColon | TComma
  | TStr string | TNum string | TTrue | TFalse | TNull

fun tok_text :: "tok \<Rightarrow> string" where
  "tok_text TLBrace = ''{''"
| "tok_text TRBrace = ''}''"
| "tok_text TLBrack = ''[''"
| "tok_text TRBrack = '']''"
| "tok_text TColon = '':''"
| "tok_text TComma = '',''"
| "tok_text (TStr b) = [CHR 0x22] @ b @ [CHR 0x22]"
| "tok_text (TNum n) = n"
| "tok_text TTrue = ''true''"
| "tok_text TFalse = ''false''"
| "tok_text TNull = ''null''"

definition is_space :: "char \<Rightarrow> bool" where
  "is_space c \<longleftrightarrow> c = CHR 0x20 \<or> c = CHR 0x09 \<or> c = CHR 0x0A \<or> c = CHR 0x0D"

text \<open>One token from the front of a text that does not start with white space.\<close>

definition next_tok :: "string \<Rightarrow> (tok \<times> string) option" where
  "next_tok s =
     (case s of
        [] \<Rightarrow> None
      | c # r \<Rightarrow>
          if c = CHR ''{'' then Some (TLBrace, r)
          else if c = CHR ''}'' then Some (TRBrace, r)
          else if c = CHR ''['' then Some (TLBrack, r)
          else if c = CHR '']'' then Some (TRBrack, r)
          else if c = CHR '':'' then Some (TColon, r)
          else if c = CHR '','' then Some (TComma, r)
          else if c = CHR 0x22 then map_option (\<lambda>(b, r). (TStr b, r)) (scan_str r)
          else if has_prefix s ''true'' then Some (TTrue, drop 4 s)
          else if has_prefix s ''false'' then Some (TFalse, drop 5 s)
          else if has_prefix s ''null'' then Some (TNull, drop 4 s)
          else map_option (\<lambda>(n, r). (TNum n, r)) (scan_num s))"

lemma scan_str_shorter: "scan_str s = Some (b, r) \<Longrightarrow> length r < length s"
  by (induction s arbitrary: b r rule: scan_str.induct)
     (fastforce split: if_splits list.splits)+

lemma scan_parts:
  "scan_digits s = Some (p, r) \<Longrightarrow> s = p @ r"
  "scan_int s = Some (p, r) \<Longrightarrow> s = p @ r \<and> p \<noteq> []"
  "scan_sign s = (p, r) \<Longrightarrow> s = p @ r"
  by (auto simp: scan_digits_def scan_int_def scan_sign_def split: list.splits if_splits)

lemma scan_frac_exp_parts:
  "scan_frac s = Some (p, r) \<Longrightarrow> s = p @ r"
  "scan_exp s = Some (p, r) \<Longrightarrow> s = p @ r"
  by (auto simp: scan_frac_def scan_exp_def dest: scan_parts split: list.splits if_splits)

lemma scan_num_parts:
  assumes "scan_num s = Some (n, r)"
  shows "s = n @ r \<and> n \<noteq> []"
  using assms
  by (auto simp: scan_num_def dest!: scan_parts scan_frac_exp_parts split: prod.splits option.splits)

lemma scan_num_shorter: "scan_num s = Some (n, r) \<Longrightarrow> length r < length s"
  using scan_num_parts by fastforce

lemma next_tok_shorter: "next_tok s = Some (t, r) \<Longrightarrow> length r < length s"
  by (auto simp: next_tok_def has_prefix_def dest: scan_str_shorter scan_num_shorter
      split: list.splits if_splits)

function json_lex :: "string \<Rightarrow> tok list option" where
  "json_lex s =
     (case dropWhile is_space s of
        [] \<Rightarrow> Some []
      | c # cs \<Rightarrow>
          (case next_tok (c # cs) of
             None \<Rightarrow> None
           | Some (t, r) \<Rightarrow> map_option ((#) t) (json_lex r)))"
  by pat_completeness auto
termination
proof (relation "measure length", goal_cases)
  case (2 s c cs x t r)
  have "length r < length (dropWhile is_space s)"
    using 2 by (auto dest: next_tok_shorter)
  then show ?case using length_dropWhile_le [of is_space s] by simp
qed simp

declare json_lex.simps [simp del]

section \<open>Trees\<close>

text \<open>Strings and keys are literal bodies, numbers are literals.\<close>

datatype json =
    JNull
  | JBool bool
  | JNum string
  | JStr string
  | JArr "json list"
  | JObj "(string \<times> json) list"

definition sep_by :: "tok list list \<Rightarrow> tok list" where
  "sep_by xs = (case xs of [] \<Rightarrow> [] | x # xs \<Rightarrow> x @ concat (map ((#) TComma) xs))"

fun toks :: "json \<Rightarrow> tok list" where
  "toks JNull = [TNull]"
| "toks (JBool b) = [if b then TTrue else TFalse]"
| "toks (JNum n) = [TNum n]"
| "toks (JStr s) = [TStr s]"
| "toks (JArr js) = TLBrack # sep_by (map toks js) @ [TRBrack]"
| "toks (JObj kvs) = TLBrace # sep_by (map (\<lambda>(k, j). TStr k # TColon # toks j) kvs) @ [TRBrace]"

definition json_text :: "json \<Rightarrow> string" where
  "json_text j = concat (map tok_text (toks j))"

text \<open>The parser is the scanner's automaton: it waits for a value, for the first element of an
  array or object, for a key, for a colon, or for what follows a value.  Its stack holds the
  arrays and objects that are open; at most 10000 may be.\<close>

datatype pframe = FArr "json list" | FObj "(string \<times> json) list" string

datatype pstate =
    SVal "pframe list"
  | SArr0 "pframe list"
  | SObj0 "pframe list"
  | SKey "(string \<times> json) list" "pframe list"
  | SColon "(string \<times> json) list" string "pframe list"
  | SDone "pframe list" json

definition begin_val :: "pframe list \<Rightarrow> tok \<Rightarrow> pstate option" where
  "begin_val stk t =
     (case t of
        TNull \<Rightarrow> Some (SDone stk JNull)
      | TTrue \<Rightarrow> Some (SDone stk (JBool True))
      | TFalse \<Rightarrow> Some (SDone stk (JBool False))
      | TNum n \<Rightarrow> Some (SDone stk (JNum n))
      | TStr s \<Rightarrow> Some (SDone stk (JStr s))
      | TLBrack \<Rightarrow> if int (length stk) < 10000 then Some (SArr0 stk) else None
      | TLBrace \<Rightarrow> if int (length stk) < 10000 then Some (SObj0 stk) else None
      | _ \<Rightarrow> None)"

definition end_val :: "pframe list \<Rightarrow> json \<Rightarrow> tok \<Rightarrow> pstate option" where
  "end_val stk j t =
     (case stk of
        [] \<Rightarrow> None
      | FArr acc # stk \<Rightarrow>
          (case t of
             TComma \<Rightarrow> Some (SVal (FArr (j # acc) # stk))
           | TRBrack \<Rightarrow> Some (SDone stk (JArr (rev (j # acc))))
           | _ \<Rightarrow> None)
      | FObj acc k # stk \<Rightarrow>
          (case t of
             TComma \<Rightarrow> Some (SKey ((k, j) # acc) stk)
           | TRBrace \<Rightarrow> Some (SDone stk (JObj (rev ((k, j) # acc))))
           | _ \<Rightarrow> None))"

fun pstep :: "pstate \<Rightarrow> tok \<Rightarrow> pstate option" where
  "pstep (SVal stk) t = begin_val stk t"
| "pstep (SArr0 stk) t =
     (if t = TRBrack then Some (SDone stk (JArr [])) else begin_val (FArr [] # stk) t)"
| "pstep (SObj0 stk) t =
     (case t of TRBrace \<Rightarrow> Some (SDone stk (JObj [])) | TStr k \<Rightarrow> Some (SColon [] k stk) | _ \<Rightarrow> None)"
| "pstep (SKey acc stk) t = (case t of TStr k \<Rightarrow> Some (SColon acc k stk) | _ \<Rightarrow> None)"
| "pstep (SColon acc k stk) t = (if t = TColon then Some (SVal (FObj acc k # stk)) else None)"
| "pstep (SDone stk j) t = end_val stk j t"

fun prun :: "pstate \<Rightarrow> tok list \<Rightarrow> pstate option" where
  "prun p [] = Some p"
| "prun p (t # ts) = (case pstep p t of None \<Rightarrow> None | Some q \<Rightarrow> prun q ts)"

definition parse_json :: "string \<Rightarrow> json option" where
  "parse_json s =
     (case json_lex s of
        None \<Rightarrow> None
      | Some ts \<Rightarrow> (case prun (SVal []) ts of Some (SDone [] j) \<Rightarrow> Some j | _ \<Rightarrow> None))"

section \<open>Conversion to and from Go values\<close>

definition json_error :: nps_error where
  "json_error = ErrPlain ''json''"

text \<open>\<open>json.Unmarshal\<close> into \<open>any\<close>: numbers become \<open>float64\<close>, of equal keys the last wins.\<close>

fun jany :: "json \<Rightarrow> goany res"
and jany_list :: "json list \<Rightarrow> goany list res"
and jany_obj :: "dict \<Rightarrow> (string \<times> json) list \<Rightarrow> dict res" where
  "jany JNull = Inr GNil"
| "jany (JBool b) = Inr (GBool b)"
| "jany (JNum n) = (case ParseFloat n of None \<Rightarrow> Inl json_error | Some x \<Rightarrow> Inr (GF64 x))"
| "jany (JStr s) = Inr (GStr (unquote s))"
| "jany (JArr js) = bindr (jany_list js) (\<lambda>xs. Inr (GList xs))"
| "jany (JObj kvs) = bindr (jany_obj [] kvs) (\<lambda>d. Inr (GMap d))"
| "jany_list [] = Inr []"
| "jany_list (j # js) = bindr (jany j) (\<lambda>x. bindr (jany_list js) (\<lambda>xs. Inr (x # xs)))"
| "jany_obj acc [] = Inr acc"
| "jany_obj acc ((k, j) # kvs) = bindr (jany j) (\<lambda>x. jany_obj (dput (unquote k) x acc) kvs)"

text \<open>\<open>json.Unmarshal\<close> into a \<open>map[string]any\<close>: \<open>null\<close> leaves the nil map.\<close>

definition unmarshal_dict :: "string \<Rightarrow> dict res" where
  "unmarshal_dict s =
     (case parse_json s of
        None \<Rightarrow> Inl json_error
      | Some JNull \<Rightarrow> Inr []
      | Some (JObj kvs) \<Rightarrow> jany_obj [] kvs
      | Some _ \<Rightarrow> Inl json_error)"

text \<open>\<open>json.Marshal\<close>.  Keys are sorted; numbers print in decimal, floats as the parameter
  prints them, and a float that is not finite is an error.\<close>

record float_fmt =
  fmt64 :: "f64 \<Rightarrow> string"
  fmt32 :: "f32 \<Rightarrow> string"

definition jf64 :: "float_fmt \<Rightarrow> f64 \<Rightarrow> json res" where
  "jf64 F x = (if f64_isnan x \<or> f64_isinf x then Inl json_error else Inr (JNum (fmt64 F x)))"

definition jf32 :: "float_fmt \<Rightarrow> f32 \<Rightarrow> json res" where
  "jf32 F x = (if f32_finite x then Inr (JNum (fmt32 F x)) else Inl json_error)"

fun all_res :: "'a res list \<Rightarrow> 'a list res" where
  "all_res [] = Inr []"
| "all_res (r # rs) = bindr r (\<lambda>x. bindr (all_res rs) (\<lambda>xs. Inr (x # xs)))"

definition jobj :: "(string \<times> json) list \<Rightarrow> json" where
  "jobj kvs = JObj (map (\<lambda>(k, j). (json_quote k, j)) (sort_key fst kvs))"

fun marshal :: "float_fmt \<Rightarrow> goany \<Rightarrow> json res"
and marshal_list :: "float_fmt \<Rightarrow> goany list \<Rightarrow> json list res"
and marshal_obj :: "float_fmt \<Rightarrow> dict \<Rightarrow> (string \<times> json) list res"
and marshal_objs :: "float_fmt \<Rightarrow> dict list \<Rightarrow> json list res" where
  "marshal F GNil = Inr JNull"
| "marshal F (GBool b) = Inr (JBool b)"
| "marshal F (GNum k i) = Inr (JNum (dec_int i))"
| "marshal F (GF64 x) = jf64 F x"
| "marshal F (GF32 x) = jf32 F x"
| "marshal F (GJnum s) =
     (if s = [] then Inr (JNum ''0'') else if num_lit s then Inr (JNum s) else Inl json_error)"
| "marshal F (GStr s) = Inr (JStr (json_quote s))"
| "marshal F (GList xs) = bindr (marshal_list F xs) (\<lambda>js. Inr (JArr js))"
| "marshal F (GMap d) = bindr (marshal_obj F d) (\<lambda>kvs. Inr (jobj kvs))"
| "marshal F (GStrs ss) = Inr (JArr (map (\<lambda>s. JStr (json_quote s)) ss))"
| "marshal F (GF32s xs) = bindr (all_res (map (jf32 F) xs)) (\<lambda>js. Inr (JArr js))"
| "marshal F (GF64s xs) = bindr (all_res (map (jf64 F) xs)) (\<lambda>js. Inr (JArr js))"
| "marshal F (GMaps ds) = bindr (marshal_objs F ds) (\<lambda>js. Inr (JArr js))"
| "marshal F GTypedNil = Inr JNull"
| "marshal_list F [] = Inr []"
| "marshal_list F (x # xs) =
     bindr (marshal F x) (\<lambda>j. bindr (marshal_list F xs) (\<lambda>js. Inr (j # js)))"
| "marshal_obj F [] = Inr []"
| "marshal_obj F ((k, x) # d) =
     bindr (marshal F x) (\<lambda>j. bindr (marshal_obj F d) (\<lambda>kvs. Inr ((k, j) # kvs)))"
| "marshal_objs F [] = Inr []"
| "marshal_objs F (d # ds) =
     bindr (marshal_obj F d) (\<lambda>kvs. bindr (marshal_objs F ds) (\<lambda>js. Inr (jobj kvs # js)))"

definition marshal_text :: "float_fmt \<Rightarrow> goany \<Rightarrow> string res" where
  "marshal_text F v = bindr (marshal F v) (\<lambda>j. Inr (json_text j))"

section \<open>Scanning what was printed\<close>

definition str_lit :: "string \<Rightarrow> bool" where
  "str_lit b \<longleftrightarrow> scan_str (b @ [CHR 0x22]) = Some (b, [])"

lemma scan_str_append: "scan_str s = Some (b, r) \<Longrightarrow> scan_str (s @ t) = Some (b, r @ t)"
proof (induction s arbitrary: b r rule: scan_str.induct)
  case (2 c s)
  consider (quote) "c = CHR 0x22" | (esc) "c = CHR 0x5C" | (plain) "c \<noteq> CHR 0x22" "c \<noteq> CHR 0x5C"
    by blast
  then show ?case
  proof cases
    case esc
    with "2.prems" obtain e s' where s: "s = e # s'" by (cases s) auto
    show ?thesis
    proof (cases "e = CHR ''u''")
      case True
      with "2.prems" esc s obtain x1 x2 x3 x4 s'' where "s' = x1 # x2 # x3 # x4 # s''"
        by (auto split: list.splits)
      with "2.prems" esc s True show ?thesis
        using "2.IH"(1) [of e s' x1 "x2 # x3 # x4 # s''" x2 "x3 # x4 # s''" x3 "x4 # s''" x4 s'']
        by (auto split: if_splits)
    next
      case False
      with "2.prems" esc s show ?thesis using "2.IH"(2) [of e s'] by (auto split: if_splits)
    qed
  qed (use 2 in \<open>auto split: if_splits\<close>)
qed simp

lemma str_lit_scan: "str_lit b \<Longrightarrow> scan_str (b @ CHR 0x22 # r) = Some (b, r)"
  using scan_str_append [of "b @ [CHR 0x22]" b "[]" r] by (simp add: str_lit_def)

text \<open>A text at which no number literal can go on.\<close>

definition num_char :: "char \<Rightarrow> bool" where
  "num_char c \<longleftrightarrow> is_digit c \<or> c \<in> set ''.eE+-''"

definition stops :: "string \<Rightarrow> bool" where
  "stops s \<longleftrightarrow> s = [] \<or> \<not> num_char (hd s)"

lemma stops_While [simp]:
  "stops t \<Longrightarrow> takeWhile is_digit t = []" "stops t \<Longrightarrow> dropWhile is_digit t = t"
  by (cases t; auto simp: stops_def num_char_def)+

lemma While_append_ext:
  assumes "dropWhile P s \<noteq> [] \<or> takeWhile P t = [] \<and> dropWhile P t = t"
  shows "takeWhile P (s @ t) = takeWhile P s" and "dropWhile P (s @ t) = dropWhile P s @ t"
  using assms by (induction s) auto

lemma scan_digits_append:
  "scan_digits s = Some (p, r) \<Longrightarrow> r \<noteq> [] \<or> stops t \<Longrightarrow> scan_digits (s @ t) = Some (p, r @ t)"
  using While_append_ext [of is_digit s t] by (auto simp: scan_digits_def split: if_splits)

lemma scan_int_append:
  "scan_int s = Some (p, r) \<Longrightarrow> r \<noteq> [] \<or> stops t \<Longrightarrow> scan_int (s @ t) = Some (p, r @ t)"
  using While_append_ext [of is_digit s t]
  by (auto simp: scan_int_def split: if_splits list.splits)

lemma scan_frac_append:
  "scan_frac s = Some (p, r) \<Longrightarrow> r \<noteq> [] \<or> stops t \<Longrightarrow> scan_frac (s @ t) = Some (p, r @ t)"
  using scan_digits_append [of "tl s" _ r t]
  by (cases s) (auto simp: scan_frac_def stops_def num_char_def split: if_splits list.splits)

lemma scan_exp_append:
  assumes "scan_exp s = Some (p, r)" and "r \<noteq> [] \<or> stops t"
  shows "scan_exp (s @ t) = Some (p, r @ t)"
proof (cases s)
  case (Cons c cs)
  show ?thesis
  proof (cases "c = CHR ''e'' \<or> c = CHR ''E''")
    case True
    with assms Cons obtain g ds where "cs = g # ds" by (cases cs) (auto simp: scan_exp_def)
    with True Cons assms show ?thesis
      using scan_digits_append [of ds _ r t] scan_digits_append [of cs _ r t]
      by (auto simp: scan_exp_def split: if_splits)
  qed (use assms Cons in \<open>auto simp: scan_exp_def\<close>)
qed (use assms in \<open>auto simp: scan_exp_def stops_def num_char_def split: list.splits\<close>)

lemma num_lit_scan:
  assumes "num_lit n" and "stops t"
  shows "scan_num (n @ t) = Some (n, t)"
proof -
  obtain g s1 where g: "scan_sign n = (g, s1)" by (cases "scan_sign n")
  with assms(1) obtain i s2 where i: "scan_int s1 = Some (i, s2)"
    by (auto simp: num_lit_def scan_num_def split: option.splits)
  with assms(1) g obtain f s3 where f: "scan_frac s2 = Some (f, s3)"
    by (auto simp: num_lit_def scan_num_def split: option.splits)
  with assms(1) g i obtain e where e: "scan_exp s3 = Some (e, [])" "g @ i @ f @ e = n"
    by (auto simp: num_lit_def scan_num_def split: option.splits)
  have "s1 \<noteq> []" using i by (auto simp: scan_int_def)
  then have "scan_sign (n @ t) = (g, s1 @ t)"
    using g by (cases n) (auto simp: scan_sign_def split: if_splits)
  moreover have "scan_int (s1 @ t) = Some (i, s2 @ t)"
    using scan_int_append [OF i] assms(2) by blast
  moreover have "scan_frac (s2 @ t) = Some (f, s3 @ t)"
    using scan_frac_append [OF f] assms(2) by blast
  moreover have "scan_exp (s3 @ t) = Some (e, t)"
    using scan_exp_append [OF e(1), of t] assms(2) by simp
  ultimately show ?thesis using e(2) by (simp add: scan_num_def)
qed

lemma num_lit_hd:
  assumes "num_lit n"
  obtains c s where "n = c # s" "is_digit c \<or> c = CHR ''-''"
proof -
  have "is_digit (CHR ''0'')" by (simp add: is_digit_def)
  then have "scan_num [] = None" "\<not> is_digit c \<Longrightarrow> c \<noteq> CHR ''-'' \<Longrightarrow> scan_num (c # s) = None" for c s
    by (auto simp: scan_num_def scan_sign_def scan_int_def)
  then show ?thesis using assms that by (cases n) (fastforce simp: num_lit_def)+
qed

fun tok_ok :: "tok \<Rightarrow> bool" where
  "tok_ok (TStr b) = str_lit b"
| "tok_ok (TNum n) = num_lit n"
| "tok_ok t = True"

lemma is_digit_consts [simp]:
  "\<not> is_digit (CHR ''{'')" "\<not> is_digit (CHR ''}'')" "\<not> is_digit (CHR ''['')" "\<not> is_digit (CHR '']'')"
  "\<not> is_digit (CHR '':'')" "\<not> is_digit (CHR '','')" "\<not> is_digit (CHR 0x22)" "\<not> is_digit (CHR ''t'')"
  "\<not> is_digit (CHR ''f'')" "\<not> is_digit (CHR ''n'')" "\<not> is_digit (CHR 0x20)" "\<not> is_digit (CHR 0x09)"
  "\<not> is_digit (CHR 0x0A)" "\<not> is_digit (CHR 0x0D)"
  by (simp_all add: is_digit_def)

lemma next_tok_num:
  assumes "num_lit n" and "stops s"
  shows "next_tok (n @ s) = Some (TNum n, s)"
proof -
  obtain c m where n: "n = c # m" "is_digit c \<or> c = CHR ''-''"
    using num_lit_hd [OF assms(1)] by blast
  have "c \<notin> set ''{}[]:,tfn''" "c \<noteq> CHR 0x22" using n(2) by auto
  moreover from this have "\<not> has_prefix (n @ s) ''true''" "\<not> has_prefix (n @ s) ''false''"
    "\<not> has_prefix (n @ s) ''null''" by (simp_all add: has_prefix_def n(1))
  moreover have "next_tok (n @ s) = next_tok (c # m @ s)" by (simp add: n(1))
  ultimately show ?thesis
    using num_lit_scan [OF assms] n(1) by (simp add: next_tok_def)
qed

lemma next_tok_text:
  assumes "tok_ok t" and "\<And>n. t = TNum n \<Longrightarrow> stops s"
  shows "next_tok (tok_text t @ s) = Some (t, s)"
proof (cases t)
  case (TNum n)
  then show ?thesis using assms next_tok_num by simp
next
  case (TStr b)
  then show ?thesis using assms by (simp add: next_tok_def str_lit_scan)
qed (simp_all add: next_tok_def has_prefix_def)

lemma tok_text_hd:
  assumes "tok_ok t" obtains c r where "tok_text t = c # r" "\<not> is_space c"
  using assms
proof (cases t)
  case (TNum n)
  with assms obtain c m where "n = c # m" "is_digit c \<or> c = CHR ''-''"
    using num_lit_hd [of n] by auto
  then have "\<not> is_space c" by (auto simp: is_space_def)
  then show ?thesis using TNum \<open>n = c # m\<close> that [of c m] by simp
qed (simp_all add: is_space_def that)

lemma json_lex_text:
  assumes "tok_ok t" and "\<And>n. t = TNum n \<Longrightarrow> stops s"
  shows "json_lex (tok_text t @ s) = map_option ((#) t) (json_lex s)"
proof -
  obtain c r where c: "tok_text t = c # r" "\<not> is_space c" using tok_text_hd [OF assms(1)] by blast
  then show ?thesis using next_tok_text [OF assms] by (subst json_lex.simps) simp
qed

section \<open>Parsing what was printed\<close>

definition punct :: "tok list \<Rightarrow> bool" where
  "punct ts \<longleftrightarrow> ts = [] \<or> hd ts \<in> {TComma, TRBrack, TRBrace}"

text \<open>A number literal is followed by punctuation.\<close>

fun sep_ok :: "tok list \<Rightarrow> bool" where
  "sep_ok [] = True"
| "sep_ok (t # ts) \<longleftrightarrow> (case t of TNum n \<Rightarrow> punct ts | _ \<Rightarrow> True) \<and> sep_ok ts"

lemma punct_stops: "punct ts \<Longrightarrow> stops (concat (map tok_text ts))"
  by (cases ts) (auto simp: punct_def stops_def num_char_def)

lemma json_lex_toks:
  "list_all tok_ok ts \<Longrightarrow> sep_ok ts \<Longrightarrow> json_lex (concat (map tok_text ts)) = Some ts"
proof (induction ts)
  case Nil
  then show ?case by (simp add: json_lex.simps)
next
  case (Cons t ts)
  then show ?case by (subst (1) list.map, simp only: concat.simps, subst json_lex_text)
      (auto intro: punct_stops)
qed

fun json_ok :: "int \<Rightarrow> json \<Rightarrow> bool" where
  "json_ok d JNull = True"
| "json_ok d (JBool b) = True"
| "json_ok d (JNum n) = num_lit n"
| "json_ok d (JStr s) = str_lit s"
| "json_ok d (JArr js) \<longleftrightarrow> 0 < d \<and> list_all (json_ok (d - 1)) js"
| "json_ok d (JObj kvs) \<longleftrightarrow> 0 < d \<and> list_all (\<lambda>(k, j). str_lit k \<and> json_ok (d - 1) j) kvs"

lemma json_ok_mono: "json_ok d j \<Longrightarrow> d \<le> e \<Longrightarrow> json_ok e j"
proof (induction d j arbitrary: e rule: json_ok.induct)
  case (5 d js)
  then show ?case by (auto simp: list_all_iff)
next
  case (6 d kvs)
  then show ?case by (fastforce simp: list_all_iff)
qed auto

lemma sep_ok_sep_by:
  assumes "\<And>x ts. x \<in> set xs \<Longrightarrow> punct ts \<Longrightarrow> sep_ok ts \<Longrightarrow> sep_ok (x @ ts)"
    and "punct ts" and "sep_ok ts"
  shows "sep_ok (sep_by xs @ ts)"
proof -
  have "sep_ok (concat (map ((#) TComma) ys) @ ts) \<and> punct (concat (map ((#) TComma) ys) @ ts)"
    if "set ys \<subseteq> set xs" for ys
    using that
  proof (induction ys)
    case (Cons y ys)
    then show ?case using assms(1) [of y] by (simp add: punct_def)
  qed (use assms(2,3) in simp)
  then show ?thesis using assms(1,2,3)
    by (cases xs) (auto simp: sep_by_def)
qed

lemma sep_ok_toks: "punct ts \<Longrightarrow> sep_ok ts \<Longrightarrow> sep_ok (toks j @ ts)"
proof (induction j arbitrary: ts rule: toks.induct)
  case (5 js)
  have "sep_ok (sep_by (map toks js) @ TRBrack # ts)"
    by (rule sep_ok_sep_by) (use 5 in \<open>auto simp: punct_def\<close>)
  then show ?case by simp
next
  case (6 kvs)
  have IH: "sep_ok (toks j @ us)" if "(k, j) \<in> set kvs" "punct us" "sep_ok us" for k j us
    using "6.IH" that by fastforce
  have "punct (TRBrace # ts)" by (simp add: punct_def)
  then have "sep_ok (sep_by (map (\<lambda>(k, j). TStr k # TColon # toks j) kvs) @ TRBrace # ts)"
    by (intro sep_ok_sep_by) (use 6 in \<open>auto intro: IH\<close>)
  then show ?case by simp
qed auto

lemma tok_ok_sep_by: "list_all (list_all tok_ok) xs \<Longrightarrow> list_all tok_ok (sep_by xs)"
  by (cases xs) (auto simp: sep_by_def list_all_iff)

lemma tok_ok_toks: "json_ok d j \<Longrightarrow> list_all tok_ok (toks j)"
proof (induction d j rule: json_ok.induct)
  case (5 d js)
  then have "list_all (list_all tok_ok) (map toks js)" by (auto simp: list_all_iff)
  then show ?case by (simp add: tok_ok_sep_by)
next
  case (6 d kvs)
  then have "list_all (list_all tok_ok) (map (\<lambda>(k, j). TStr k # TColon # toks j) kvs)"
    by (fastforce simp: list_all_iff)
  then show ?case by (simp add: tok_ok_sep_by)
qed auto

lemma toks_hd: obtains t ts where "toks j = t # ts" "t \<noteq> TRBrack"
  by (cases j) (auto)

lemma prun_SArr0: "prun (SArr0 stk) (toks j @ ts) = prun (SVal (FArr [] # stk)) (toks j @ ts)"
  by (rule toks_hd [of j]) simp

lemma prun_elements:
  assumes "\<And>j stk' us. j \<in> set js \<Longrightarrow> length stk' = Suc (length stk) \<Longrightarrow>
             prun (SVal stk') (toks j @ us) = prun (SDone stk' j) us"
  shows "prun (SDone (FArr acc # stk) j) (concat (map ((#) TComma) (map toks js)) @ TRBrack # ts)
           = prun (SDone stk (JArr (rev acc @ j # js))) ts"
  using assms
  by (induction js arbitrary: acc j) (auto simp: end_val_def)

lemma prun_members:
  assumes "\<And>j stk' us. j \<in> snd ` set kvs \<Longrightarrow> length stk' = Suc (length stk) \<Longrightarrow>
             prun (SVal stk') (toks j @ us) = prun (SDone stk' j) us"
  shows "prun (SDone (FObj acc k # stk) j)
           (concat (map ((#) TComma) (map (\<lambda>(k, j). TStr k # TColon # toks j) kvs)) @ TRBrace # ts)
           = prun (SDone stk (JObj (rev acc @ (k, j) # kvs))) ts"
  using assms
  by (induction kvs arbitrary: acc k j) (auto simp: end_val_def)

lemma prun_toks:
  "json_ok d j \<Longrightarrow> int (length stk) + d \<le> 10000 \<Longrightarrow>
     prun (SVal stk) (toks j @ ts) = prun (SDone stk j) ts"
proof (induction d j arbitrary: stk ts rule: json_ok.induct)
  case (5 d js)
  have *: "prun (SVal stk') (toks j @ us) = prun (SDone stk' j) us"
    if "j \<in> set js" "length stk' = Suc (length stk)" for j stk' us
    using 5 that by (auto simp: list_all_iff)
  show ?case
  proof (cases js)
    case (Cons j ks)
    then show ?thesis
      using "5.prems" * [of j] prun_elements [of ks stk "[]" j ts] *
      by (simp add: begin_val_def sep_by_def prun_SArr0)
  qed (use 5 in \<open>simp add: begin_val_def sep_by_def\<close>)
next
  case (6 d kvs)
  have *: "prun (SVal stk') (toks j @ us) = prun (SDone stk' j) us"
    if "j \<in> snd ` set kvs" "length stk' = Suc (length stk)" for j stk' us
    using 6 that by (fastforce simp: list_all_iff)
  show ?case
  proof (cases kvs)
    case (Cons kj ks)
    obtain k j where "kj = (k, j)" by (cases kj)
    then show ?thesis
      using "6.prems" * [of j] prun_members [of ks stk "[]" k j ts] * Cons
      by (simp add: begin_val_def sep_by_def)
  qed (use 6 in \<open>simp add: begin_val_def sep_by_def\<close>)
qed (simp_all add: begin_val_def)

lemma parse_json_text:
  assumes "json_ok 10000 j"
  shows "parse_json (json_text j) = Some j"
proof -
  have "json_lex (json_text j) = Some (toks j)"
    unfolding json_text_def
    using json_lex_toks [OF tok_ok_toks [OF assms]] sep_ok_toks [of "[]" j] by (simp add: punct_def)
  then show ?thesis
    using prun_toks [OF assms, of "[]" "[]"] by (simp add: parse_json_def)
qed

section \<open>Quoting and unquoting\<close>

lemma char_of_code [simp]: "char_of (code c) = c"
  by simp

lemma hex_low_digit:
  assumes "d < 16"
  shows "is_hex (hex_low d) \<and> hex_val (hex_low d) = d"
  using assms by (auto simp: hex_low_def is_hex_def hex_val_def is_digit_def in_range_def)

lemma quote_ascii_cases:
  obtains (lit) "quote_ascii c = [c]" "c \<noteq> CHR 0x22" "c \<noteq> CHR 0x5C" "\<not> code c < 0x20"
  | (esc) e where "quote_ascii c = [CHR 0x5C, e]" "escape_val e = Some c" "e \<noteq> CHR ''u''"
  | (hex) "quote_ascii c = [CHR 0x5C, CHR ''u'', CHR ''0'', CHR ''0'',
             hex_low (code c div 16), hex_low (code c mod 16)]"
proof -
  consider "c \<in> {CHR 0x22, CHR 0x5C}" | "c = CHR 0x08" | "c = CHR 0x0C" | "c = CHR 0x0A"
    | "c = CHR 0x0D" | "c = CHR 0x09"
    | "c \<notin> {CHR 0x22, CHR 0x5C, CHR 0x08, CHR 0x0C, CHR 0x0A, CHR 0x0D, CHR 0x09}"
    by blast
  then show ?thesis
  proof cases
    case 7
    then show ?thesis
      using lit hex by (cases "code c < 0x20 \<or> c = CHR ''<'' \<or> c = CHR ''>'' \<or> c = CHR ''&''")
        (simp_all add: quote_ascii_def)
  qed (auto simp: quote_ascii_def escape_val_def intro: esc)
qed

lemma scan_quote_ascii:
  assumes "code c < 0x80"
  shows "scan_str (quote_ascii c @ t) = map_option (\<lambda>(b, r). (quote_ascii c @ b, r)) (scan_str t)"
proof -
  have "is_hex (CHR ''0'')" by (simp add: is_hex_def is_digit_def)
  moreover have "code c div 16 < 16" "code c mod 16 < 16" using assms by auto
  ultimately show ?thesis
    by (cases c rule: quote_ascii_cases) (simp_all add: hex_low_digit)
qed

lemma unquote_quote_ascii:
  assumes "code c < 0x80"
  shows "unquote (quote_ascii c @ t) = c # unquote t"
proof -
  have "hex_val (CHR ''0'') = 0" by (simp add: hex_val_def is_digit_def)
  then have "hex4 (CHR ''0'') (CHR ''0'') (hex_low (code c div 16)) (hex_low (code c mod 16)) = code c"
    using assms by (simp add: hex4_def hex_low_digit)
  then show ?thesis using assms
    by (cases c rule: quote_ascii_cases) (simp_all add: is_surrogate_def utf8_encode_def)
qed


lemma utf8_width_cases:
  assumes "utf8_width (a # s) \<noteq> 0" and "\<not> code a < 0x80"
  obtains (two) b t where "s = b # t" "utf8_width (a # s) = 2" "in_range 0xC2 0xDF a" "cont b"
  | (three) b c t where "s = b # c # t" "utf8_width (a # s) = 3" "in_range 0xE0 0xEF a" "cont c"
      "in_range (if code a = 0xE0 then 0xA0 else 0x80) (if code a = 0xED then 0x9F else 0xBF) b"
  | (four) b c d t where "s = b # c # d # t" "utf8_width (a # s) = 4" "in_range 0xF0 0xF4 a"
      "cont c" "cont d"
      "in_range (if code a = 0xF0 then 0x90 else 0x80) (if code a = 0xF4 then 0x8F else 0xBF) b"
  using assms by (auto simp: utf8_width.simps split: list.splits if_splits)

lemma in_range_ge: "in_range lo hi c \<Longrightarrow> 0x80 \<le> lo \<Longrightarrow> 0x80 \<le> code c"
  by (simp add: in_range_def)

lemma utf8_width_take:
  assumes "utf8_width (a # s) \<noteq> 0" and "\<not> code a < 0x80"
  shows "utf8_width (a # take (utf8_width (a # s) - 1) s @ t) = utf8_width (a # s)"
    and "utf8_width (a # s) - 1 \<le> length s" and "list_all (\<lambda>c. 0x80 \<le> code c) (a # take (utf8_width (a # s) - 1) s)"
proof -
  let ?w = "utf8_width (a # s)"
  have a: "0x80 \<le> code a" using assms(2) by simp
  have "utf8_width (a # take (?w - 1) s @ t) = ?w \<and> ?w - 1 \<le> length s
      \<and> list_all (\<lambda>c. 0x80 \<le> code c) (a # take (?w - 1) s)"
    using assms
  proof (cases rule: utf8_width_cases)
    case (two b t)
    then show ?thesis using a by (auto simp: utf8_width.simps dest: in_range_ge)
  next
    case (three b c t)
    moreover have "\<not> in_range 0xC2 0xDF a" using three(3) by (simp add: in_range_def)
    moreover have "0x80 \<le> code b" using three(5) by (auto dest: in_range_ge split: if_splits)
    ultimately show ?thesis using a by (auto simp: utf8_width.simps dest: in_range_ge)
  next
    case (four b c d t)
    moreover have "\<not> in_range 0xC2 0xDF a" "\<not> in_range 0xE0 0xEF a"
      using four(3) by (simp_all add: in_range_def)
    moreover have "0x80 \<le> code b" using four(6) by (auto dest: in_range_ge split: if_splits)
    ultimately show ?thesis using a by (auto simp: utf8_width.simps dest: in_range_ge)
  qed
  then show "utf8_width (a # take (?w - 1) s @ t) = ?w" "?w - 1 \<le> length s"
    "list_all (\<lambda>c. 0x80 \<le> code c) (a # take (?w - 1) s)" by simp_all
qed

lemma scan_str_high:
  "list_all (\<lambda>c. 0x80 \<le> code c) xs \<Longrightarrow>
     scan_str (xs @ t) = map_option (\<lambda>(b, r). (xs @ b, r)) (scan_str t)"
proof (induction xs)
  case (Cons c xs)
  then have "c \<noteq> CHR 0x22" "c \<noteq> CHR 0x5C" by auto
  with Cons show ?case by (cases "scan_str t") auto
qed (cases "scan_str t"; simp)

lemma hex_consts [simp]:
  "hex_val (CHR ''2'') = 2" "hex_val (CHR ''0'') = 0" "hex_val (CHR ''8'') = 8"
  "hex_val (CHR ''9'') = 9"
  "is_hex (CHR ''0'')" "is_hex (CHR ''2'')" "is_hex (CHR ''8'')" "is_hex (CHR ''9'')"
  "is_hex (CHR ''f'')" "is_hex (CHR ''d'')"
  by (simp_all add: hex_val_def is_hex_def is_digit_def in_range_def)

lemma scan_quote_seq:
  "list_all (\<lambda>c. 0x80 \<le> code c) xs \<Longrightarrow>
     scan_str (quote_seq xs @ t) = map_option (\<lambda>(b, r). (quote_seq xs @ b, r)) (scan_str t)"
  using scan_str_high [of xs t] by (simp add: quote_seq_def)

lemma scan_json_quote: "scan_str (json_quote s @ CHR 0x22 # r) = Some (json_quote s, r)"
proof (induction s rule: length_induct)
  case (1 s)
  show ?case
  proof (cases s)
    case (Cons a t)
    then have IH: "scan_str (json_quote t @ CHR 0x22 # r) = Some (json_quote t, r)"
      "scan_str (json_quote (drop n t) @ CHR 0x22 # r) = Some (json_quote (drop n t), r)" for n
      using 1 by simp_all
    show ?thesis
      using IH Cons utf8_width_take(3) [of a t]
      by (simp add: scan_quote_ascii scan_quote_seq Let_def)
  qed simp
qed

lemma str_lit_quote: "str_lit (json_quote s)"
  using scan_json_quote [of s "[]"] by (simp add: str_lit_def)

lemma unquote_high:
  assumes "utf8_width (a # s) \<noteq> 0" and "\<not> code a < 0x80"
  shows "unquote (a # take (utf8_width (a # s) - 1) s @ t) = a # take (utf8_width (a # s) - 1) s @ unquote t"
proof -
  have "a \<noteq> CHR 0x5C" using assms(2) by auto
  then show ?thesis
    using utf8_width_take(1,2) [OF assms] assms by (simp add: Let_def)
qed

lemma separators [simp]:
  "char_of (226 :: nat) = CHR 0xE2" "char_of (128 :: nat) = CHR 0x80"
  "char_of (168 :: nat) = CHR 0xA8" "char_of (169 :: nat) = CHR 0xA9"
  by code_simp+

lemma unquote_seq:
  assumes "utf8_width (a # s) \<noteq> 0" and "\<not> code a < 0x80"
  shows "unquote (quote_seq (a # take (utf8_width (a # s) - 1) s) @ t) = a # take (utf8_width (a # s) - 1) s @ unquote t"
  using unquote_high [OF assms, of t]
  by (auto simp add: quote_seq_def hex4_def is_surrogate_def utf8_encode_def)

lemma unquote_json_quote: "utf8_valid s \<Longrightarrow> unquote (json_quote s) = s"
proof (induction s rule: utf8_valid.induct)
  case (2 a s)
  show ?case
  proof (cases "code a < 0x80")
    case True
    then show ?thesis using 2 by (simp add: unquote_quote_ascii utf8_width.simps)
  next
    case False
    then show ?thesis using 2 unquote_seq [of a s]
      by (simp add: Let_def)
  qed
qed simp

section \<open>Integers as number literals\<close>

lemma bitlen_0 [simp]: "bitlen 0 = 0" and bitlen_nonneg: "0 \<le> bitlen n"
  by (simp add: bitlen.simps) (induction n rule: bitlen.induct, subst bitlen.simps, auto)

lemma bitlen_bounds:
  "0 < n \<Longrightarrow> 0 < bitlen n \<and> 2 ^ nat (bitlen n - 1) \<le> n \<and> n < 2 ^ nat (bitlen n)"
proof (induction n rule: bitlen.induct)
  case (1 n)
  then have n: "bitlen n = 1 + bitlen (n div 2)" by (subst bitlen.simps) simp
  show ?case
  proof (cases "n = 1")
    case True
    then show ?thesis by (simp add: bitlen.simps)
  next
    case False
    with 1 have IH: "0 < bitlen (n div 2)" "2 ^ nat (bitlen (n div 2) - 1) \<le> n div 2"
      "n div 2 < 2 ^ nat (bitlen (n div 2))" by auto
    have "nat (bitlen (n div 2)) = Suc (nat (bitlen (n div 2) - 1))" using IH(1) by simp
    moreover have "nat (1 + bitlen (n div 2)) = Suc (nat (bitlen (n div 2)))" using IH(1) by simp
    ultimately show ?thesis using IH n by simp linarith
  qed
qed

lemma bitlen_le: "n < 2 ^ k \<Longrightarrow> bitlen n \<le> int k"
proof (cases "0 < n")
  case True
  assume "n < 2 ^ k"
  with bitlen_bounds [OF True] have "(2::int) ^ nat (bitlen n - 1) < 2 ^ k" by linarith
  then have "nat (bitlen n - 1) < k" using power_less_imp_less_exp [of "2::int"] by simp
  then show ?thesis by simp
qed (simp add: bitlen.simps)

lemma int_div_less:
  assumes "0 < q" and "a < b * q"
  shows "a div q < (b :: int)"
proof (rule ccontr)
  assume "\<not> a div q < b"
  then have "b * q \<le> a div q * q" using assms(1) by simp
  also have "a div q * q \<le> a" using minus_mod_eq_div_mult [of a q] pos_mod_sign [OF assms(1), of a] by linarith
  finally show False using assms(2) by simp
qed

lemma ieee_encode_int:
  assumes "0 \<le> n" and "n < 2 ^ 64"
  shows "0 \<le> ieee_encode 53 11 n 1 \<and> ieee_encode 53 11 n 1 < 2047 * 2 ^ 52"
proof (cases "n = 0")
  case False
  then have n: "0 < n" using assms by simp
  define e where "e = bitlen n - 1"
  have e: "0 \<le> e" "e \<le> 63" "2 ^ nat e \<le> n" "n < 2 * 2 ^ nat e"
    using bitlen_bounds [OF n] bitlen_le [of n 64] assms
    by (auto simp: e_def nat_diff_distrib' simp flip: power_Suc)
  have b1: "bitlen 1 = 1" by (simp add: bitlen.simps)
  have il: "ilog2_ratio n 1 = e" using e(1,3) by (simp add: ilog2_ratio_def b1 e_def Let_def)
  define m where "m = round_half_even (n * 2 ^ nat (- (e - 52))) (2 ^ nat (e - 52))"
  have "0 \<le> m \<and> m \<le> 2 * 2 ^ 52"
  proof (cases "e \<le> 52")
    case True
    then have "m = n * 2 ^ nat (52 - e)" by (simp add: m_def round_half_even_def)
    moreover have "n * 2 ^ nat (52 - e) < 2 * 2 ^ nat e * (2 ^ nat (52 - e) :: int)"
      by (rule mult_strict_right_mono) (use e(4) in simp_all)
    moreover have "2 ^ nat e * 2 ^ nat (52 - e) = (2 ^ 52 :: int)"
      using e(1) True by (simp flip: power_add nat_add_distrib)
    ultimately show ?thesis using n by (simp only: mult.assoc) simp
  next
    case False
    have "m \<le> n div 2 ^ nat (e - 52) + 1" "n div 2 ^ nat (e - 52) \<le> m"
      using False by (auto simp: m_def round_half_even_def Let_def)
    moreover have "nat e = 52 + nat (e - 52)" using False by simp
    then have "2 ^ nat e = 2 ^ 52 * (2 ^ nat (e - 52) :: int)"
      using power_add [of "2::int" 52 "nat (e - 52)"] by metis
    then have "n div 2 ^ nat (e - 52) < 2 * 2 ^ 52"
      using e(4) by (intro int_div_less) simp_all
    ultimately show ?thesis using n by (auto simp: pos_imp_zdiv_nonneg_iff intro: order_trans [rotated])
  qed
  moreover have "ieee_encode 53 11 n 1 = min ((e + 1022) * 2 ^ 52 + m) (2047 * 2 ^ 52)"
    using n e(1) il by (simp add: ieee_encode_def Let_def m_def max_def)
  ultimately show ?thesis using e(1,2) by (auto simp: min_def)
qed (simp add: ieee_encode_def)


lemma f64_of_int_finite:
  assumes "\<bar>i\<bar> < 2 ^ 64"
  shows "\<not> f64_isinf (f64_of_int i)"
proof -
  define E where "E = ieee_encode 53 11 \<bar>i\<bar> 1"
  have E: "0 \<le> E" "E < 2047 * 2 ^ 52" using ieee_encode_int [of "\<bar>i\<bar>"] assms by (auto simp: E_def)
  define s :: int where "s = (if i < 0 then 2048 else 0)"
  have "f64_of_int i = word_of_int (s * 2 ^ 52 + E)"
    by (simp add: f64_of_int_def f64_of_ratio_def E_def s_def)
  moreover have "0 \<le> s * 2 ^ 52 + E" "s * 2 ^ 52 + E < 2 ^ 64" using E by (auto simp: s_def)
  ultimately have "uint (f64_of_int i) = E + s * 2 ^ 52"
    using word_of_int_inverse [OF \<open>f64_of_int i = _\<close> [symmetric]] by simp
  then have "f64_exp (f64_of_int i) = (E div 2 ^ 52 + s) mod 2048"
    by (simp add: f64_exp_def add.commute)
  moreover have "0 \<le> E div 2 ^ 52" "E div 2 ^ 52 < 2047" using E int_div_less [of "2 ^ 52" E 2047]
    by (simp_all add: pos_imp_zdiv_nonneg_iff)
  ultimately show ?thesis by (auto simp: f64_isinf_def s_def)
qed

lemma int_digits_val: "int_digits (int a) s = int (digits_val a s)"
  by (induction s arbitrary: a) (simp_all flip: of_nat_Suc of_nat_mult of_nat_add add: digits_val.simps,
      metis of_nat_add of_nat_mult of_nat_numeral)

lemma int_digits_dec: "int_digits 0 (dec n) = int n"
  using int_digits_val [of 0 "dec n"] by (simp add: digits_val_dec)

lemma dec_hd: "0 < n \<Longrightarrow> hd (dec n) \<noteq> CHR ''0''"
proof (induction n rule: dec.induct)
  case (1 n)
  have "d < 10 \<Longrightarrow> digit_char d = CHR ''0'' \<Longrightarrow> d = 0" for d
    using digit_char_ok [of d] by (auto simp: digit_val_def)
  then show ?case using 1 by (subst dec.simps) (auto simp: hd_append dec_ne)
qed

lemma scan_int_dec: "scan_int (dec n) = Some (dec n, [])"
proof (cases "n = 0")
  case True
  have "dec 0 = ''0''" by (subst dec.simps) (simp add: digit_char_def, code_simp)
  then show ?thesis using True by (simp add: scan_int_def)
next
  case False
  then obtain c cs where d: "dec n = c # cs" using dec_ne [of n] by (cases "dec n") auto
  moreover have "list_all is_digit (dec n)" using dec_digits .
  moreover have "c \<noteq> CHR ''0''" using dec_hd [of n] False d by simp
  ultimately show ?thesis
    by (auto simp: scan_int_def list_all_iff takeWhile_eq_all_conv dropWhile_eq_Nil_conv)
qed

lemma scan_sign_dec: "scan_sign (dec n) = ([], dec n)"
proof -
  obtain c cs where d: "dec n = c # cs" using dec_ne [of n] by (cases "dec n") auto
  moreover have "is_digit c" using dec_digits [of n] d by simp
  moreover have "\<not> is_digit (CHR ''-'')" by (simp add: is_digit_def)
  ultimately show ?thesis by (auto simp: scan_sign_def)
qed

lemma scan_nil [simp]: "scan_frac [] = Some ([], [])" "scan_exp [] = Some ([], [])" "exp_val [] = 0"
  by (simp_all add: scan_frac_def scan_exp_def exp_val_def)

lemma num_lit_dec_int: "num_lit (dec_int i)"
  by (simp add: num_lit_def dec_int_def scan_num_def scan_sign_dec scan_int_dec)
     (simp add: scan_sign_def scan_int_dec)

lemma ParseFloat_dec_int:
  assumes "\<bar>i\<bar> < 2 ^ 64"
  shows "ParseFloat (dec_int i) = Some (f64_of_int i)"
proof -
  have "\<not> f64_isinf (f64_of_ratio (i < 0) \<bar>i\<bar> 1)"
    using f64_of_int_finite [OF assms] by (simp add: f64_of_int_def)
  moreover have "scan_sign (dec_int i) = (if i < 0 then ''-'' else [], dec (nat \<bar>i\<bar>))"
    by (simp add: dec_int_def scan_sign_dec) (simp add: scan_sign_def)
  ultimately show ?thesis
    by (cases "i < 0") (simp_all add: ParseFloat_def scan_int_dec int_digits_dec f64_of_int_def Let_def)
qed

lemma f64_of_int_fields:
  assumes "0 < n" and "n < 2 ^ 53"
  defines "e \<equiv> bitlen n - 1"
  shows "uint (f64_of_int n) = (e + 1022) * 2 ^ 52 + n * 2 ^ nat (52 - e)"
    and "0 \<le> e" "e \<le> 52" "2 ^ 52 \<le> n * 2 ^ nat (52 - e)" "n * 2 ^ nat (52 - e) < 2 * 2 ^ 52"
proof -
  have e: "0 \<le> e" "e \<le> 52" "2 ^ nat e \<le> n" "n < 2 * 2 ^ nat e"
    using bitlen_bounds [OF assms(1)] bitlen_le [of n 53] assms(2)
    by (auto simp: e_def nat_diff_distrib' simp flip: power_Suc)
  then show "0 \<le> e" "e \<le> 52" by simp_all
  have p: "2 ^ nat e * 2 ^ nat (52 - e) = (2 ^ 52 :: int)"
    using e(1,2) by (simp flip: power_add nat_add_distrib)
  show lo: "2 ^ 52 \<le> n * 2 ^ nat (52 - e)"
    unfolding p [symmetric] using e(3) by simp
  have "n * 2 ^ nat (52 - e) < 2 * 2 ^ nat e * (2 ^ nat (52 - e) :: int)"
    by (rule mult_strict_right_mono) (use e(4) in simp_all)
  then show hi: "n * 2 ^ nat (52 - e) < 2 * 2 ^ 52" using p by (simp only: mult.assoc)
  have b1: "bitlen 1 = 1" by (simp add: bitlen.simps)
  have il: "ilog2_ratio n 1 = e" using e(1,3) by (simp add: ilog2_ratio_def b1 e_def Let_def)
  have "round_half_even (n * 2 ^ nat (52 - e)) 1 = n * 2 ^ nat (52 - e)"
    by (simp add: round_half_even_def)
  then have "ieee_encode 53 11 n 1 = min ((e + 1022) * 2 ^ 52 + n * 2 ^ nat (52 - e)) (2047 * 2 ^ 52)"
    using assms(1) e(1,2) il by (simp add: ieee_encode_def Let_def max_def)
  then have "ieee_encode 53 11 n 1 = (e + 1022) * 2 ^ 52 + n * 2 ^ nat (52 - e)"
    using hi e(2) by (simp add: min_def)
  moreover have "(e + 1022) * 2 ^ 52 + n * 2 ^ nat (52 - e) < 2 ^ 64"
    "0 \<le> (e + 1022) * 2 ^ 52 + n * 2 ^ nat (52 - e)"
    using hi e(1,2) assms(1) by simp_all
  moreover have "f64_of_int n = word_of_int (ieee_encode 53 11 n 1)"
    using assms(1) by (simp add: f64_of_int_def f64_of_ratio_def)
  ultimately show "uint (f64_of_int n) = (e + 1022) * 2 ^ 52 + n * 2 ^ nat (52 - e)"
    using word_of_int_inverse [of "ieee_encode 53 11 n 1" "f64_of_int n"] by simp
qed

lemma f64_trunc_of_int:
  assumes "0 \<le> n" and "n < 2 ^ 53"
  shows "f64_trunc (f64_of_int n) = n" and "\<not> f64_isnan (f64_of_int n)" and "\<not> f64_isinf (f64_of_int n)"
proof -
  have "f64_trunc (f64_of_int n) = n \<and> f64_exp (f64_of_int n) \<noteq> 2047"
  proof (cases "n = 0")
    case True
    then show ?thesis
      by (simp add: f64_of_int_def f64_of_ratio_def ieee_encode_def f64_trunc_def f64_mant_def
          f64_exp_def f64_frac_def)
  next
    case False
    then have n: "0 < n" using assms by simp
    define e where "e = bitlen n - 1"
    note u = f64_of_int_fields [OF n assms(2), folded e_def]
    define m where "m = n * 2 ^ nat (52 - e) - 2 ^ 52"
    have m: "0 \<le> m" "m < 2 ^ 52" using u(4,5) by (simp_all add: m_def)
    have u1: "uint (f64_of_int n) = m + (e + 1023) * 2 ^ 52" using u(1) by (simp add: m_def algebra_simps)
    have ex: "f64_exp (f64_of_int n) = e + 1023"
      using m u(2,3) by (simp add: f64_exp_def u1 div_pos_pos_trivial)
    moreover have "f64_frac (f64_of_int n) = m"
      unfolding f64_frac_def u1 using m by (simp only: mod_mult_self1 mod_pos_pos_trivial)
    ultimately have "f64_mant (f64_of_int n) = n * 2 ^ nat (52 - e)"
      using u(2) by (simp add: f64_mant_def m_def)
    moreover have "f64_pow (f64_of_int n) = e - 52" using ex u(2) by (simp add: f64_pow_def)
    moreover have "\<not> f64_neg (f64_of_int n)" using u1 m u(3) by (simp add: f64_neg_def)
    ultimately show ?thesis using ex u(2,3) by (simp add: f64_trunc_def)
  qed
  then show "f64_trunc (f64_of_int n) = n" "\<not> f64_isnan (f64_of_int n)" "\<not> f64_isinf (f64_of_int n)"
    by (simp_all add: f64_isnan_def f64_isinf_def)
qed

lemma f64_to_u64_of_int: "0 \<le> n \<Longrightarrow> n < 2 ^ 53 \<Longrightarrow> f64_to_u64 (f64_of_int n) = word_of_int n"
  by (simp add: f64_to_u64_def f64_trunc_of_int)

section \<open>Values that survive a round trip\<close>

text \<open>The value that comes back: every number is a \<open>float64\<close>, typed slices are plain lists
  and maps list their keys in order.\<close>

definition lit64 :: "string \<Rightarrow> goany" where
  "lit64 s = GF64 (the (ParseFloat s))"

fun jnorm :: "float_fmt \<Rightarrow> goany \<Rightarrow> goany" where
  "jnorm F GNil = GNil"
| "jnorm F (GBool b) = GBool b"
| "jnorm F (GNum k i) = GF64 (f64_of_int i)"
| "jnorm F (GF64 x) = GF64 x"
| "jnorm F (GF32 x) = lit64 (fmt32 F x)"
| "jnorm F (GJnum s) = lit64 (if s = [] then ''0'' else s)"
| "jnorm F (GStr s) = GStr s"
| "jnorm F (GList xs) = GList (map (jnorm F) xs)"
| "jnorm F (GMap d) = GMap (sort_key fst (map (\<lambda>(k, x). (k, jnorm F x)) d))"
| "jnorm F (GStrs ss) = GList (map GStr ss)"
| "jnorm F (GF32s xs) = GList (map (\<lambda>x. lit64 (fmt32 F x)) xs)"
| "jnorm F (GF64s xs) = GList (map GF64 xs)"
| "jnorm F (GMaps ds) =
     GList (map (\<lambda>d. GMap (sort_key fst (map (\<lambda>(k, x). (k, jnorm F x)) d))) ds)"
| "jnorm F GTypedNil = GNil"

text \<open>Integers fit 64 bits, floats are finite and their texts parse, strings are well-formed
  UTF-8, maps have one entry per key, and the nesting is at most \<open>n\<close>.\<close>

definition lit_ok :: "string \<Rightarrow> bool" where
  "lit_ok s \<longleftrightarrow> num_lit s \<and> ParseFloat s \<noteq> None"

definition wf64 :: "float_fmt \<Rightarrow> f64 \<Rightarrow> bool" where
  "wf64 F x \<longleftrightarrow> \<not> f64_isnan x \<and> \<not> f64_isinf x \<and> num_lit (fmt64 F x) \<and> ParseFloat (fmt64 F x) = Some x"

definition wf32 :: "float_fmt \<Rightarrow> f32 \<Rightarrow> bool" where
  "wf32 F x \<longleftrightarrow> f32_finite x \<and> lit_ok (fmt32 F x)"

fun json_wf :: "float_fmt \<Rightarrow> int \<Rightarrow> goany \<Rightarrow> bool" where
  "json_wf F n GNil = True"
| "json_wf F n (GBool b) = True"
| "json_wf F n (GNum k i) \<longleftrightarrow> \<bar>i\<bar> < 2 ^ 64"
| "json_wf F n (GF64 x) = wf64 F x"
| "json_wf F n (GF32 x) = wf32 F x"
| "json_wf F n (GJnum s) \<longleftrightarrow> s = [] \<or> lit_ok s"
| "json_wf F n (GStr s) = utf8_valid s"
| "json_wf F n (GList xs) \<longleftrightarrow> 0 < n \<and> list_all (json_wf F (n - 1)) xs"
| "json_wf F n (GMap d) \<longleftrightarrow> 0 < n \<and> distinct (map fst d)
     \<and> list_all (\<lambda>(k, x). utf8_valid k \<and> json_wf F (n - 1) x) d"
| "json_wf F n (GStrs ss) \<longleftrightarrow> 0 < n \<and> list_all utf8_valid ss"
| "json_wf F n (GF32s xs) \<longleftrightarrow> 0 < n \<and> list_all (wf32 F) xs"
| "json_wf F n (GF64s xs) \<longleftrightarrow> 0 < n \<and> list_all (wf64 F) xs"
| "json_wf F n (GMaps ds) \<longleftrightarrow> 1 < n \<and> list_all (\<lambda>d. distinct (map fst d)
     \<and> list_all (\<lambda>(k, x). utf8_valid k \<and> json_wf F (n - 2) x) d) ds"
| "json_wf F n GTypedNil = True"

lemma insort_key_map_snd:
  "insort_key fst (k, f x) (map (\<lambda>(k, x). (k, f x)) xs) =
     map (\<lambda>(k, x). (k, f x)) (insort_key fst (k, x) xs)"
  by (induction xs) auto

lemma sort_key_map_snd:
  "sort_key fst (map (\<lambda>(k, x). (k, f x)) d) = map (\<lambda>(k, x). (k, f x)) (sort_key fst d)"
  by (induction d) (auto simp: insort_key_map_snd)

lemma map_of_sort_key: "distinct (map fst d) \<Longrightarrow> map_of (sort_key fst d) = map_of d"
  by (subst map_of_inject_set) (simp_all add: distinct_map)

lemma utf8_ascii: "list_all (\<lambda>c. code c < 0x80) s \<Longrightarrow> utf8_valid s"
  by (induction s) (simp_all add: utf8_width.simps)

lemma update_fresh: "k \<notin> fst ` set d \<Longrightarrow> AList.update k v d = d @ [(k, v)]"
  by (induction d) auto

text \<open>A tree that is well formed at depth \<open>n\<close> and denotes \<open>v\<close>.\<close>

definition denotes :: "int \<Rightarrow> json \<Rightarrow> goany \<Rightarrow> bool" where
  "denotes n j v \<longleftrightarrow> json_ok n j \<and> jany j = Inr v"

lemma jany_list_denotes:
  "list_all2 (denotes n) js vs \<Longrightarrow> list_all (json_ok n) js \<and> jany_list js = Inr vs"
  by (induction rule: list_all2_induct) (auto simp: denotes_def)

lemma denotes_arr: "list_all2 (denotes (n - 1)) js vs \<Longrightarrow> 0 < n \<Longrightarrow> denotes n (JArr js) (GList vs)"
  using jany_list_denotes [of "n - 1" js vs] by (simp add: denotes_def)

lemma jany_obj_denotes:
  assumes "list_all2 (\<lambda>(k, j) (k', v). k = k' \<and> utf8_valid k \<and> denotes n j v) kvs d"
    and "distinct (map fst (acc @ d))"
  shows "jany_obj acc (map (\<lambda>(k, j). (json_quote k, j)) kvs) = Inr (acc @ d)"
  using assms
  by (induction arbitrary: acc rule: list_all2_induct)
     (auto simp: denotes_def unquote_json_quote update_fresh)


lemma list_all2_insort:
  assumes "list_all2 (\<lambda>(k, j) (k', v). k = k' \<and> P k j v) kvs d" and "P k j v"
  shows "list_all2 (\<lambda>(k, j) (k', v). k = k' \<and> P k j v)
           (insort_key fst (k, j) kvs) (insort_key fst (k, v) d)"
  using assms by (induction rule: list_all2_induct) auto

lemma list_all2_sort:
  "list_all2 (\<lambda>(k, j) (k', v). k = k' \<and> P k j v) kvs d \<Longrightarrow>
     list_all2 (\<lambda>(k, j) (k', v). k = k' \<and> P k j v) (sort_key fst kvs) (sort_key fst d)"
  by (induction rule: list_all2_induct) (auto intro: list_all2_insort)

lemma denotes_obj:
  assumes "list_all2 (\<lambda>(k, j) (k', v). k = k' \<and> utf8_valid k \<and> denotes (n - 1) j v) kvs d"
    and "distinct (map fst d)" and "0 < n"
  shows "denotes n (jobj kvs) (GMap (sort_key fst d))"
proof -
  let ?R = "\<lambda>(k, j) (k', v). k = k' \<and> utf8_valid k \<and> denotes (n - 1) j v"
  have R: "list_all2 ?R (sort_key fst kvs) (sort_key fst d)"
    using assms(1) by (rule list_all2_sort)
  have "distinct (map fst ([] @ sort_key fst d))"
    using assms(2) by (simp add: distinct_map)
  from jany_obj_denotes [OF R this] have "jany (jobj kvs) = Inr (GMap (sort_key fst d))"
    by (simp add: jobj_def)
  moreover have "list_all (\<lambda>(k, j). json_ok (n - 1) j) (sort_key fst kvs)"
    using R by (induction rule: list_all2_induct) (auto simp: denotes_def)
  ultimately show ?thesis
    using assms(3) by (auto simp: denotes_def jobj_def list_all_iff str_lit_quote)
qed

lemma denotes_dec_int: "\<bar>i\<bar> < 2 ^ 64 \<Longrightarrow> denotes n (JNum (dec_int i)) (GF64 (f64_of_int i))"
  by (simp add: denotes_def num_lit_dec_int ParseFloat_dec_int)

lemma denotes_lit: "lit_ok s \<Longrightarrow> denotes n (JNum s) (lit64 s)"
  by (auto simp: denotes_def lit_ok_def lit64_def)

lemma lit_ok_0: "lit_ok ''0''"
proof -
  have "dec_int 0 = ''0''" by (simp add: dec_int_def dec.simps digit_char_def) code_simp
  then show ?thesis using num_lit_dec_int [of 0] ParseFloat_dec_int [of 0] by (simp add: lit_ok_def)
qed

lemma denotes_f64: "wf64 F x \<Longrightarrow> \<exists>j. jf64 F x = Inr j \<and> denotes n j (GF64 x)"
  by (auto simp: denotes_def wf64_def jf64_def)

lemma denotes_f32: "wf32 F x \<Longrightarrow> \<exists>j. jf32 F x = Inr j \<and> denotes n j (lit64 (fmt32 F x))"
  by (auto simp: wf32_def jf32_def denotes_lit)

lemma all_res_denotes:
  assumes "\<And>x. x \<in> set xs \<Longrightarrow> \<exists>j. f x = Inr j \<and> denotes n j (g x)"
  shows "\<exists>js. all_res (map f xs) = Inr js \<and> list_all2 (denotes n) js (map g xs)"
  using assms by (induction xs) fastforce+

abbreviation obj_wf :: "float_fmt \<Rightarrow> int \<Rightarrow> dict \<Rightarrow> bool" where
  "obj_wf F n d \<equiv> list_all (\<lambda>(k, x). utf8_valid k \<and> json_wf F n x) d"

lemma denotes_map:
  "list_all2 (\<lambda>(k, j) (k', v). k = k' \<and> utf8_valid k \<and> denotes (n - 1) j v) kvs
     (map (\<lambda>(k, x). (k, jnorm F x)) d) \<Longrightarrow> distinct (map fst d) \<Longrightarrow> 0 < n \<Longrightarrow>
   denotes n (jobj kvs) (GMap (sort_key fst (map (\<lambda>(k, x). (k, jnorm F x)) d)))"
  by (rule denotes_obj) (simp_all add: comp_def case_prod_unfold)

lemma marshal_denotes:
  "json_wf F n v \<Longrightarrow> \<exists>j. marshal F v = Inr j \<and> denotes n j (jnorm F v)"
  "list_all (json_wf F n) vs \<Longrightarrow>
     \<exists>js. marshal_list F vs = Inr js \<and> list_all2 (denotes n) js (map (jnorm F) vs)"
  "obj_wf F n d \<Longrightarrow> \<exists>kvs. marshal_obj F d = Inr kvs \<and>
     list_all2 (\<lambda>(k, j) (k', v). k = k' \<and> utf8_valid k \<and> denotes n j v) kvs
       (map (\<lambda>(k, x). (k, jnorm F x)) d)"
  "list_all (\<lambda>d. distinct (map fst d) \<and> obj_wf F (n - 1) d) ds \<Longrightarrow> 0 < n \<Longrightarrow>
     \<exists>js. marshal_objs F ds = Inr js \<and> list_all2 (denotes n) js
       (map (\<lambda>d. GMap (sort_key fst (map (\<lambda>(k, x). (k, jnorm F x)) d))) ds)"
proof (induction F v and F vs and F d and F ds arbitrary: n and n and n and n
    rule: marshal_marshal_list_marshal_obj_marshal_objs.induct)
  case (3 F k i)
  then show ?case using denotes_dec_int by auto
next
  case (4 F x)
  then show ?case using denotes_f64 by simp
next
  case (5 F x)
  then show ?case using denotes_f32 by simp
next
  case (6 F s)
  then show ?case using lit_ok_0 denotes_lit by (auto simp: lit_ok_def)
next
  case (7 F s)
  then show ?case by (simp add: denotes_def str_lit_quote unquote_json_quote)
next
  case (8 F xs)
  show ?case using 8(1) [of "n - 1"] 8(2) by (auto intro: denotes_arr)
next
  case (9 F d)
  show ?case using 9(1) [of "n - 1"] 9(2) by (auto intro: denotes_map)
next
  case (10 F ss)
  have "list_all2 (denotes (n - 1)) (map (\<lambda>s. JStr (json_quote s)) ss) (map GStr ss)"
    using 10 by (induction ss) (auto simp: denotes_def str_lit_quote unquote_json_quote)
  then show ?case using 10 by (auto intro: denotes_arr)
next
  case (11 F xs)
  then show ?case using all_res_denotes [of xs "jf32 F" "n - 1" "\<lambda>x. lit64 (fmt32 F x)"] denotes_f32
    by (auto simp: list_all_iff intro: denotes_arr)
next
  case (12 F xs)
  then show ?case using all_res_denotes [of xs "jf64 F" "n - 1" GF64] denotes_f64
    by (auto simp: list_all_iff intro: denotes_arr)
next
  case (13 F ds)
  show ?case using 13(1) [of "n - 1"] 13(2) by (auto intro!: denotes_arr)
next
  case (16 F x xs)
  then show ?case by fastforce
next
  case (18 F k x d)
  then show ?case by fastforce
next
  case (20 F d ds)
  obtain kvs where "marshal_obj F d = Inr kvs"
    "denotes n (jobj kvs) (GMap (sort_key fst (map (\<lambda>(k, x). (k, jnorm F x)) d)))"
    using 20(1) [of "n - 1"] 20(3,4) denotes_map [of n _ F d] by auto
  then show ?case using 20(2) 20(3,4) by fastforce
qed (auto simp: denotes_def)


lemma unmarshal_marshal:
  assumes "json_wf F 10000 (GMap d)"
  obtains s where "marshal_text F (GMap d) = Inr s"
    and "unmarshal_dict s = Inr (sort_key fst (map (\<lambda>(k, x). (k, jnorm F x)) d))"
proof -
  obtain j where j: "marshal F (GMap d) = Inr j" "denotes 10000 j (jnorm F (GMap d))"
    using marshal_denotes(1) [OF assms] by blast
  moreover obtain kvs where "j = JObj kvs"
    using j(1) by (auto simp: bindr_Inr_iff jobj_def)
  ultimately show ?thesis
    using parse_json_text [of j]
    by (intro that [of "json_text j"])
       (auto simp: marshal_text_def denotes_def unmarshal_dict_def bindr_Inr_iff)
qed

end
