(* ===== verification/Core_Codec.thy ===== *)
theory Core_Codec
  imports Core_Frames Go_Json
begin

text \<open>
  \<open>core/codec.go\<close> and \<open>core/binary_vector.go\<close>: encoding a frame with one of the three
  tiers and decoding it again.  The JSON tier runs the model of \<open>encoding/json\<close>.  The
  MessagePack library is not part of the repository: its two functions are parameters, and
  what is asked of them is stated where it is used.
\<close>

section \<open>Serialisers\<close>

record serializers =
  sFmt :: float_fmt
  mp_marshal :: "dict \<Rightarrow> byte list res"
  mp_unmarshal :: "byte list \<Rightarrow> dict res"

fun err_text :: "nps_error \<Rightarrow> string" where
  "err_text (ErrFrame m) = ''NPS frame error: '' @ m"
| "err_text (ErrCodec m) = ''NPS codec error: '' @ m"
| "err_text (ErrAnchorNotFound i) = ''NPS anchor not found: '' @ i"
| "err_text (ErrAnchorPoison i) = ''NPS anchor poison: '' @ i"
| "err_text (ErrIdentity m) = ''NPS identity error: '' @ m"
| "err_text (ErrPlain m) = m"
| "err_text (ErrCode c m) = m"
| "err_text ErrEOF = ''EOF''"
| "err_text ErrUnexpectedEOF = ''unexpected EOF''"

definition codec_err :: "'a res \<Rightarrow> 'a res" where
  "codec_err r = (case r of Inl e \<Rightarrow> Inl (ErrCodec (err_text e)) | Inr x \<Rightarrow> Inr x)"

section \<open>Vector payloads\<close>

definition binaryVectorVersion :: byte where "binaryVectorVersion = 1"
definition binaryVectorPrefix :: nat where "binaryVectorPrefix = 16"
definition binaryVectorMarker :: string where "binaryVectorMarker = ''$nps_binary_vector''"
definition binaryVectorMagic :: "byte list" where "binaryVectorMagic = bytes_of ''NPBV''"

fun cloneValue :: "goany \<Rightarrow> goany" where
  "cloneValue (GMap d) = GMap (map (\<lambda>(k, v). (k, cloneValue v)) d)"
| "cloneValue (GList xs) = GList (map cloneValue xs)"
| "cloneValue v = v"

fun asFrameDict :: "goany \<Rightarrow> dict option" where
  "asFrameDict (GMap d) = Some d"
| "asFrameDict _ = None"

fun floatValue :: "goany \<Rightarrow> f64 option" where
  "floatValue (GF32 x) = Some (f64_of_f32 x)"
| "floatValue (GF64 x) = Some x"
| "floatValue (GNum k i) = Some (f64_of_int i)"
| "floatValue _ = None"

text \<open>Every integer kind converts to \<open>int\<close>; only the unsigned 64-bit ones can wrap.\<close>

fun intValue :: "goany \<Rightarrow> int option" where
  "intValue (GNum k i) = Some (wrap64 i)"
| "intValue _ = None"

fun float_elems :: "goany list \<Rightarrow> f32 list option" where
  "float_elems [] = Some []"
| "float_elems (x # xs) =
     (case floatValue x of
        None \<Rightarrow> None
      | Some n \<Rightarrow> if f64_isnan n \<or> f64_isinf n then None
                  else map_option ((#) (f32_of_f64 n)) (float_elems xs))"

fun readFloatVector :: "goany \<Rightarrow> f32 list option" where
  "readFloatVector (GF32s v) = Some v"
| "readFloatVector (GF64s v) = Some (map f32_of_f64 v)"
| "readFloatVector (GList xs) = float_elems xs"
| "readFloatVector _ = None"

definition vector_marker :: "int \<Rightarrow> int \<Rightarrow> goany" where
  "vector_marker index dim =
     GMap [(binaryVectorMarker, GNum KInt index), (''dtype'', GStr ''float32''), (''dim'', GNum KInt dim)]"

text \<open>The metadata and the extracted vectors.\<close>

definition extractVectorSearchVector :: "dict \<Rightarrow> f32 list list \<Rightarrow> dict \<times> f32 list list" where
  "extractVectorSearchVector metadata vectors =
     (case asFrameDict (dget metadata ''vector_search'') of
        None \<Rightarrow> (metadata, vectors)
      | Some vectorSearch \<Rightarrow>
          (case readFloatVector (dget vectorSearch ''vector'') of
             None \<Rightarrow> (metadata, vectors)
           | Some vector \<Rightarrow>
               (dput ''vector_search''
                  (GMap (dput ''vector'' (vector_marker (int (length vectors)) (int (length vector)))
                           vectorSearch)) metadata,
                vectors @ [vector])))"

definition restoreVectorSearchVector :: "dict \<Rightarrow> f32 list list \<Rightarrow> dict res" where
  "restoreVectorSearchVector metadata vectors =
     (case asFrameDict (dget metadata ''vector_search'') of
        None \<Rightarrow> Inr metadata
      | Some vectorSearch \<Rightarrow>
          if \<not> dhas vectorSearch ''vector'' then Inr metadata
          else case asFrameDict (dget vectorSearch ''vector'') of
            None \<Rightarrow> Inl (ErrCodec ''binary vector marker must be an object'')
          | Some marker \<Rightarrow>
              (case intValue (dget marker binaryVectorMarker) of
                 None \<Rightarrow> Inl (ErrCodec ''binary vector marker missing vector index'')
               | Some index \<Rightarrow>
                   if index < 0 \<or> int (length vectors) \<le> index
                   then Inl (ErrCodec (''binary vector marker references vector '' @ dec_int index
                          @ '', but only '' @ dec (length vectors) @ '' vectors are present''))
                   else if dget marker ''dtype'' \<noteq> GStr ''float32''
                   then Inl (ErrCodec ''binary vector v1 only supports dtype=float32'')
                   else if intValue (dget marker ''dim'')
                             \<noteq> Some (int (length (vectors ! nat index)))
                   then Inl (ErrCodec
                          ''binary vector marker dimension does not match vector segment'')
                   else Inr (dput ''vector_search''
                          (GMap (dput ''vector'' (GF32s (vectors ! nat index)) vectorSearch))
                          metadata)))"

definition vector_segment :: "f32 list \<Rightarrow> byte list" where
  "vector_segment v = be32 (of_nat (length v)) @ concat (map le32 v)"

definition encodeBinaryVector :: "serializers \<Rightarrow> dict \<Rightarrow> byte list res" where
  "encodeBinaryVector S d =
     (case cloneValue (GMap d) of
        GMap cloned \<Rightarrow>
          (case extractVectorSearchVector cloned [] of (metadata, vectors) \<Rightarrow>
             if int (length vectors) > 65535
             then Inl (ErrCodec ''binary vector supports at most 65535 vectors per frame'')
             else bindr (codec_err (mp_marshal S metadata)) (\<lambda>metadataBytes.
               Inr (binaryVectorMagic @ [binaryVectorVersion, 0] @ be16 (of_nat (length vectors))
                    @ be32 (of_nat (length metadataBytes)) @ be32 0
                    @ metadataBytes @ concat (map vector_segment vectors))))
      | _ \<Rightarrow> Inl (ErrCodec ''binary vector metadata root must be an object''))"

text \<open>The inner loop of a segment, then the loop over the segments; both consume the front of
  what is left of the payload.\<close>

fun read_floats :: "nat \<Rightarrow> byte list \<Rightarrow> f32 list res" where
  "read_floats 0 bs = Inr []"
| "read_floats (Suc n) bs =
     (let value = rdl32 (take 4 bs)
      in if \<not> f32_finite value
         then Inl (ErrCodec ''binary vector values must be finite float32'')
         else bindr (read_floats n (drop 4 bs)) (\<lambda>vs. Inr (value # vs)))"

fun read_segments :: "nat \<Rightarrow> byte list \<Rightarrow> (f32 list list \<times> byte list) res" where
  "read_segments 0 bs = Inr ([], bs)"
| "read_segments (Suc n) bs =
     (if length bs < 4 then Inl (ErrCodec ''binary vector segment missing dimension'')
      else let dim32 = rd32 (take 4 bs)
           in if uint dim32 > (2 ^ 63 - 1) div 4
              then Inl (ErrCodec ''binary vector dimension exceeds addressable payload size'')
              else let rest = drop 4 bs
                   in if int (length rest) < uint dim32 * 4
                      then Inl (ErrCodec ''binary vector segment is truncated'')
                      else bindr (read_floats (unat dim32) rest) (\<lambda>vector.
                           bindr (read_segments n (drop (unat dim32 * 4) rest)) (\<lambda>(vectors, rest).
                           Inr (vector # vectors, rest))))"

definition decodeBinaryVector :: "serializers \<Rightarrow> byte list \<Rightarrow> dict res" where
  "decodeBinaryVector S payload =
     (if length payload < binaryVectorPrefix
      then Inl (ErrCodec (''binary vector payload too short: '' @ dec (length payload) @ '' bytes''))
      else if take 4 payload \<noteq> binaryVectorMagic
      then Inl (ErrCodec ''binary vector payload magic mismatch'')
      else if payload ! 4 \<noteq> binaryVectorVersion
      then Inl (ErrCodec (''unsupported binary vector version: '' @ dec (unat (payload ! 4))))
      else if payload ! 5 \<noteq> 0 \<or> rd32 (take 4 (drop 12 payload)) \<noteq> 0
      then Inl (ErrCodec ''binary vector reserved fields must be zero'')
      else let vectorCount = unat (rd16 (take 2 (drop 6 payload)));
               metadataLen = uint (rd32 (take 4 (drop 8 payload)));
               body = drop binaryVectorPrefix payload
           in if metadataLen > int (length body)
              then Inl (ErrCodec ''binary vector metadata length exceeds payload length'')
              else bindr (codec_err (mp_unmarshal S (take (nat metadataLen) body))) (\<lambda>metadata.
                   bindr (read_segments vectorCount (drop (nat metadataLen) body)) (\<lambda>(vectors, rest).
                   if rest \<noteq> [] then Inl (ErrCodec ''binary vector payload has trailing bytes'')
                   else restoreVectorSearchVector metadata vectors)))"

section \<open>The frame codec\<close>

record NpsFrameCodec =
  Registry :: FrameRegistry
  MaxPayload :: int

definition DefaultMaxPayload :: int where
  "DefaultMaxPayload = 10 * 1024 * 1024"

definition NewNpsFrameCodec :: "FrameRegistry \<Rightarrow> NpsFrameCodec" where
  "NewNpsFrameCodec reg = \<lparr>Registry = reg, MaxPayload = DefaultMaxPayload\<rparr>"

definition encodePayload :: "serializers \<Rightarrow> dict \<Rightarrow> EncodingTier \<Rightarrow> byte list res" where
  "encodePayload S d tier =
     (if tier = EncodingTierJSON
      then bindr (marshal_text (sFmt S) (GMap d)) (\<lambda>s. Inr (bytes_of s))
      else if tier = EncodingTierMsgPack then mp_marshal S d
      else if tier = EncodingTierBinaryVector then encodeBinaryVector S d
      else Inl (ErrCodec (''unknown encoding tier '' @ dec (unat tier))))"

definition decodePayload :: "serializers \<Rightarrow> byte list \<Rightarrow> EncodingTier \<Rightarrow> dict res" where
  "decodePayload S payload tier =
     (if tier = EncodingTierJSON then codec_err (unmarshal_dict (string_of payload))
      else if tier = EncodingTierMsgPack then codec_err (mp_unmarshal S payload)
      else if tier = EncodingTierBinaryVector then decodeBinaryVector S payload
      else Inl (ErrCodec (''unknown encoding tier '' @ dec (unat tier))))"

definition Encode :: "serializers \<Rightarrow> NpsFrameCodec \<Rightarrow> FrameType \<Rightarrow> dict \<Rightarrow> EncodingTier \<Rightarrow> bool
    \<Rightarrow> byte list res" where
  "Encode S c ft d tier isFinal =
     bindr (encodePayload S d tier) (\<lambda>payload.
       if int (length payload) > MaxPayload c
       then Inl (ErrCodec (''payload '' @ dec (length payload) @ '' exceeds max ''
                  @ dec_int (MaxPayload c)))
       else Inr (ToBytes (NewFrameHeader ft tier isFinal (of_nat (length payload))) @ payload))"

definition Decode :: "serializers \<Rightarrow> NpsFrameCodec \<Rightarrow> byte list \<Rightarrow> (FrameType \<times> dict) res" where
  "Decode S c wire =
     bindr (ParseFrameHeader wire) (\<lambda>hdr.
       if \<not> IsRegistered (Registry c) (hFrameType hdr)
       then Inl (ErrFrame (''unregistered frame type 0x'' @ hex2 (hFrameType hdr)))
       else let hdrLen = HeaderSize hdr; pLen = uint (hPayloadLength hdr)
            in if int (length wire) < int hdrLen + pLen
               then Inl (ErrCodec ''wire too short for declared payload'')
               else bindr (decodePayload S (take (nat pLen) (drop hdrLen wire)) (header_tier hdr))
                      (\<lambda>d. Inr (hFrameType hdr, d)))"

definition PeekHeader :: "byte list \<Rightarrow> FrameHeader res" where
  "PeekHeader wire = ParseFrameHeader wire"

section \<open>Segments\<close>

lemma cloneValue_id [simp]: "cloneValue v = v"
  by (induction v rule: cloneValue.induct) (auto intro!: map_idI)

lemma read_floats_concat:
  "list_all f32_finite v \<Longrightarrow> read_floats (length v) (concat (map le32 v) @ rest) = Inr v"
  by (induction v) auto

lemma read_floats_bad:
  "\<not> list_all f32_finite v \<Longrightarrow>
     read_floats (length v) (concat (map le32 v) @ rest)
       = Inl (ErrCodec ''binary vector values must be finite float32'')"
  by (induction v) auto

lemma length_le32s [simp]: "length (concat (map le32 v)) = 4 * length v"
  by (induction v) auto

lemma unat_length: "int (length xs) < 2 ^ 32 \<Longrightarrow> unat (of_nat (length xs) :: u32) = length xs"
  by (simp add: unat_of_nat)

lemma uint_length: "int (length xs) < 2 ^ 32 \<Longrightarrow> uint (of_nat (length xs) :: u32) = int (length xs)"
  by (simp add: uint_nat unat_length)

lemma read_segments_step:
  assumes "int (length v) < 2 ^ 32"
  shows "read_segments (Suc n) (vector_segment v @ rest) =
     bindr (read_floats (length v) (concat (map le32 v) @ rest)) (\<lambda>vector.
     bindr (read_segments n rest) (\<lambda>(vectors, rest). Inr (vector # vectors, rest)))"
  using assms by (simp add: vector_segment_def uint_length unat_length Let_def)

lemma read_segments_concat:
  "list_all (\<lambda>v. list_all f32_finite v \<and> int (length v) < 2 ^ 32) vs \<Longrightarrow>
     read_segments (length vs) (concat (map vector_segment vs) @ rest) = Inr (vs, rest)"
proof (induction vs)
  case (Cons v vs)
  then show ?case
    by (simp add: read_segments_step read_floats_concat del: read_segments.simps)
qed simp

section \<open>Metadata up to the wire's number and slice types\<close>

text \<open>MessagePack keeps the value of an integer but not its Go type, and a typed slice comes
  back as \<open>[]any\<close>.\<close>

fun mnorm :: "goany \<Rightarrow> goany" where
  "mnorm (GNum k i) = GNum KInt64 i"
| "mnorm (GJnum s) = GStr s"
| "mnorm (GList xs) = GList (map mnorm xs)"
| "mnorm (GMap d) = GMap (map (\<lambda>(k, v). (k, mnorm v)) d)"
| "mnorm (GStrs ss) = GList (map GStr ss)"
| "mnorm (GF32s xs) = GList (map GF32 xs)"
| "mnorm (GF64s xs) = GList (map GF64 xs)"
| "mnorm (GMaps ds) = GList (map (\<lambda>d. GMap (map (\<lambda>(k, v). (k, mnorm v)) d)) ds)"
| "mnorm GTypedNil = GNil"
| "mnorm v = v"

definition mnorm_dict :: "dict \<Rightarrow> dict" where
  "mnorm_dict d = map (\<lambda>(k, v). (k, mnorm v)) d"

text \<open>What the decoder makes: no \<open>json.Number\<close> and no typed slices.\<close>

fun mwire :: "goany \<Rightarrow> bool" where
  "mwire (GJnum s) = False"
| "mwire (GStrs ss) = False"
| "mwire (GF32s xs) = False"
| "mwire (GF64s xs) = False"
| "mwire (GMaps ds) = False"
| "mwire GTypedNil = False"
| "mwire (GList xs) = list_all mwire xs"
| "mwire (GMap d) = list_all (\<lambda>(k, v). mwire v) d"
| "mwire v = True"

definition msgpack_law :: "serializers \<Rightarrow> bool" where
  "msgpack_law S \<longleftrightarrow> (\<forall>d bytes. mp_marshal S d = Inr bytes \<longrightarrow>
     (\<exists>d'. mp_unmarshal S bytes = Inr d' \<and> mwire (GMap d') \<and> mnorm_dict d' = mnorm_dict d))"

lemma map_of_mnorm_dict: "map_of (mnorm_dict d) k = map_option mnorm (map_of d k)"
  by (induction d) (auto simp: mnorm_dict_def)

lemma dget_mnorm_dict: "dget (mnorm_dict d) k = mnorm (dget d k)"
  by (simp add: dget_def map_of_mnorm_dict split: option.split)

lemma dhas_mnorm_dict: "dhas (mnorm_dict d) k = dhas d k"
  by (simp add: dhas_def map_of_mnorm_dict)

lemma mnorm_dict_dput: "mnorm_dict (dput k v d) = dput k (mnorm v) (mnorm_dict d)"
  by (induction d) (auto simp: mnorm_dict_def)

lemma mnorm_GMap: "mnorm (GMap d) = GMap (mnorm_dict d)"
  by (simp add: mnorm_dict_def)

lemma dput_dput [simp]: "dput k v (dput k w d) = dput k v d"
  by (induction d) auto

lemma mnorm_eq_GMap:
  assumes "mnorm v = GMap e" obtains d where "v = GMap d" "mnorm_dict d = e"
  using assms by (cases v) (auto simp: mnorm_dict_def)

lemma mnorm_dict_eqD:
  assumes "mnorm_dict d = mnorm_dict e"
  shows "mnorm (dget d k) = mnorm (dget e k)" and "dhas d k = dhas e k"
  using assms by (metis dget_mnorm_dict) (metis assms dhas_mnorm_dict)

lemma mnorm_eq_GNum: "mnorm v = GNum KInt64 i \<longleftrightarrow> (\<exists>k. v = GNum k i)"
  by (cases v) auto


lemma mwire_dget: "mwire (GMap d) \<Longrightarrow> mwire (dget d k)"
  by (induction d) (auto simp: dget_def)

lemma mnorm_eq_GStr: "mwire v \<Longrightarrow> mnorm v = GStr s \<longleftrightarrow> v = GStr s"
  by (cases v) auto

lemma wrap64_length: "int (length xs) < 2 ^ 32 \<Longrightarrow> wrap64 (int (length xs)) = int (length xs)"
  by (rule wrap64_id) simp_all

lemma restore_marker:
  assumes d': "mnorm_dict d' = mnorm_dict (dput ''vector_search'' (GMap (dput ''vector''
        (vector_marker 0 (int (length vec))) vs)) d)"
    and "mwire (GMap d')" and "int (length vec) < 2 ^ 32"
  obtains r where "restoreVectorSearchVector d' [vec] = Inr r"
    and "mnorm_dict r = mnorm_dict (dput ''vector_search'' (GMap (dput ''vector'' (GF32s vec) vs)) d)"
    and "\<exists>vs'. dget r ''vector_search'' = GMap vs' \<and> dget vs' ''vector'' = GF32s vec"
proof -
  have "mnorm (dget d' ''vector_search'')
      = GMap (mnorm_dict (dput ''vector'' (vector_marker 0 (int (length vec))) vs))"
    using mnorm_dict_eqD(1) [OF d', of "''vector_search''"] by (simp add: mnorm_dict_def)
  then obtain vs' where vs': "dget d' ''vector_search'' = GMap vs'"
    "mnorm_dict vs' = mnorm_dict (dput ''vector'' (vector_marker 0 (int (length vec))) vs)"
    by (rule mnorm_eq_GMap)
  have has: "dhas vs' ''vector''" using mnorm_dict_eqD(2) [OF vs'(2)] by simp
  have "mnorm (dget vs' ''vector'') = mnorm (vector_marker 0 (int (length vec)))"
    using mnorm_dict_eqD(1) [OF vs'(2), of "''vector''"] by simp
  then obtain m where m: "dget vs' ''vector'' = GMap m"
    "mnorm_dict m = [(binaryVectorMarker, GNum KInt64 0), (''dtype'', GStr ''float32''),
       (''dim'', GNum KInt64 (int (length vec)))]"
    unfolding vector_marker_def by (auto elim: mnorm_eq_GMap)
  have "mwire (GMap m)" using assms(2) vs'(1) m(1) mwire_dget by metis
  moreover have "mnorm (dget m ''dtype'') = GStr ''float32''"
    using dget_mnorm_dict [of m "''dtype''"] by (simp add: m(2) binaryVectorMarker_def)
  ultimately have "dget m ''dtype'' = GStr ''float32''" using mwire_dget mnorm_eq_GStr by blast
  moreover obtain k where "dget m binaryVectorMarker = GNum k 0"
    using dget_mnorm_dict [of m binaryVectorMarker] m(2) mnorm_eq_GNum by (metis dget_Cons(1))
  moreover have "mnorm (dget m ''dim'') = GNum KInt64 (int (length vec))"
    using dget_mnorm_dict [of m "''dim''"] by (simp add: m(2) binaryVectorMarker_def)
  then obtain k' where "dget m ''dim'' = GNum k' (int (length vec))" by (auto simp: mnorm_eq_GNum)
  moreover have "wrap64 0 = 0" by (simp add: wrap64_def)
  ultimately have r: "restoreVectorSearchVector d' [vec] = Inr (dput ''vector_search''
      (GMap (dput ''vector'' (GF32s vec) vs')) d')"
    using vs'(1) has m(1) wrap64_length [OF assms(3)] by (simp add: restoreVectorSearchVector_def)
  have "mnorm_dict (dput ''vector'' (GF32s vec) vs') = mnorm_dict (dput ''vector'' (GF32s vec) vs)"
    using vs'(2) by (simp add: mnorm_dict_dput)
  then have "mnorm_dict (dput ''vector_search'' (GMap (dput ''vector'' (GF32s vec) vs')) d')
      = mnorm_dict (dput ''vector_search'' (GMap (dput ''vector'' (GF32s vec) vs)) d)"
    using d' by (simp only: mnorm_dict_dput mnorm_GMap dput_dput)
  with r show ?thesis using that by auto
qed


section \<open>Vector payloads\<close>

lemma bv_header:
  assumes "int (length md) < 2 ^ 32"
  shows "decodeBinaryVector S (binaryVectorMagic @ [binaryVectorVersion, 0] @ be16 n
           @ be32 (of_nat (length md)) @ be32 0 @ md @ segs) =
     bindr (codec_err (mp_unmarshal S md)) (\<lambda>metadata.
     bindr (read_segments (unat n) segs) (\<lambda>(vectors, rest).
       if rest \<noteq> [] then Inl (ErrCodec ''binary vector payload has trailing bytes'')
       else restoreVectorSearchVector metadata vectors))"
proof -
  have "length binaryVectorMagic = 4" by (simp add: binaryVectorMagic_def bytes_of_def)
  then show ?thesis
    using assms by (simp add: decodeBinaryVector_def binaryVectorPrefix_def uint_length Let_def
        nth_append)
qed


section \<open>Frames\<close>

definition codec_ok :: "NpsFrameCodec \<Rightarrow> FrameType \<Rightarrow> bool" where
  "codec_ok c ft \<longleftrightarrow> ft \<in> set knownFrameTypes \<and> IsRegistered (Registry c) ft
     \<and> MaxPayload c \<le> 0xFFFFFFFF"

lemma uint_of_length64: "int n \<le> 0xFFFFFFFF \<Longrightarrow> uint (of_nat n :: u64) = int n"
  by (simp add: uint_nat unat_of_nat)

lemma Encode_Inr:
  "Encode S c ft d tier fin = Inr wire \<longleftrightarrow>
     (\<exists>p. encodePayload S d tier = Inr p \<and> int (length p) \<le> MaxPayload c \<and>
          wire = ToBytes (NewFrameHeader ft tier fin (of_nat (length p))) @ p)"
  by (cases "encodePayload S d tier") (auto simp: Encode_def)

lemma Decode_Encode:
  assumes "codec_ok c ft" and "tier AND 0x03 = tier"
    and "encodePayload S d tier = Inr p" and "Encode S c ft d tier fin = Inr wire"
  shows "Decode S c (wire @ rest) = bindr (decodePayload S p tier) (\<lambda>d'. Inr (ft, d'))"
proof -
  let ?h = "NewFrameHeader ft tier fin (of_nat (length p))"
  have w: "wire = ToBytes ?h @ p" and l: "int (length p) \<le> 0xFFFFFFFF"
    using assms by (auto simp: Encode_Inr codec_ok_def)
  have "(of_nat (length p) :: u64) \<le> 0xFFFFFFFF"
    using l uint_of_length64 [OF l] by (simp add: word_le_def)
  then have "ParseFrameHeader (wire @ rest) = Inr ?h"
    using ParseFrameHeader_ToBytes NewFrameHeader_ok assms(1) by (simp add: w codec_ok_def)
  then show ?thesis
    using assms(1,2) uint_of_length64 [OF l]
    by (simp add: Decode_def codec_ok_def NewFrameHeader_tier w Let_def)
qed

lemma tier_bits: "EncodingTierJSON AND 0x03 = EncodingTierJSON"
  "EncodingTierMsgPack AND 0x03 = EncodingTierMsgPack"
  "EncodingTierBinaryVector AND 0x03 = EncodingTierBinaryVector"
  by (simp_all add: tier_defs)

lemma encode_vector_payload:
  assumes "dget d ''vector_search'' = GMap vs" and "readFloatVector (dget vs ''vector'') = Some vec"
  shows "encodePayload S d EncodingTierBinaryVector =
     bindr (codec_err (mp_marshal S (dput ''vector_search''
        (GMap (dput ''vector'' (vector_marker 0 (int (length vec))) vs)) d))) (\<lambda>md.
     Inr (binaryVectorMagic @ [binaryVectorVersion, 0] @ be16 1 @ be32 (of_nat (length md))
          @ be32 0 @ md @ vector_segment vec))"
  using assms
  by (simp add: encodePayload_def tier_defs encodeBinaryVector_def extractVectorSearchVector_def)

lemma codec_err_Inr [simp]: "codec_err r = Inr x \<longleftrightarrow> r = Inr x" "codec_err (Inr x) = Inr x"
  by (auto simp: codec_err_def split: sum.splits)

text \<open>Decoding the frame of a vector search reads its vector back from the segment.\<close>

lemma decode_vector_frame:
  assumes "msgpack_law S" and "codec_ok c ft"
    and "dget d ''vector_search'' = GMap vs" and "readFloatVector (dget vs ''vector'') = Some vec"
    and "Encode S c ft d EncodingTierBinaryVector fin = Inr wire"
  obtains d' where "mwire (GMap d')" and "int (length vec) < 2 ^ 32"
    and "mnorm_dict d' = mnorm_dict (dput ''vector_search'' (GMap (dput ''vector''
        (vector_marker 0 (int (length vec))) vs)) d)"
    and "Decode S c (wire @ rest) =
      bindr (read_floats (length vec) (concat (map le32 vec))) (\<lambda>v.
      bindr (restoreVectorSearchVector d' [v]) (\<lambda>r. Inr (ft, r)))"
proof -
  obtain p where p: "encodePayload S d EncodingTierBinaryVector = Inr p"
    "int (length p) \<le> 0xFFFFFFFF"
    using assms(2,5) by (auto simp: Encode_Inr codec_ok_def)
  obtain md where md: "mp_marshal S (dput ''vector_search''
        (GMap (dput ''vector'' (vector_marker 0 (int (length vec))) vs)) d) = Inr md"
    and pp: "p = binaryVectorMagic @ [binaryVectorVersion, 0] @ be16 1 @ be32 (of_nat (length md))
          @ be32 0 @ md @ vector_segment vec"
    using p(1) by (auto simp: encode_vector_payload [OF assms(3,4)] bindr_Inr_iff)
  have len: "int (length md) < 2 ^ 32" "int (length vec) < 2 ^ 32"
    using p(2) by (auto simp: pp vector_segment_def)
  obtain d' where d': "mp_unmarshal S md = Inr d'" "mwire (GMap d')"
    "mnorm_dict d' = mnorm_dict (dput ''vector_search'' (GMap (dput ''vector''
        (vector_marker 0 (int (length vec))) vs)) d)"
    using assms(1) md unfolding msgpack_law_def by blast
  have "read_segments (unat (1::u16)) (vector_segment vec) =
      bindr (read_floats (length vec) (concat (map le32 vec))) (\<lambda>v. Inr ([v], []))"
    using read_segments_step [OF len(2), of 0 "[]"] by simp
  then have "decodePayload S p EncodingTierBinaryVector =
      bindr (read_floats (length vec) (concat (map le32 vec))) (\<lambda>v. restoreVectorSearchVector d' [v])"
    using bv_header [OF len(1), of S 1 "vector_segment vec"] d'(1)
    by (cases "read_floats (length vec) (concat (map le32 vec))")
       (simp_all add: decodePayload_def tier_defs pp)
  then show ?thesis
    using Decode_Encode [OF assms(2) tier_bits(3) p(1) assms(5)] d' len(2) that [of d']
    by (cases "read_floats (length vec) (concat (map le32 vec))") simp_all
qed


lemma json_encode_decode:
  assumes "json_wf (sFmt S) 10000 (GMap d)" and "codec_ok c ft"
  shows "case Encode S c ft d EncodingTierJSON fin of
      Inr wire \<Rightarrow> Decode S c (wire @ rest)
                   = Inr (ft, sort_key fst (map (\<lambda>(k, v). (k, jnorm (sFmt S) v)) d))
    | Inl e \<Rightarrow> \<exists>p. encodePayload S d EncodingTierJSON = Inr p \<and> MaxPayload c < int (length p)
                 \<and> e = ErrCodec (''payload '' @ dec (length p) @ '' exceeds max '' @ dec_int (MaxPayload c))"
proof -
  obtain s where s: "marshal_text (sFmt S) (GMap d) = Inr s"
    "unmarshal_dict s = Inr (sort_key fst (map (\<lambda>(k, v). (k, jnorm (sFmt S) v)) d))"
    using unmarshal_marshal [OF assms(1)] .
  then have p: "encodePayload S d EncodingTierJSON = Inr (bytes_of s)"
    by (simp add: encodePayload_def)
  show ?thesis
  proof (cases "Encode S c ft d EncodingTierJSON fin")
    case (Inl e)
    then show ?thesis using p by (auto simp: Encode_def split: if_splits)
  next
    case (Inr wire)
    then show ?thesis
      using Decode_Encode [OF assms(2) tier_bits(1) p Inr] s(2) by (simp add: decodePayload_def)
  qed
qed

section \<open>Properties\<close>

text \<open>C19: A frame encoded with the JSON tier decodes to its own type and to its dictionary with
  keys in order, numbers as \<open>float64\<close> and slices as \<open>[]any\<close>, also when more bytes follow;
  the only error that encoding can give is that the payload exceeds the codec's limit.\<close>

theorem json_frame_roundtrip:
  assumes "json_wf (sFmt S) 10000 (GMap d)" and "codec_ok c ft"
  shows "case Encode S c ft d EncodingTierJSON fin of
      Inr wire \<Rightarrow> Decode S c (wire @ rest)
                   = Inr (ft, sort_key fst (map (\<lambda>(k, v). (k, jnorm (sFmt S) v)) d))
    | Inl e \<Rightarrow> \<exists>p. encodePayload S d EncodingTierJSON = Inr p \<and> MaxPayload c < int (length p)
                 \<and> e = ErrCodec (''payload '' @ dec (length p) @ '' exceeds max '' @ dec_int (MaxPayload c))"
  using assms by (rule json_encode_decode)

definition sample_fmt :: float_fmt where
  "sample_fmt = \<lparr>fmt64 = (\<lambda>x. ''1''), fmt32 = (\<lambda>x. ''1'')\<rparr>"

definition sample_marked :: "num_kind \<Rightarrow> dict" where
  "sample_marked k = [(''vector_search'', GMap [(''vector'', GMap
     [(binaryVectorMarker, GNum k 0), (''dtype'', GStr ''float32''), (''dim'', GNum k 1)])])]"

text \<open>A serialiser that knows one dictionary, and gives its integers back as \<open>int8\<close>.\<close>

definition sample_serializers :: serializers where
  "sample_serializers = \<lparr>sFmt = sample_fmt,
     mp_marshal = (\<lambda>d. if d = sample_marked KInt then Inr [0x81] else Inl ErrEOF),
     mp_unmarshal = (\<lambda>b. if b = [0x81] then Inr (sample_marked KInt8) else Inl ErrEOF)\<rparr>"

definition sample_codec :: NpsFrameCodec where
  "sample_codec = NewNpsFrameCodec CreateDefaultRegistry"

lemma sample_codec_ok: "codec_ok sample_codec FrameTypeCaps"
  by (simp add: codec_ok_def sample_codec_def NewNpsFrameCodec_def DefaultMaxPayload_def
      knownFrameTypes_def CreateDefaultRegistry_def IsRegistered_def Register_def)

lemma sample_law: "msgpack_law sample_serializers"
  by (simp add: msgpack_law_def sample_serializers_def sample_marked_def mnorm_dict_def)

theorem json_frame_roundtrip_witness:
  "case Encode sample_serializers sample_codec FrameTypeCaps
      [(''b'', GNum KInt 12), (''a'', GList [GStr ''x'', GNil])] EncodingTierJSON True of
     Inr wire \<Rightarrow> Decode sample_serializers sample_codec (wire @ [1])
                  = Inr (FrameTypeCaps, [(''a'', GList [GStr ''x'', GNil]), (''b'', GF64 (f64_of_int 12))])
   | Inl e \<Rightarrow> \<exists>p. encodePayload sample_serializers
          [(''b'', GNum KInt 12), (''a'', GList [GStr ''x'', GNil])] EncodingTierJSON = Inr p
        \<and> MaxPayload sample_codec < int (length p)
        \<and> e = ErrCodec (''payload '' @ dec (length p) @ '' exceeds max ''
                 @ dec_int (MaxPayload sample_codec))"
proof -
  have wf: "json_wf (sFmt sample_serializers) 10000
      (GMap [(''b'', GNum KInt 12), (''a'', GList [GStr ''x'', GNil])])"
    by (simp add: utf8_width.simps)
  have eq: "sort_key fst (map (\<lambda>(k, v). (k, jnorm (sFmt sample_serializers) v))
        [(''b'', GNum KInt 12), (''a'', GList [GStr ''x'', GNil])])
      = [(''a'', GList [GStr ''x'', GNil]), (''b'', GF64 (f64_of_int 12))]"
    by (simp add: less_char_def)
  show ?thesis
    using json_frame_roundtrip [OF wf sample_codec_ok, where fin = True and rest = "[1]"]
    unfolding eq .
qed

text \<open>C20: With a MessagePack that keeps values, a frame whose \<open>vector_search.vector\<close> reads as
  a vector of finite \<open>float32\<close>s comes back from the binary-vector tier with that vector, as
  \<open>[]float32\<close>, in its place and everything else unchanged up to the types MessagePack
  decodes to.\<close>

theorem vector_frame_roundtrip:
  assumes "msgpack_law S" and "codec_ok c ft"
    and "dget d ''vector_search'' = GMap vs" and "readFloatVector (dget vs ''vector'') = Some vec"
    and "list_all f32_finite vec"
    and "Encode S c ft d EncodingTierBinaryVector fin = Inr wire"
  shows "\<exists>r vs'. Decode S c (wire @ rest) = Inr (ft, r)
       \<and> dget r ''vector_search'' = GMap vs' \<and> dget vs' ''vector'' = GF32s vec
       \<and> mnorm_dict r = mnorm_dict (dput ''vector_search'' (GMap (dput ''vector'' (GF32s vec) vs)) d)"
proof -
  obtain d' where d': "mwire (GMap d')" "int (length vec) < 2 ^ 32"
    "mnorm_dict d' = mnorm_dict (dput ''vector_search'' (GMap (dput ''vector''
        (vector_marker 0 (int (length vec))) vs)) d)"
    "Decode S c (wire @ rest) =
      bindr (read_floats (length vec) (concat (map le32 vec))) (\<lambda>v.
      bindr (restoreVectorSearchVector d' [v]) (\<lambda>r. Inr (ft, r)))"
    by (rule decode_vector_frame [OF assms(1-4,6)])
  obtain r where "restoreVectorSearchVector d' [vec] = Inr r"
    "mnorm_dict r = mnorm_dict (dput ''vector_search'' (GMap (dput ''vector'' (GF32s vec) vs)) d)"
    "\<exists>vs'. dget r ''vector_search'' = GMap vs' \<and> dget vs' ''vector'' = GF32s vec"
    by (rule restore_marker [OF d'(3,1,2)])
  then show ?thesis using d'(4) read_floats_concat [OF assms(5), of "[]"] by auto
qed

definition sample_vector :: "f32 \<Rightarrow> dict" where
  "sample_vector x = [(''vector_search'', GMap [(''vector'', GF32s [x])])]"

lemma sample_vector_encodes:
  "\<exists>wire. Encode sample_serializers sample_codec FrameTypeCaps (sample_vector x)
     EncodingTierBinaryVector True = Inr wire"
  by (simp add: Encode_Inr encode_vector_payload [of _ "[(''vector'', GF32s [x])]" "[x]"]
      sample_vector_def sample_serializers_def sample_marked_def vector_marker_def sample_codec_def
      NewNpsFrameCodec_def DefaultMaxPayload_def binaryVectorMagic_def bytes_of_def
      vector_segment_def)

theorem vector_frame_roundtrip_witness:
  "\<exists>wire r vs'. Encode sample_serializers sample_codec FrameTypeCaps (sample_vector 0x3F800000)
        EncodingTierBinaryVector True = Inr wire
     \<and> Decode sample_serializers sample_codec (wire @ [9]) = Inr (FrameTypeCaps, r)
     \<and> dget r ''vector_search'' = GMap vs' \<and> dget vs' ''vector'' = GF32s [0x3F800000]"
proof -
  obtain wire where w: "Encode sample_serializers sample_codec FrameTypeCaps
      (sample_vector 0x3F800000) EncodingTierBinaryVector True = Inr wire"
    using sample_vector_encodes by blast
  have "list_all f32_finite [0x3F800000]"
    by (simp add: f32_finite_def f32_isnan_def f32_isinf_def f32_exp_def f32_frac_def)
  with vector_frame_roundtrip [OF sample_law sample_codec_ok _ _ _ w,
      of "[(''vector'', GF32s [0x3F800000])]" "[0x3F800000]" "[9]"] w
  show ?thesis by (auto simp: sample_vector_def)
qed

text \<open>Encoding with the binary-vector tier accepts a vector with a NaN or an infinity, and
  decoding refuses every frame made so: the two directions disagree on non-finite values.\<close>

theorem vector_nonfinite_undecodable:
  assumes "msgpack_law S" and "codec_ok c ft"
    and "dget d ''vector_search'' = GMap vs" and "readFloatVector (dget vs ''vector'') = Some vec"
    and "\<not> list_all f32_finite vec"
    and "Encode S c ft d EncodingTierBinaryVector fin = Inr wire"
  shows "Decode S c (wire @ rest) = Inl (ErrCodec ''binary vector values must be finite float32'')"
proof -
  obtain d' where "Decode S c (wire @ rest) =
      bindr (read_floats (length vec) (concat (map le32 vec))) (\<lambda>v.
      bindr (restoreVectorSearchVector d' [v]) (\<lambda>r. Inr (ft, r)))"
    by (rule decode_vector_frame [OF assms(1-4,6)])
  then show ?thesis using read_floats_bad [OF assms(5), of "[]"] by simp
qed

theorem vector_nonfinite_undecodable_witness:
  "\<exists>wire. Encode sample_serializers sample_codec FrameTypeCaps (sample_vector 0x7F800000)
        EncodingTierBinaryVector True = Inr wire
     \<and> Decode sample_serializers sample_codec (wire @ [])
         = Inl (ErrCodec ''binary vector values must be finite float32'')"
proof -
  obtain wire where w: "Encode sample_serializers sample_codec FrameTypeCaps
      (sample_vector 0x7F800000) EncodingTierBinaryVector True = Inr wire"
    using sample_vector_encodes by blast
  have "\<not> list_all f32_finite [0x7F800000]"
    by (simp add: f32_finite_def f32_isnan_def f32_isinf_def f32_exp_def f32_frac_def)
  with vector_nonfinite_undecodable [OF sample_law sample_codec_ok _ _ _ w,
      of "[(''vector'', GF32s [0x7F800000])]" "[0x7F800000]" "[]"] w
  show ?thesis by (simp add: sample_vector_def)
qed

end
