(* ===== verification/TTL_Store.thy ===== *)
theory TTL_Store
  imports NPS_Prelude
begin

text \<open>
  The contract of a store whose entries expire: what a lookup sees after a write or a removal,
  at which time, and that the list of live entries agrees with the lookups.  The anchor cache
  of \<open>core\<close> and the node registry of \<open>ndp\<close> are two providers.  The lemmas follow one key
  through a sequence of writes and removals.
\<close>

datatype ('k, 'v) store_op = Put 'k 'v int | Del 'k

fun op_key :: "('k, 'v) store_op \<Rightarrow> 'k" where
  "op_key (Put k v e) = k"
| "op_key (Del k) = k"

locale ttl_store =
  fixes inv :: "'s \<Rightarrow> bool"
    and lookup :: "'s \<Rightarrow> int \<Rightarrow> 'k \<Rightarrow> 'v option"
    and put :: "'k \<Rightarrow> 'v \<Rightarrow> int \<Rightarrow> 's \<Rightarrow> 's"
    and del :: "'k \<Rightarrow> 's \<Rightarrow> 's"
    and live :: "'s \<Rightarrow> int \<Rightarrow> 'v list"
  assumes inv_put: "inv s \<Longrightarrow> inv (put k v e s)"
    and inv_del: "inv s \<Longrightarrow> inv (del k s)"
    and lookup_put: "inv s \<Longrightarrow> lookup (put k v e s) now j =
          (if j = k then (if now < e then Some v else None) else lookup s now j)"
    and lookup_del: "inv s \<Longrightarrow> lookup (del k s) now j = (if j = k then None else lookup s now j)"
    and expires: "inv s \<Longrightarrow> lookup s now k = None \<Longrightarrow> now \<le> later \<Longrightarrow> lookup s later k = None"
    and live_iff: "inv s \<Longrightarrow> v \<in> set (live s now) \<longleftrightarrow> (\<exists>k. lookup s now k = Some v)"
begin

definition do_op :: "('k, 'v) store_op \<Rightarrow> 's \<Rightarrow> 's" where
  "do_op x s = (case x of Put k v e \<Rightarrow> put k v e s | Del k \<Rightarrow> del k s)"

lemma inv_ops: "inv s \<Longrightarrow> inv (fold do_op xs s)"
  by (induction xs arbitrary: s) (auto simp: do_op_def inv_put inv_del split: store_op.split)

text \<open>Operations on other keys do not matter.\<close>

lemma lookup_other:
  "inv s \<Longrightarrow> k \<notin> op_key ` set xs \<Longrightarrow> lookup (fold do_op xs s) now k = lookup s now k"
proof (induction xs arbitrary: s)
  case (Cons x xs)
  have "inv (do_op x s)" using Cons.prems(1) inv_ops [of s "[x]"] by simp
  moreover have "lookup (do_op x s) now k = lookup s now k"
    using Cons.prems by (auto simp: do_op_def lookup_put lookup_del split: store_op.split)
  ultimately show ?case using Cons by simp
qed simp

text \<open>The last write of a key decides what is seen, until it expires and never after.\<close>

lemma lookup_last_put:
  assumes "inv s" and "k \<notin> op_key ` set ys"
  shows "lookup (fold do_op (xs @ Put k v e # ys) s) now k = (if now < e then Some v else None)"
  using lookup_other [OF inv_put [OF inv_ops [OF assms(1)]] assms(2), of k v e xs]
    lookup_put [OF inv_ops [OF assms(1)]]
  by (simp add: do_op_def)

lemma lookup_last_del:
  assumes "inv s" and "k \<notin> op_key ` set ys"
  shows "lookup (fold do_op (xs @ Del k # ys) s) now k = None"
  using lookup_other [OF inv_del [OF inv_ops [OF assms(1)]] assms(2), of k xs]
    lookup_del [OF inv_ops [OF assms(1)]]
  by (simp add: do_op_def)

lemma live_after_put: "inv s \<Longrightarrow> now < e \<Longrightarrow> v \<in> set (live (put k v e s) now)"
  using live_iff inv_put lookup_put by fastforce

end

end
