(* ===== verification/Core_Cache.thy ===== *)
theory Core_Cache
  imports Core_Codec TTL_Store
begin

text \<open>
  \<open>core/cache.go\<close>: the content address of a schema and the cache of schemas that expire.
  The hash is a parameter (the hexadecimal SHA-256 of a text).  Times are nanoseconds; the
  lifetime is computed in 64 bits as \<open>time.Duration\<close> does.  A \<open>map[string]any\<close> is never nil
  here.
\<close>

section \<open>Anchor identifiers\<close>

type_synonym hasher = "string \<Rightarrow> string"

text \<open>A \<open>strings.Replacer\<close> whose patterns are single characters.\<close>

definition replace_chars :: "(char \<times> string) list \<Rightarrow> string \<Rightarrow> string" where
  "replace_chars tab s = concat (map (\<lambda>c. case map_of tab c of Some r \<Rightarrow> r | None \<Rightarrow> [c]) s)"

definition unescapeHTML :: "string \<Rightarrow> string" where
  "unescapeHTML s = replace_chars [(CHR ''<'', ''<''), (CHR ''>'', ''>''), (CHR ''&'', ''&'')] s"

definition writeJCSString :: "string \<Rightarrow> string" where
  "writeJCSString s = unescapeHTML (tok_text (TStr (json_quote s)))"

fun jcsStr :: "goany \<Rightarrow> string" where
  "jcsStr (GStr s) = s"
| "jcsStr _ = []"

definition quoted :: "string \<Rightarrow> string" where
  "quoted s = [CHR 0x22] @ s @ [CHR 0x22]"

definition canonical_field :: "dict \<Rightarrow> string" where
  "canonical_field fm =
     ''{'' @ quoted ''name'' @ '':'' @ writeJCSString (jcsStr (dget fm ''name''))
     @ '','' @ quoted ''nullable'' @ '':''
     @ (if dget fm ''nullable'' = GBool True then ''true'' else ''false'')
     @ (if jcsStr (dget fm ''semantic'') \<noteq> []
        then '','' @ quoted ''semantic'' @ '':'' @ writeJCSString (jcsStr (dget fm ''semantic'')) else [])
     @ '','' @ quoted ''type'' @ '':'' @ writeJCSString (jcsStr (dget fm ''type'')) @ ''}''"

fun field_maps :: "goany list \<Rightarrow> dict list option" where
  "field_maps [] = Some []"
| "field_maps (GMap fm # fs) = map_option ((#) fm) (field_maps fs)"
| "field_maps (_ # fs) = None"

definition canonicalFrameSchemaJSON :: "dict \<Rightarrow> string option" where
  "canonicalFrameSchemaJSON schema =
     (case (case dget schema ''fields'' of
              GList v \<Rightarrow> field_maps v
            | GMaps v \<Rightarrow> Some v
            | _ \<Rightarrow> None) of
        None \<Rightarrow> None
      | Some fms \<Rightarrow>
          Some (''{'' @ quoted ''fields'' @ '':['' @ join_with '','' (map canonical_field fms) @ '']}''))"

text \<open>The error of \<open>json.Marshal\<close> is dropped, which leaves no bytes.\<close>

definition marshal_or_empty :: "float_fmt \<Rightarrow> dict \<Rightarrow> string" where
  "marshal_or_empty F d = (case marshal_text F (GMap d) of Inr s \<Rightarrow> s | Inl e \<Rightarrow> [])"

definition ComputeAnchorID :: "hasher \<Rightarrow> float_fmt \<Rightarrow> dict \<Rightarrow> string" where
  "ComputeAnchorID sha F schema =
     ''sha256:'' @ sha (case canonicalFrameSchemaJSON schema of
                         Some canonical \<Rightarrow> canonical
                       | None \<Rightarrow> marshal_or_empty F schema)"

section \<open>The cache\<close>

record anchorEntry =
  aeSchema :: dict
  aeExpires :: int

type_synonym AnchorFrameCache = "(string \<times> anchorEntry) list"

definition NewAnchorFrameCache :: AnchorFrameCache where
  "NewAnchorFrameCache = []"

definition mapsEqual :: "float_fmt \<Rightarrow> dict \<Rightarrow> dict \<Rightarrow> bool" where
  "mapsEqual F a b \<longleftrightarrow> length a = length b \<and> marshal_or_empty F a = marshal_or_empty F b"

definition Second :: int where
  "Second = 1000000000"

definition Set :: "hasher \<Rightarrow> float_fmt \<Rightarrow> int \<Rightarrow> dict \<Rightarrow> int \<Rightarrow> AnchorFrameCache
    \<Rightarrow> string res \<times> AnchorFrameCache" where
  "Set sha F now sch ttlSecs c =
     (let anchor = ComputeAnchorID sha F sch;
          poisoned = (case map_of c anchor of
                        Some e \<Rightarrow> now < aeExpires e \<and> \<not> mapsEqual F (aeSchema e) sch
                      | None \<Rightarrow> False)
      in if poisoned then (Inl (ErrAnchorPoison anchor), c)
         else (Inr anchor,
               AList.update anchor \<lparr>aeSchema = sch, aeExpires = now + wrap64 (ttlSecs * Second)\<rparr> c))"

definition Get :: "int \<Rightarrow> AnchorFrameCache \<Rightarrow> string \<Rightarrow> dict option" where
  "Get now c anchor =
     (case map_of c anchor of
        None \<Rightarrow> None
      | Some e \<Rightarrow> if now < aeExpires e then Some (aeSchema e) else None)"

definition GetRequired :: "int \<Rightarrow> AnchorFrameCache \<Rightarrow> string \<Rightarrow> dict res" where
  "GetRequired now c anchor =
     (case Get now c anchor of None \<Rightarrow> Inl (ErrAnchorNotFound anchor) | Some v \<Rightarrow> Inr v)"

definition Invalidate :: "string \<Rightarrow> AnchorFrameCache \<Rightarrow> AnchorFrameCache" where
  "Invalidate anchor c = AList.delete anchor c"

definition Len :: "int \<Rightarrow> AnchorFrameCache \<Rightarrow> nat" where
  "Len now c = length (filter (\<lambda>(k, e). now < aeExpires e) c)"


section \<open>Lemmas\<close>

definition cache_put :: "string \<Rightarrow> dict \<Rightarrow> int \<Rightarrow> AnchorFrameCache \<Rightarrow> AnchorFrameCache" where
  "cache_put anchor sch e c = AList.update anchor \<lparr>aeSchema = sch, aeExpires = e\<rparr> c"

definition live_schemas :: "AnchorFrameCache \<Rightarrow> int \<Rightarrow> dict list" where
  "live_schemas c now = map (\<lambda>(k, e). aeSchema e) (filter (\<lambda>(k, e). now < aeExpires e) c)"

lemma Get_Some: "Get now c k = Some v \<longleftrightarrow> (\<exists>e. map_of c k = Some e \<and> now < aeExpires e \<and> aeSchema e = v)"
  by (auto simp: Get_def split: option.splits)

lemma live_schemas_iff:
  "distinct (map fst c) \<Longrightarrow> v \<in> set (live_schemas c now) \<longleftrightarrow> (\<exists>k. Get now c k = Some v)"
  by (auto simp: live_schemas_def Get_Some)

lemma Len_live: "Len now c = length (live_schemas c now)"
  by (simp add: Len_def live_schemas_def)

interpretation cache: ttl_store "\<lambda>c. distinct (map fst c)" "\<lambda>c now k. Get now c k"
  cache_put Invalidate live_schemas
proof
  fix c :: AnchorFrameCache and k j v e now later
  assume d: "distinct (map fst c)"
  show "distinct (map fst (cache_put k v e c))"
    using d by (simp add: cache_put_def distinct_update)
  show "distinct (map fst (Invalidate k c))"
    using d by (simp add: Invalidate_def distinct_delete)
  show "Get now (cache_put k v e c) j =
      (if j = k then (if now < e then Some v else None) else Get now c j)"
    by (simp add: Get_def cache_put_def update_conv')
  show "Get now (Invalidate k c) j = (if j = k then None else Get now c j)"
    by (simp add: Get_def Invalidate_def delete_conv')
  show "Get now c k = None \<Longrightarrow> now \<le> later \<Longrightarrow> Get later c k = None"
    by (auto simp: Get_def split: option.splits if_splits)
  show "v \<in> set (live_schemas c now) \<longleftrightarrow> (\<exists>k. Get now c k = Some v)"
    using d by (rule live_schemas_iff)
qed

text \<open>A write that is not refused is a \<open>put\<close>.\<close>

definition poisons :: "hasher \<Rightarrow> float_fmt \<Rightarrow> int \<Rightarrow> dict \<Rightarrow> AnchorFrameCache \<Rightarrow> bool" where
  "poisons sha F now sch c \<longleftrightarrow>
     (\<exists>old. Get now c (ComputeAnchorID sha F sch) = Some old \<and> \<not> mapsEqual F old sch)"

lemma Set_eq:
  "Set sha F now sch ttl c =
     (if poisons sha F now sch c then (Inl (ErrAnchorPoison (ComputeAnchorID sha F sch)), c)
      else (Inr (ComputeAnchorID sha F sch),
            cache_put (ComputeAnchorID sha F sch) sch (now + wrap64 (ttl * Second)) c))"
  by (auto simp: Set_def poisons_def cache_put_def Get_def Let_def split: option.splits)

inductive cache_reach :: "hasher \<Rightarrow> float_fmt \<Rightarrow> AnchorFrameCache \<Rightarrow> bool"
  for sha F where
  new: "cache_reach sha F NewAnchorFrameCache"
| set: "cache_reach sha F c \<Longrightarrow> cache_reach sha F (snd (Set sha F now sch ttl c))"
| invalidate: "cache_reach sha F c \<Longrightarrow> cache_reach sha F (Invalidate anchor c)"

definition cache_inv :: "hasher \<Rightarrow> float_fmt \<Rightarrow> AnchorFrameCache \<Rightarrow> bool" where
  "cache_inv sha F c \<longleftrightarrow> distinct (map fst c)
     \<and> (\<forall>k e. map_of c k = Some e \<longrightarrow> ComputeAnchorID sha F (aeSchema e) = k)"

lemma cache_reach_inv: "cache_reach sha F c \<Longrightarrow> cache_inv sha F c"
proof (induction rule: cache_reach.induct)
  case (set c now sch ttl)
  then show ?case
    by (auto simp: cache_inv_def Set_eq cache_put_def update_conv' distinct_update
        simp del: map_of_eq_Some_iff split: if_splits)
next
  case (invalidate c anchor)
  then show ?case
    by (auto simp: cache_inv_def Invalidate_def delete_conv' distinct_delete
        simp del: map_of_eq_Some_iff split: if_splits)
qed (simp add: cache_inv_def NewAnchorFrameCache_def)

lemma unescapeHTML_id [simp]: "unescapeHTML s = s"
proof -
  have "(\<lambda>c. case map_of [(CHR ''<'', ''<''), (CHR ''>'', ''>''), (CHR ''&'', ''&'')] c of
          Some r \<Rightarrow> r | None \<Rightarrow> [c]) = (\<lambda>c. [c])" by auto
  then show ?thesis unfolding unescapeHTML_def replace_chars_def by simp
qed






section \<open>Properties\<close>

text \<open>C22: Content addressing.  In every cache that \<open>Set\<close> and \<open>Invalidate\<close> can reach, at whatever
  times they run, a lookup returns only a schema whose own anchor identifier is the one asked
  for, and \<open>GetRequired\<close> gives that schema or the not-found error.\<close>

theorem cache_content_addressed:
  assumes "cache_reach sha F c"
  shows "case GetRequired now c anchor of
      Inr sch \<Rightarrow> ComputeAnchorID sha F sch = anchor \<and> Get now c anchor = Some sch
    | Inl e \<Rightarrow> e = ErrAnchorNotFound anchor \<and> Get now c anchor = None"
proof (cases "Get now c anchor")
  case (Some sch)
  then have "ComputeAnchorID sha F sch = anchor"
    using cache_reach_inv [OF assms] unfolding Get_Some cache_inv_def by blast
  with Some show ?thesis by (simp add: GetRequired_def)
qed (simp add: GetRequired_def)

theorem cache_content_addressed_witness:
  "case GetRequired 5 (snd (Set rev sample_fmt 0 [(''a'', GNil)] 10 NewAnchorFrameCache)) ''x'' of
      Inr sch \<Rightarrow> ComputeAnchorID rev sample_fmt sch = ''x''
        \<and> Get 5 (snd (Set rev sample_fmt 0 [(''a'', GNil)] 10 NewAnchorFrameCache)) ''x'' = Some sch
    | Inl e \<Rightarrow> e = ErrAnchorNotFound ''x''
        \<and> Get 5 (snd (Set rev sample_fmt 0 [(''a'', GNil)] 10 NewAnchorFrameCache)) ''x'' = None"
  by (rule cache_content_addressed) (intro cache_reach.intros)

text \<open>C23: Poisoning.  \<open>Set\<close> is refused exactly when a live entry under the same identifier holds
  a schema that prints differently, and then changes nothing; otherwise the schema is seen under
  its identifier until the lifetime, in wrapped 64-bit nanoseconds, has run out, and other
  identifiers are untouched.\<close>

theorem cache_set_spec:
  assumes "distinct (map fst c)"
  shows "case Set sha F now sch ttl c of
      (Inl e, c') \<Rightarrow> e = ErrAnchorPoison (ComputeAnchorID sha F sch) \<and> c' = c
        \<and> (\<exists>old. Get now c (ComputeAnchorID sha F sch) = Some old \<and> \<not> mapsEqual F old sch)
    | (Inr anchor, c') \<Rightarrow> anchor = ComputeAnchorID sha F sch
        \<and> (Get now c anchor = None \<or> mapsEqual F (the (Get now c anchor)) sch)
        \<and> (\<forall>t k. Get t c' k = (if k = anchor then (if t < now + wrap64 (ttl * Second) then Some sch else None)
                             else Get t c k))"
proof (cases "poisons sha F now sch c")
  case True
  then show ?thesis by (simp add: Set_eq) (simp add: poisons_def)
next
  case False
  then have "Get now c (ComputeAnchorID sha F sch) = None
      \<or> mapsEqual F (the (Get now c (ComputeAnchorID sha F sch))) sch"
    by (cases "Get now c (ComputeAnchorID sha F sch)") (simp_all add: poisons_def)
  with False show ?thesis by (simp add: Set_eq cache.lookup_put [OF assms])
qed

theorem cache_set_spec_witness:
  "case Set rev sample_fmt 0 [(''a'', GNil)] 10 [] of
      (Inl e, c') \<Rightarrow> e = ErrAnchorPoison (ComputeAnchorID rev sample_fmt [(''a'', GNil)]) \<and> c' = []
        \<and> (\<exists>old. Get 0 [] (ComputeAnchorID rev sample_fmt [(''a'', GNil)]) = Some old
               \<and> \<not> mapsEqual sample_fmt old [(''a'', GNil)])
    | (Inr anchor, c') \<Rightarrow> anchor = ComputeAnchorID rev sample_fmt [(''a'', GNil)]
        \<and> (Get 0 [] anchor = None \<or> mapsEqual sample_fmt (the (Get 0 [] anchor)) [(''a'', GNil)])
        \<and> (\<forall>t k. Get t c' k = (if k = anchor then (if t < 0 + wrap64 (10 * Second) then Some [(''a'', GNil)] else None)
                             else Get t [] k))"
  by (rule cache_set_spec [where c = "[]" and sha = rev and F = sample_fmt and now = 0
        and sch = "[(''a'', GNil)]" and ttl = 10]) simp



text \<open>The canonical form keeps the HTML escapes of \<open>json.Marshal\<close>: \<open>unescapeHTML\<close> changes no
  text, so a field named \<open>a<b\<close> is written with the six-character escape.\<close>

theorem canonical_form_keeps_html_escapes:
  "unescapeHTML s = s
   \<and> writeJCSString ''a<b'' = quoted (''a'' @ [CHR 0x5C] @ ''u003cb'')
   \<and> canonicalFrameSchemaJSON [(''fields'', GList [GMap [(''name'', GStr ''a<b'')]])]
       = Some (''{'' @ quoted ''fields'' @ '':[{'' @ quoted ''name'' @ '':''
              @ quoted (''a'' @ [CHR 0x5C] @ ''u003cb'')
              @ '','' @ quoted ''nullable'' @ '':false,'' @ quoted ''type'' @ '':'' @ quoted [] @ ''}]}'')"
proof -
  have c: "char_of (51 :: nat) = CHR ''3''" "char_of (99 :: nat) = CHR ''c''" by code_simp+
  have "writeJCSString ''a<b'' = quoted (''a'' @ [CHR 0x5C] @ ''u003cb'')" "writeJCSString [] = quoted []"
    using c by (simp_all add: writeJCSString_def quoted_def quote_ascii_def hex_low_def)
  then show ?thesis by (simp add: canonicalFrameSchemaJSON_def canonical_field_def)
qed

end
