(* ===== verification/Ncp_Frames.thy ===== *)
theory Ncp_Frames
  imports Core_Codec
begin

text \<open>
  \<open>ncp/frames.go\<close>: the NCP frames as records, and their conversions to and from the
  dictionaries the codec carries.  A pointer field is an option.  A slice or map that the code
  compares with nil is an option too, and a nil one in a dictionary is \<open>GNil\<close>, which the type
  switches here and \<open>encoding/json\<close> treat alike.
\<close>

section \<open>Reading dictionaries\<close>

definition str :: "dict \<Rightarrow> string \<Rightarrow> string" where
  "str d k = (case dget d k of GStr v \<Rightarrow> v | _ \<Rightarrow> [])"

definition optStr :: "dict \<Rightarrow> string \<Rightarrow> string option" where
  "optStr d k = (case dget d k of GStr v \<Rightarrow> Some v | _ \<Rightarrow> None)"

fun toUint64 :: "goany \<Rightarrow> u64" where
  "toUint64 (GNum KInt64 x) = word_of_int x"
| "toUint64 (GNum KUint64 x) = word_of_int x"
| "toUint64 (GF64 x) = f64_to_u64 x"
| "toUint64 (GNum KInt x) = word_of_int x"
| "toUint64 _ = 0"

definition bool_or_false :: "goany \<Rightarrow> bool" where
  "bool_or_false v \<longleftrightarrow> v = GBool True"

fun anySlice :: "goany \<Rightarrow> goany list option" where
  "anySlice (GList xs) = Some xs"
| "anySlice GNil = None"
| "anySlice v = Some [v]"

definition optBoolPtr :: "dict \<Rightarrow> string \<Rightarrow> bool option" where
  "optBoolPtr d k = (case dget d k of GBool b \<Rightarrow> Some b | _ \<Rightarrow> None)"

definition optUint64Ptr :: "dict \<Rightarrow> string \<Rightarrow> u64 option" where
  "optUint64Ptr d k = (if dhas d k then Some (toUint64 (dget d k)) else None)"

fun strings_in :: "goany list \<Rightarrow> string list" where
  "strings_in [] = []"
| "strings_in (GStr s # xs) = s # strings_in xs"
| "strings_in (_ # xs) = strings_in xs"

fun asStringSlice :: "goany \<Rightarrow> string list option" where
  "asStringSlice (GStrs xs) = Some xs"
| "asStringSlice (GList xs) = Some (strings_in xs)"
| "asStringSlice _ = None"

definition strings_or_nil :: "goany \<Rightarrow> string list" where
  "strings_or_nil v = (case asStringSlice v of Some xs \<Rightarrow> xs | None \<Rightarrow> [])"

abbreviation gu64 :: "u64 \<Rightarrow> goany" where
  "gu64 w \<equiv> GNum KUint64 (uint w)"

text \<open>An assignment that happens only for a non-nil pointer.\<close>

definition put_opt :: "string \<Rightarrow> ('a \<Rightarrow> goany) \<Rightarrow> 'a option \<Rightarrow> dict \<Rightarrow> dict" where
  "put_opt k f v d = (case v of None \<Rightarrow> d | Some x \<Rightarrow> dput k (f x) d)"

definition nil_or :: "('a \<Rightarrow> goany) \<Rightarrow> 'a option \<Rightarrow> goany" where
  "nil_or f v = (case v of None \<Rightarrow> GNil | Some x \<Rightarrow> f x)"

section \<open>AnchorFrame, DiffFrame, StreamFrame\<close>

record AnchorFrame =
  afAnchorID :: string
  afSchema :: "dict option"
  afNamespace :: "string option"
  afDescription :: "string option"
  afNodeType :: "string option"
  afTTL :: u64

definition AnchorFrame_ToDict :: "AnchorFrame \<Rightarrow> dict" where
  "AnchorFrame_ToDict f =
     put_opt ''node_type'' GStr (afNodeType f)
       (put_opt ''description'' GStr (afDescription f)
         (put_opt ''namespace'' GStr (afNamespace f)
           [(''anchor_id'', GStr (afAnchorID f)), (''schema'', nil_or GMap (afSchema f)),
            (''ttl'', gu64 (afTTL f))]))"

definition AnchorFrameFromDict :: "dict \<Rightarrow> AnchorFrame" where
  "AnchorFrameFromDict d =
     (let ttl = toUint64 (dget d ''ttl'')
      in \<lparr>afAnchorID = str d ''anchor_id'',
          afSchema = asFrameDict (dget d ''schema''),
          afNamespace = optStr d ''namespace'',
          afDescription = optStr d ''description'',
          afNodeType = optStr d ''node_type'',
          afTTL = (if ttl = 0 then 3600 else ttl)\<rparr>)"

record DiffFrame =
  dfAnchorID :: string
  dfNewAnchorID :: string
  dfPatch :: "goany list option"

definition DiffFrame_ToDict :: "DiffFrame \<Rightarrow> dict" where
  "DiffFrame_ToDict f =
     [(''anchor_id'', GStr (dfAnchorID f)), (''new_anchor_id'', GStr (dfNewAnchorID f)),
      (''patch'', nil_or GList (dfPatch f))]"

definition DiffFrameFromDict :: "dict \<Rightarrow> DiffFrame" where
  "DiffFrameFromDict d =
     \<lparr>dfAnchorID = str d ''anchor_id'', dfNewAnchorID = str d ''new_anchor_id'',
      dfPatch = (case dget d ''patch'' of GList v \<Rightarrow> Some v | _ \<Rightarrow> None)\<rparr>"

record StreamFrame =
  sfAnchorID :: string
  sfSeq :: u64
  sfPayload :: goany
  sfIsLast :: bool

definition StreamFrame_ToDict :: "StreamFrame \<Rightarrow> dict" where
  "StreamFrame_ToDict f =
     [(''anchor_id'', GStr (sfAnchorID f)), (''seq'', gu64 (sfSeq f)),
      (''payload'', sfPayload f), (''is_last'', GBool (sfIsLast f))]"

definition StreamFrameFromDict :: "dict \<Rightarrow> StreamFrame" where
  "StreamFrameFromDict d =
     \<lparr>sfAnchorID = str d ''anchor_id'', sfSeq = toUint64 (dget d ''seq''),
      sfPayload = dget d ''payload'', sfIsLast = bool_or_false (dget d ''is_last'')\<rparr>"

section \<open>CapsFrame\<close>

record CapsFrame =
  cfNodeID :: string
  cfCaps :: "string list"
  cfAnchorRef :: "string option"
  cfCount :: u64
  cfData :: "goany list option"
  cfNextCursor :: "string option"
  cfTokenEst :: "u64 option"
  cfCached :: "bool option"
  cfTokenizerUsed :: "string option"
  cfRequestID :: "string option"
  cfPayload :: goany

definition data_len :: "goany list option \<Rightarrow> u64" where
  "data_len v = of_nat (case v of None \<Rightarrow> 0 | Some xs \<Rightarrow> length xs)"

definition CapsFrame_ToDict :: "CapsFrame \<Rightarrow> dict" where
  "CapsFrame_ToDict f =
     (let d = [];
          d = (if cfNodeID f \<noteq> [] then dput ''node_id'' (GStr (cfNodeID f)) d else d);
          d = (if cfCaps f \<noteq> [] then dput ''caps'' (GStrs (cfCaps f)) d else d);
          d = put_opt ''anchor_ref'' GStr (cfAnchorRef f) d;
          d = (if cfData f \<noteq> None \<or> cfCount f \<noteq> 0
               then dput ''data'' (nil_or GList (cfData f))
                      (dput ''count'' (gu64 (if cfCount f = 0 then data_len (cfData f) else cfCount f)) d)
               else d);
          d = put_opt ''next_cursor'' GStr (cfNextCursor f) d;
          d = put_opt ''token_est'' gu64 (cfTokenEst f) d;
          d = put_opt ''cached'' GBool (cfCached f) d;
          d = put_opt ''tokenizer_used'' GStr (cfTokenizerUsed f) d;
          d = put_opt ''request_id'' GStr (cfRequestID f) d
      in if cfPayload f \<noteq> GNil then dput ''payload'' (cfPayload f) d else d)"

definition CapsFrameFromDict :: "dict \<Rightarrow> CapsFrame" where
  "CapsFrameFromDict d =
     \<lparr>cfNodeID = str d ''node_id'', cfCaps = strings_or_nil (dget d ''caps''),
      cfAnchorRef = optStr d ''anchor_ref'', cfCount = toUint64 (dget d ''count''),
      cfData = anySlice (dget d ''data''), cfNextCursor = optStr d ''next_cursor'',
      cfTokenEst = optUint64Ptr d ''token_est'', cfCached = optBoolPtr d ''cached'',
      cfTokenizerUsed = optStr d ''tokenizer_used'', cfRequestID = optStr d ''request_id'',
      cfPayload = dget d ''payload''\<rparr>"

definition NewCapsFrame :: "string \<Rightarrow> goany list option \<Rightarrow> CapsFrame" where
  "NewCapsFrame anchorRef data =
     \<lparr>cfNodeID = [], cfCaps = [], cfAnchorRef = Some anchorRef, cfCount = data_len data,
      cfData = data, cfNextCursor = None, cfTokenEst = None, cfCached = None,
      cfTokenizerUsed = None, cfRequestID = None, cfPayload = GNil\<rparr>"

section \<open>HelloFrame, NopFrame, ErrorFrame\<close>

record HelloFrame =
  hfNpsVersion :: string
  hfSupportedEncodings :: "string list"
  hfSupportedProtocols :: "string list"
  hfMinVersion :: "string option"
  hfAgentID :: "string option"
  hfMaxFramePayload :: u64
  hfExtSupport :: bool
  hfMaxConcurrentStreams :: u64
  hfE2eEncAlgorithms :: "string list option"
  hfPingIntervalMs :: u64

definition HelloDefaultMaxFramePayload :: u64 where "HelloDefaultMaxFramePayload = 0xFFFF"
definition HelloDefaultMaxConcurrentStreams :: u64 where "HelloDefaultMaxConcurrentStreams = 32"

definition or_default :: "u64 \<Rightarrow> u64 \<Rightarrow> u64" where
  "or_default def w = (if w = 0 then def else w)"

definition HelloFrame_ToDict :: "HelloFrame \<Rightarrow> dict" where
  "HelloFrame_ToDict f =
     (let d = [(''nps_version'', GStr (hfNpsVersion f)),
               (''supported_encodings'', GStrs (hfSupportedEncodings f)),
               (''supported_protocols'', GStrs (hfSupportedProtocols f)),
               (''max_frame_payload'', gu64 (or_default HelloDefaultMaxFramePayload (hfMaxFramePayload f))),
               (''ext_support'', GBool (hfExtSupport f)),
               (''max_concurrent_streams'',
                  gu64 (or_default HelloDefaultMaxConcurrentStreams (hfMaxConcurrentStreams f)))];
          d = put_opt ''min_version'' GStr (hfMinVersion f) d;
          d = put_opt ''agent_id'' GStr (hfAgentID f) d;
          d = put_opt ''e2e_enc_algorithms'' GStrs (hfE2eEncAlgorithms f) d
      in if hfPingIntervalMs f > 0 then dput ''ping_interval_ms'' (gu64 (hfPingIntervalMs f)) d else d)"

definition HelloFrameFromDict :: "dict \<Rightarrow> HelloFrame" where
  "HelloFrameFromDict d =
     \<lparr>hfNpsVersion = str d ''nps_version'',
      hfSupportedEncodings = strings_or_nil (dget d ''supported_encodings''),
      hfSupportedProtocols = strings_or_nil (dget d ''supported_protocols''),
      hfMinVersion = optStr d ''min_version'',
      hfAgentID = optStr d ''agent_id'',
      hfMaxFramePayload = or_default HelloDefaultMaxFramePayload (toUint64 (dget d ''max_frame_payload'')),
      hfExtSupport = bool_or_false (dget d ''ext_support''),
      hfMaxConcurrentStreams =
        or_default HelloDefaultMaxConcurrentStreams (toUint64 (dget d ''max_concurrent_streams'')),
      hfE2eEncAlgorithms = (if dhas d ''e2e_enc_algorithms''
                            then asStringSlice (dget d ''e2e_enc_algorithms'') else None),
      hfPingIntervalMs = toUint64 (dget d ''ping_interval_ms'')\<rparr>"

definition NopFrame_ToDict :: dict where
  "NopFrame_ToDict = []"

record ErrorFrame =
  efErrorCode :: string
  efMessage :: string
  efDetail :: goany

definition ErrorFrame_ToDict :: "ErrorFrame \<Rightarrow> dict" where
  "ErrorFrame_ToDict f =
     (let d = [(''error_code'', GStr (efErrorCode f)), (''message'', GStr (efMessage f))]
      in if efDetail f \<noteq> GNil then dput ''detail'' (efDetail f) d else d)"

definition ErrorFrameFromDict :: "dict \<Rightarrow> ErrorFrame" where
  "ErrorFrameFromDict d =
     \<lparr>efErrorCode = str d ''error_code'', efMessage = str d ''message'', efDetail = dget d ''detail''\<rparr>"


section \<open>Dictionary round trips\<close>

lemma dget_put_opt [simp, dict_simps]:
  "dget (put_opt k f v d) j =
     (if j = k then (case v of None \<Rightarrow> dget d j | Some x \<Rightarrow> f x) else dget d j)"
  by (cases v) (auto simp: put_opt_def)

lemma dhas_put_opt [simp, dict_simps]:
  "dhas (put_opt k f v d) j \<longleftrightarrow> (j = k \<and> v \<noteq> None) \<or> dhas d j"
  by (cases v) (auto simp: put_opt_def)

lemma read_back [simp]:
  "asFrameDict (nil_or GMap m) = m" "anySlice (nil_or GList xs) = xs"
  "toUint64 (gu64 w) = w" "strings_or_nil (GStrs ss) = ss" "strings_or_nil GNil = []"
  "bool_or_false (GBool b) = b"
  by (cases m; cases xs; auto simp: nil_or_def strings_or_nil_def bool_or_false_def)+

lemma strings_in_GStr [simp]: "strings_in (map GStr ss) = ss"
  by (induction ss) auto


lemma DiffFrame_roundtrip: "DiffFrameFromDict (DiffFrame_ToDict f) = f"
  by (cases f) (auto simp: DiffFrameFromDict_def DiffFrame_ToDict_def str_def nil_or_def split: option.split)

lemma StreamFrame_roundtrip: "StreamFrameFromDict (StreamFrame_ToDict f) = f"
  by (cases f) (simp add: StreamFrameFromDict_def StreamFrame_ToDict_def str_def)

lemma ErrorFrame_roundtrip: "ErrorFrameFromDict (ErrorFrame_ToDict f) = f"
  by (cases f) (simp add: ErrorFrameFromDict_def ErrorFrame_ToDict_def str_def Let_def)

text \<open>A capability frame keeps everything when its count is that of its data.\<close>

lemma CapsFrame_roundtrip:
  "cfCount f = data_len (cfData f) \<Longrightarrow> CapsFrameFromDict (CapsFrame_ToDict f) = f"
  by (rule CapsFrame.equality)
     (simp_all add: CapsFrameFromDict_def CapsFrame_ToDict_def str_def optStr_def Let_def
      optUint64Ptr_def optBoolPtr_def data_len_def split: option.split)

definition hello_norm :: "HelloFrame \<Rightarrow> HelloFrame" where
  "hello_norm f = f\<lparr>hfMaxFramePayload := or_default HelloDefaultMaxFramePayload (hfMaxFramePayload f),
     hfMaxConcurrentStreams := or_default HelloDefaultMaxConcurrentStreams (hfMaxConcurrentStreams f)\<rparr>"

lemma or_default_idem [simp]: "def \<noteq> 0 \<Longrightarrow> or_default def (or_default def w) = or_default def w"
  by (simp add: or_default_def)

lemma AnchorFrame_roundtrip:
  "AnchorFrameFromDict (AnchorFrame_ToDict f) = f\<lparr>afTTL := or_default 3600 (afTTL f)\<rparr>"
  by (rule AnchorFrame.equality)
     (simp_all add: AnchorFrameFromDict_def AnchorFrame_ToDict_def str_def optStr_def Let_def
      or_default_def split: option.split)

lemma hello_defaults_nonzero [simp]:
  "HelloDefaultMaxFramePayload \<noteq> 0" "HelloDefaultMaxConcurrentStreams \<noteq> 0"
  by (simp_all add: HelloDefaultMaxFramePayload_def HelloDefaultMaxConcurrentStreams_def)

lemma HelloFrame_roundtrip: "HelloFrameFromDict (HelloFrame_ToDict f) = hello_norm f"
  by (rule HelloFrame.equality)
     (simp_all add: HelloFrameFromDict_def HelloFrame_ToDict_def hello_norm_def str_def
      optStr_def Let_def word_gt_0 split: option.split)

section \<open>Dictionaries that come off the JSON wire\<close>

lemma dget_jnorm:
  assumes "distinct (map fst d)"
  shows "dget (sort_key fst (map (\<lambda>(k, v). (k, jnorm F v)) d)) k = jnorm F (dget d k)"
    and "dhas (sort_key fst (map (\<lambda>(k, v). (k, jnorm F v)) d)) k = dhas d k"
proof -
  have "map_of (sort_key fst (map (\<lambda>(k, v). (k, jnorm F v)) d)) k = map_option (jnorm F) (map_of d k)"
    using assms by (subst map_of_sort_key) (auto simp: comp_def case_prod_unfold map_of_map [unfolded case_prod_unfold])
  then show "dget (sort_key fst (map (\<lambda>(k, v). (k, jnorm F v)) d)) k = jnorm F (dget d k)"
    "dhas (sort_key fst (map (\<lambda>(k, v). (k, jnorm F v)) d)) k = dhas d k"
    by (simp_all add: dget_def dhas_def split: option.split)
qed

lemma jnorm_read:
  "str (sort_key fst (map (\<lambda>(k, v). (k, jnorm F v)) d)) k = str d k"
  if "distinct (map fst d)"
  using that by (cases "dget d k") (auto simp: str_def dget_jnorm lit64_def)

lemma jnorm_read_opt:
  "optStr (sort_key fst (map (\<lambda>(k, v). (k, jnorm F v)) d)) k = optStr d k"
  if "distinct (map fst d)"
  using that by (cases "dget d k") (auto simp: optStr_def dget_jnorm lit64_def)

lemma distinct_put_opt [simp]: "distinct (map fst d) \<Longrightarrow> distinct (map fst (put_opt k f v d))"
  by (cases v) (simp_all add: put_opt_def distinct_update)

lemma json_wf_dput:
  assumes "json_wf F n (GMap d)" and "utf8_valid k" and "json_wf F (n - 1) v"
  shows "json_wf F n (GMap (dput k v d))"
proof -
  have "set (dput k v d) \<subseteq> insert (k, v) (set d)" by (induction d) auto
  then show ?thesis using assms by (auto simp: distinct_update list_all_iff)
qed

lemma json_wf_put_opt:
  assumes "json_wf F n (GMap d)" and "utf8_valid k" and "\<And>x. v = Some x \<Longrightarrow> json_wf F (n - 1) (f x)"
  shows "json_wf F n (GMap (put_opt k f v d))"
  using assms json_wf_dput by (cases v) (simp_all add: put_opt_def del: json_wf.simps)


text \<open>A handshake frame whose text is well-formed UTF-8 and whose numbers a \<open>float64\<close> holds.\<close>

definition hello_ok :: "HelloFrame \<Rightarrow> bool" where
  "hello_ok f \<longleftrightarrow> utf8_valid (hfNpsVersion f)
     \<and> list_all utf8_valid (hfSupportedEncodings f) \<and> list_all utf8_valid (hfSupportedProtocols f)
     \<and> pred_option utf8_valid (hfMinVersion f) \<and> pred_option utf8_valid (hfAgentID f)
     \<and> pred_option (list_all utf8_valid) (hfE2eEncAlgorithms f)
     \<and> uint (hfMaxFramePayload f) < 2 ^ 53 \<and> uint (hfMaxConcurrentStreams f) < 2 ^ 53
     \<and> uint (hfPingIntervalMs f) < 2 ^ 53"

lemma uint_u64_bound [simp]: "uint (w :: u64) < 18446744073709551616"
  using uint_bounded [of w] by simp

lemma hello_json_wf:
  assumes "hello_ok f"
  shows "json_wf F 10000 (GMap (HelloFrame_ToDict f))"
proof -
  let ?d0 = "[(''nps_version'', GStr (hfNpsVersion f)),
      (''supported_encodings'', GStrs (hfSupportedEncodings f)),
      (''supported_protocols'', GStrs (hfSupportedProtocols f)),
      (''max_frame_payload'', gu64 (or_default HelloDefaultMaxFramePayload (hfMaxFramePayload f))),
      (''ext_support'', GBool (hfExtSupport f)),
      (''max_concurrent_streams'',
         gu64 (or_default HelloDefaultMaxConcurrentStreams (hfMaxConcurrentStreams f)))]"
  let ?d1 = "put_opt ''e2e_enc_algorithms'' GStrs (hfE2eEncAlgorithms f)
      (put_opt ''agent_id'' GStr (hfAgentID f) (put_opt ''min_version'' GStr (hfMinVersion f) ?d0))"
  have "json_wf F 10000 (GMap ?d0)"
    using assms by (simp add: hello_ok_def utf8_ascii del: utf8_valid.simps)
  then have "json_wf F 10000 (GMap ?d1)"
    using assms by (intro json_wf_put_opt) (auto simp: hello_ok_def utf8_ascii simp del: utf8_valid.simps)
  then show ?thesis
    using json_wf_dput [of F 10000 ?d1 "''ping_interval_ms''" "gu64 (hfPingIntervalMs f)"]
    by (simp add: HelloFrame_ToDict_def Let_def utf8_ascii del: json_wf.simps(9) utf8_valid.simps)
qed

lemma distinct_HelloFrame_ToDict [simp]: "distinct (map fst (HelloFrame_ToDict f))"
  by (simp add: HelloFrame_ToDict_def Let_def distinct_update)

lemma toUint64_jnorm: "uint w < 2 ^ 53 \<Longrightarrow> toUint64 (jnorm F (gu64 w)) = w"
  by (simp add: f64_to_u64_of_int)

lemma or_default_bound:
  "uint def < 2 ^ 53 \<Longrightarrow> uint w < 2 ^ 53 \<Longrightarrow> uint (or_default def w) < 2 ^ 53"
  by (simp add: or_default_def)

lemma strings_jnorm [simp]:
  "strings_or_nil (jnorm F (GStrs ss)) = ss" "asStringSlice (jnorm F (GStrs ss)) = Some ss"
  by (simp_all add: strings_or_nil_def)

lemma dget_Hello:
  "dget (HelloFrame_ToDict f) ''nps_version'' = GStr (hfNpsVersion f)"
  "dget (HelloFrame_ToDict f) ''supported_encodings'' = GStrs (hfSupportedEncodings f)"
  "dget (HelloFrame_ToDict f) ''supported_protocols'' = GStrs (hfSupportedProtocols f)"
  "dget (HelloFrame_ToDict f) ''max_frame_payload''
     = gu64 (or_default HelloDefaultMaxFramePayload (hfMaxFramePayload f))"
  "dget (HelloFrame_ToDict f) ''ext_support'' = GBool (hfExtSupport f)"
  "dget (HelloFrame_ToDict f) ''max_concurrent_streams''
     = gu64 (or_default HelloDefaultMaxConcurrentStreams (hfMaxConcurrentStreams f))"
  "dget (HelloFrame_ToDict f) ''min_version'' = nil_or GStr (hfMinVersion f)"
  "dget (HelloFrame_ToDict f) ''agent_id'' = nil_or GStr (hfAgentID f)"
  "dget (HelloFrame_ToDict f) ''e2e_enc_algorithms'' = nil_or GStrs (hfE2eEncAlgorithms f)"
  "dget (HelloFrame_ToDict f) ''ping_interval_ms''
     = (if hfPingIntervalMs f = 0 then GNil else gu64 (hfPingIntervalMs f))"
  "dhas (HelloFrame_ToDict f) ''e2e_enc_algorithms'' \<longleftrightarrow> hfE2eEncAlgorithms f \<noteq> None"
  by (simp_all add: HelloFrame_ToDict_def Let_def nil_or_def word_gt_0 split: option.split)

lemma hello_from_json:
  assumes "hello_ok f"
  shows "HelloFrameFromDict (sort_key fst (map (\<lambda>(k, v). (k, jnorm F v)) (HelloFrame_ToDict f)))
           = hello_norm f"
    (is "HelloFrameFromDict ?d = _")
proof -
  note rd = dget_jnorm [OF distinct_HelloFrame_ToDict, of F f]
  have num: "toUint64 (dget ?d ''max_frame_payload'') = or_default HelloDefaultMaxFramePayload (hfMaxFramePayload f)"
    "toUint64 (dget ?d ''max_concurrent_streams'')
       = or_default HelloDefaultMaxConcurrentStreams (hfMaxConcurrentStreams f)"
    "toUint64 (dget ?d ''ping_interval_ms'') = hfPingIntervalMs f"
    using assms
    by (simp_all add: rd dget_Hello toUint64_jnorm or_default_bound [simplified] hello_ok_def
        HelloDefaultMaxFramePayload_def HelloDefaultMaxConcurrentStreams_def del: jnorm.simps(3))
  show ?thesis
    by (rule HelloFrame.equality)
       (simp_all add: HelloFrameFromDict_def num hello_norm_def,
        simp_all add: rd dget_Hello str_def optStr_def nil_or_def strings_or_nil_def split: option.split)
qed


section \<open>Properties\<close>

text \<open>C25: A handshake frame that is encoded with the JSON tier and decoded at the other end is the
  frame that was sent, with the payload and stream limits filled in where they were zero:
  versions, encodings, protocols, optional fields and numbers below \<open>2 ^ 53\<close> all survive.\<close>

theorem hello_wire_roundtrip:
  assumes "hello_ok f" and "codec_ok c FrameTypeHello"
  shows "case Encode S c FrameTypeHello (HelloFrame_ToDict f) EncodingTierJSON fin of
      Inr wire \<Rightarrow> \<exists>d. Decode S c (wire @ rest) = Inr (FrameTypeHello, d)
                    \<and> HelloFrameFromDict d = hello_norm f
    | Inl e \<Rightarrow> \<exists>p. encodePayload S (HelloFrame_ToDict f) EncodingTierJSON = Inr p
                 \<and> MaxPayload c < int (length p)"
  using json_encode_decode [OF hello_json_wf [OF assms(1)] assms(2), where S = S and fin = fin and rest = rest]
    hello_from_json [OF assms(1)]
  by (auto split: sum.splits)

definition sample_hello :: HelloFrame where
  "sample_hello = \<lparr>hfNpsVersion = ''0.11'', hfSupportedEncodings = [''msgpack'', ''json''],
     hfSupportedProtocols = [''ncp'', ''nwp''], hfMinVersion = Some ''0.1'', hfAgentID = None,
     hfMaxFramePayload = 0, hfExtSupport = True, hfMaxConcurrentStreams = 8,
     hfE2eEncAlgorithms = None, hfPingIntervalMs = 500\<rparr>"

definition sample_full_codec :: NpsFrameCodec where
  "sample_full_codec = NewNpsFrameCodec CreateFullRegistry"

lemma sample_full_codec_ok: "codec_ok sample_full_codec FrameTypeHello"
proof -
  have "IsRegistered CreateFullRegistry FrameTypeHello" by code_simp
  then show ?thesis
    by (simp add: codec_ok_def sample_full_codec_def NewNpsFrameCodec_def DefaultMaxPayload_def
        knownFrameTypes_def)
qed

lemma sample_hello_ok: "hello_ok sample_hello"
  by (simp add: hello_ok_def sample_hello_def utf8_ascii del: utf8_valid.simps)

theorem hello_wire_roundtrip_witness:
  "case Encode sample_serializers sample_full_codec FrameTypeHello (HelloFrame_ToDict sample_hello)
        EncodingTierJSON True of
      Inr wire \<Rightarrow> \<exists>d. Decode sample_serializers sample_full_codec (wire @ [5]) = Inr (FrameTypeHello, d)
                    \<and> HelloFrameFromDict d = hello_norm sample_hello
    | Inl e \<Rightarrow> \<exists>p. encodePayload sample_serializers (HelloFrame_ToDict sample_hello) EncodingTierJSON
                   = Inr p \<and> MaxPayload sample_full_codec < int (length p)"
  by (rule hello_wire_roundtrip [OF sample_hello_ok sample_full_codec_ok])

text \<open>Every NCP frame survives its dictionary: anchor frames with a lifetime, diff, stream
  and error frames as they are, and capability frames whose count is that of their data.  A
  lifetime of zero comes back as an hour.\<close>

theorem ncp_frames_dict_roundtrip:
  "AnchorFrameFromDict (AnchorFrame_ToDict a) = a\<lparr>afTTL := or_default 3600 (afTTL a)\<rparr>
   \<and> DiffFrameFromDict (DiffFrame_ToDict d) = d
   \<and> StreamFrameFromDict (StreamFrame_ToDict s) = s
   \<and> ErrorFrameFromDict (ErrorFrame_ToDict e) = e
   \<and> HelloFrameFromDict (HelloFrame_ToDict h) = hello_norm h
   \<and> CapsFrameFromDict (CapsFrame_ToDict (NewCapsFrame r xs)) = NewCapsFrame r xs"
  using AnchorFrame_roundtrip [of a] DiffFrame_roundtrip [of d] StreamFrame_roundtrip [of s]
    ErrorFrame_roundtrip [of e] HelloFrame_roundtrip [of h] CapsFrame_roundtrip [of "NewCapsFrame r xs"]
  by (simp add: NewCapsFrame_def)


lemma full_registry: "set CreateFullRegistry = set knownFrameTypes - {FrameTypeNop}"
  by code_simp

text \<open>The full registry holds every known frame type except the keepalive \<open>NopFrame\<close>: a codec
  with that registry decodes no keepalive frame, although the type byte is known.\<close>

theorem full_registry_lacks_nop:
  "(\<forall>ft. IsRegistered CreateFullRegistry ft \<longleftrightarrow> ft \<in> set knownFrameTypes \<and> ft \<noteq> FrameTypeNop)
   \<and> FrameTypeNop \<in> set knownFrameTypes
   \<and> Decode S (NewNpsFrameCodec CreateFullRegistry) (ToBytes (NewFrameHeader FrameTypeNop tier fin 0) @ rest)
       = Inl (ErrFrame ''unregistered frame type 0x07'')"
proof -
  have k: "FrameTypeNop \<in> set knownFrameTypes" by (simp add: knownFrameTypes_def)
  then have "ParseFrameHeader (ToBytes (NewFrameHeader FrameTypeNop tier fin 0) @ rest)
      = Inr (NewFrameHeader FrameTypeNop tier fin 0)"
    by (simp add: ParseFrameHeader_ToBytes NewFrameHeader_ok)
  moreover have "hex2 FrameTypeNop = ''07''" by code_simp
  ultimately show ?thesis
    using k by (simp add: Decode_def NewNpsFrameCodec_def IsRegistered_def full_registry)
qed

end
