(* ===== verification/Ncp_Handshake.thy ===== *)
theory Ncp_Handshake
  imports Ncp_Frames "HOL-Library.Sublist"
begin

text \<open>
  The parts of \<open>ncp\<close> that decide a native-mode handshake without doing I/O: the preamble
  (\<open>preamble.go\<close>), reading a frame header from a stream (\<open>frame_io.go\<close>), the portable
  handshake profile (\<open>handshake_profile.go\<close>), the encoding policy of a session
  (\<open>encoding_policy.go\<close>) and the patch formats of diff frames (\<open>patch_format.go\<close>).
  Protocol versions are ordered by an instance of the library's linear orders, which the
  comparison function of the code is shown to implement.
\<close>

section \<open>Preamble\<close>

definition PreambleLength :: nat where "PreambleLength = 8"

definition preambleBytes :: "byte list" where
  "preambleBytes = bytes_of (''NPS/1.0'' @ [CHR 0x0A])"

definition PreambleMatches :: "byte list \<Rightarrow> bool" where
  "PreambleMatches buf \<longleftrightarrow>
     \<not> length buf < PreambleLength \<and> list_all (\<lambda>i. buf ! i = preambleBytes ! i) [0 ..< PreambleLength]"

definition preamble_invalid :: "string \<Rightarrow> nps_error" where
  "preamble_invalid reason = ErrPlain (''NCP preamble invalid: '' @ reason)"

definition ValidatePreamble :: "byte list \<Rightarrow> unit res" where
  "ValidatePreamble buf =
     (if length buf < PreambleLength
      then Inl (preamble_invalid (''short read ('' @ dec (length buf) @ ''/'' @ dec PreambleLength
                  @ '' bytes); peer is not speaking NCP''))
      else if \<not> PreambleMatches buf
      then (if take 4 buf = bytes_of ''NPS/''
            then Inl (preamble_invalid
              ''future-major-version NPS preamble; close with NPS-PREAMBLE-UNSUPPORTED-VERSION diagnostic'')
            else Inl (preamble_invalid ''preamble mismatch; peer is not speaking NPS/1.x''))
      else Inr ())"

section \<open>Reading from a stream\<close>

text \<open>A reader is the list of bytes still to come; \<open>io.ReadFull\<close> fails with \<open>EOF\<close> when there are
  none and with \<open>ErrUnexpectedEOF\<close> when there are too few.\<close>

definition ReadFull :: "nat \<Rightarrow> byte list \<Rightarrow> byte list res \<times> byte list" where
  "ReadFull n s =
     (if n \<le> length s then (Inr (take n s), drop n s)
      else (Inl (if s = [] then ErrEOF else ErrUnexpectedEOF), []))"

definition ReadFrameHeader :: "byte list \<Rightarrow> FrameHeader res \<times> byte list" where
  "ReadFrameHeader r =
     (case ReadFull 2 r of
        (Inl e, r) \<Rightarrow> (Inl e, r)
      | (Inr peek, r) \<Rightarrow>
          let remaining = (if peek ! 1 AND 0x80 \<noteq> 0 then 8 - 2 else 4 - 2)
          in case ReadFull remaining r of
               (Inl e, r) \<Rightarrow> (Inl e, r)
             | (Inr rest, r) \<Rightarrow> (ParseFrameHeader (peek @ rest), r))"

section \<open>Protocol versions\<close>

datatype protocolVersion = PV (major: u64) (minor: u64)

instantiation protocolVersion :: linorder
begin

definition less_eq_protocolVersion :: "protocolVersion \<Rightarrow> protocolVersion \<Rightarrow> bool" where
  "less_eq_protocolVersion v w \<longleftrightarrow> major v < major w \<or> major v = major w \<and> minor v \<le> minor w"

definition less_protocolVersion :: "protocolVersion \<Rightarrow> protocolVersion \<Rightarrow> bool" where
  "less_protocolVersion v w \<longleftrightarrow> major v < major w \<or> major v = major w \<and> minor v < minor w"

instance
  by standard
     (auto simp: less_eq_protocolVersion_def less_protocolVersion_def intro: protocolVersion.expand)

end

definition version_string :: "protocolVersion \<Rightarrow> string" where
  "version_string v = dec (unat (major v)) @ ''.'' @ dec (unat (minor v))"

definition parseProtocolVersion :: "string \<Rightarrow> protocolVersion option" where
  "parseProtocolVersion value =
     (case split_on (CHR ''.'') value of
        [a, b] \<Rightarrow>
          (case ParseUint64 a of
             None \<Rightarrow> None
           | Some ma \<Rightarrow> (case ParseUint64 b of None \<Rightarrow> None | Some mi \<Rightarrow> Some (PV ma mi)))
      | _ \<Rightarrow> None)"

definition compareProtocolVersion :: "protocolVersion \<Rightarrow> protocolVersion \<Rightarrow> int" where
  "compareProtocolVersion l r =
     (if major l < major r \<or> (major l = major r \<and> minor l < minor r) then - 1
      else if l = r then 0 else 1)"

definition minProtocolVersion :: "protocolVersion \<Rightarrow> protocolVersion \<Rightarrow> protocolVersion" where
  "minProtocolVersion l r = (if compareProtocolVersion l r \<le> 0 then l else r)"

definition maxProtocolVersion :: "protocolVersion \<Rightarrow> protocolVersion \<Rightarrow> protocolVersion" where
  "maxProtocolVersion l r = (if compareProtocolVersion l r \<ge> 0 then l else r)"

section \<open>The handshake profile\<close>

record NcpHandshakeProfile =
  pMinVersion :: string
  pNpsVersion :: string
  pSupportedEncodings :: "string list"
  pSupportedProtocols :: "string list"
  pMaxFramePayload :: u64
  pExtSupport :: bool
  pMaxConcurrentStreams :: u64

definition DefaultNcpHandshakeProfile :: NcpHandshakeProfile where
  "DefaultNcpHandshakeProfile =
     \<lparr>pMinVersion = ''0.1'', pNpsVersion = ''0.11'',
      pSupportedEncodings = [''msgpack'', ''json'', ''binary_vector.v1''],
      pSupportedProtocols = [''ncp'', ''nwp'', ''nip'', ''ndp'', ''nop''],
      pMaxFramePayload = HelloDefaultMaxFramePayload, pExtSupport = False,
      pMaxConcurrentStreams = HelloDefaultMaxConcurrentStreams\<rparr>"

datatype NcpHandshakeAction =
    NcpHandshakeContinue | NcpHandshakeAccept | NcpHandshakeSilentClose | NcpHandshakeErrorClose

record NcpHandshakeDecision =
  nAction :: NcpHandshakeAction
  nStatus :: string
  nError :: string
  nDiagnosticError :: string
  nSessionVersion :: string
  nNegotiatedEncoding :: string
  nEnabledEncodings :: "string list"
  nSupportedProtocols :: "string list"
  nMaxFramePayload :: "u64 option"
  nExtSupport :: "bool option"
  nMaxConcurrentStreams :: "u64 option"

text \<open>The Go struct literal with only its action set.\<close>

definition decision :: "NcpHandshakeAction \<Rightarrow> NcpHandshakeDecision" where
  "decision a = \<lparr>nAction = a, nStatus = [], nError = [], nDiagnosticError = [], nSessionVersion = [],
     nNegotiatedEncoding = [], nEnabledEncodings = [], nSupportedProtocols = [],
     nMaxFramePayload = None, nExtSupport = None, nMaxConcurrentStreams = None\<rparr>"

definition EvaluatePreamble :: "byte list \<Rightarrow> int \<Rightarrow> int \<Rightarrow> NcpHandshakeDecision" where
  "EvaluatePreamble received elapsed timeout =
     (if timeout > 0 \<and> elapsed \<ge> timeout then decision NcpHandshakeSilentClose
      else if length received < PreambleLength then decision NcpHandshakeContinue
      else if \<not> PreambleMatches received
      then (decision NcpHandshakeSilentClose)\<lparr>nDiagnosticError := ''NCP-PREAMBLE-INVALID''\<rparr>
      else decision NcpHandshakeContinue)"

definition EvaluateHelloHeader :: "FrameHeader \<Rightarrow> int \<Rightarrow> int \<Rightarrow> u64 \<Rightarrow> NcpHandshakeDecision" where
  "EvaluateHelloHeader header elapsed timeout maxHelloPayload =
     (if timeout > 0 \<and> elapsed \<ge> timeout then decision NcpHandshakeSilentClose
      else if hFrameType header \<noteq> FrameTypeHello \<or> header_tier header \<noteq> EncodingTierJSON
              \<or> hFlags header AND 0x08 \<noteq> 0 \<or> hIsExtended header
              \<or> hPayloadLength header > maxHelloPayload
      then decision NcpHandshakeSilentClose
      else decision NcpHandshakeContinue)"

definition ncpVersionError :: NcpHandshakeDecision where
  "ncpVersionError = (decision NcpHandshakeErrorClose)
     \<lparr>nStatus := ''NPS-PROTO-VERSION-INCOMPATIBLE'', nError := ''NCP-VERSION-INCOMPATIBLE''\<rparr>"

definition containsToken :: "string list \<Rightarrow> string \<Rightarrow> bool" where
  "containsToken tokens want = list_ex (\<lambda>t. t = want) tokens"

fun common_protocols :: "string list \<Rightarrow> string list \<Rightarrow> string list \<Rightarrow> string list" where
  "common_protocols server seen [] = []"
| "common_protocols server seen (t # ts) =
     (if t \<in> set server \<and> t \<notin> set seen then t # common_protocols server (t # seen) ts
      else common_protocols server seen ts)"

definition version_window ::
  "NcpHandshakeProfile \<Rightarrow> HelloFrame \<Rightarrow> (protocolVersion \<times> protocolVersion) option" where
  "version_window server client =
     (case (parseProtocolVersion (pMinVersion server), parseProtocolVersion (pNpsVersion server),
            parseProtocolVersion (case hfMinVersion client of Some v \<Rightarrow> v | None \<Rightarrow> hfNpsVersion client),
            parseProtocolVersion (hfNpsVersion client)) of
        (Some serverMin, Some serverMax, Some clientMin, Some clientMax) \<Rightarrow>
          if compareProtocolVersion serverMin serverMax > 0 \<or> compareProtocolVersion clientMin clientMax > 0
          then None
          else let overlapMin = maxProtocolVersion serverMin clientMin;
                   overlapMax = minProtocolVersion serverMax clientMax
               in if compareProtocolVersion overlapMin overlapMax > 0 then None
                  else Some (overlapMin, overlapMax)
      | _ \<Rightarrow> None)"

definition NegotiateHandshake :: "NcpHandshakeProfile \<Rightarrow> HelloFrame \<Rightarrow> NcpHandshakeDecision" where
  "NegotiateHandshake server client =
     (case version_window server client of
        None \<Rightarrow> ncpVersionError
      | Some (overlapMin, overlapMax) \<Rightarrow>
          (case find (\<lambda>token. (token = ''msgpack'' \<or> token = ''json'')
                              \<and> token \<in> set (pSupportedEncodings server)) (hfSupportedEncodings client) of
             None \<Rightarrow> (decision NcpHandshakeErrorClose)
               \<lparr>nStatus := ''NPS-SERVER-ENCODING-UNSUPPORTED'', nError := ''NCP-ENCODING-UNSUPPORTED''\<rparr>
           | Some chosen \<Rightarrow>
               let protocols = common_protocols (pSupportedProtocols server) [] (hfSupportedProtocols client)
               in if ''ncp'' \<notin> set protocols \<or> hfMaxFramePayload client = 0 \<or> pMaxFramePayload server = 0
                     \<or> hfMaxConcurrentStreams client = 0 \<or> pMaxConcurrentStreams server = 0
                  then ncpVersionError
                  else (decision NcpHandshakeAccept)
                    \<lparr>nSessionVersion := version_string overlapMax,
                     nNegotiatedEncoding := chosen,
                     nEnabledEncodings := [chosen] @
                       (if ''binary_vector.v1'' \<in> set (pSupportedEncodings server)
                           \<and> containsToken (hfSupportedEncodings client) ''binary_vector.v1''
                        then [''binary_vector.v1''] else []),
                     nSupportedProtocols := protocols,
                     nMaxFramePayload := Some (min (hfMaxFramePayload client) (pMaxFramePayload server)),
                     nExtSupport := Some (hfExtSupport client \<and> pExtSupport server),
                     nMaxConcurrentStreams :=
                       Some (min (hfMaxConcurrentStreams client) (pMaxConcurrentStreams server))\<rparr>))"

section \<open>Encoding policy and patch formats\<close>

definition EncodingToken :: "EncodingTier \<Rightarrow> string" where
  "EncodingToken tier =
     (if tier = EncodingTierJSON then ''json''
      else if tier = EncodingTierMsgPack then ''msgpack''
      else if tier = EncodingTierBinaryVector then ''binary_vector.v1''
      else ''unknown:'' @ dec (unat tier))"

record NcpEncodingPolicy =
  DefaultTier :: EncodingTier
  BinaryVectorEnabled :: bool

definition EnabledEncodings :: "NcpEncodingPolicy \<Rightarrow> string list" where
  "EnabledEncodings p =
     (if BinaryVectorEnabled p then [EncodingToken (DefaultTier p), ''binary_vector.v1'']
      else [EncodingToken (DefaultTier p)])"

definition isBinaryVectorFrame :: "FrameType \<Rightarrow> bool" where
  "isBinaryVectorFrame frameType \<longleftrightarrow> frameType = FrameTypeQuery"

definition Allows :: "NcpEncodingPolicy \<Rightarrow> EncodingTier \<Rightarrow> FrameType \<Rightarrow> bool" where
  "Allows p tier frameType \<longleftrightarrow>
     (if tier = DefaultTier p then True
      else tier = EncodingTierBinaryVector \<and> BinaryVectorEnabled p \<and> isBinaryVectorFrame frameType)"

definition EnsureAllows :: "NcpEncodingPolicy \<Rightarrow> FrameHeader \<Rightarrow> unit res" where
  "EnsureAllows p header =
     (if Allows p (header_tier header) (hFrameType header) then Inr ()
      else Inl (ErrCodec (''frame type 0x'' @ hex2 (hFrameType header) @ '' used ''
                 @ EncodingToken (header_tier header)
                 @ '', but the negotiated session policy allows '' @ join_with '', '' (EnabledEncodings p))))"

definition NcpEncodingPolicyFromEnabledEncodings :: "EncodingTier \<Rightarrow> string list \<Rightarrow> NcpEncodingPolicy" where
  "NcpEncodingPolicyFromEnabledEncodings defaultTier enabled =
     \<lparr>DefaultTier = defaultTier, BinaryVectorEnabled = containsToken enabled ''binary_vector.v1''\<rparr>"

text \<open>The verb \<open>%q\<close> on text with nothing to escape.\<close>

definition quoted_verb :: "string \<Rightarrow> string" where
  "quoted_verb s = [CHR 0x22] @ s @ [CHR 0x22]"

definition ValidatePatchFormat :: "string \<Rightarrow> EncodingTier \<Rightarrow> unit res" where
  "ValidatePatchFormat patchFormat tier =
     (if patchFormat = ''json_patch'' then Inr ()
      else if patchFormat = ''binary_bitset''
      then (if tier \<noteq> EncodingTierMsgPack
            then Inl (ErrFrame (''patch format '' @ quoted_verb patchFormat
                   @ '' MUST only be used in Tier-2 (MsgPack) frames, got '' @ EncodingToken tier))
            else Inr ())
      else Inl (ErrFrame (''unsupported patch format '' @ quoted_verb patchFormat)))"


section \<open>Lemmas\<close>

lemma PreambleMatches_iff: "PreambleMatches buf \<longleftrightarrow> take 8 buf = preambleBytes"
proof -
  have "length preambleBytes = 8" by (simp add: preambleBytes_def bytes_of_def)
  then show ?thesis
    by (auto simp: PreambleMatches_def PreambleLength_def list_all_iff list_eq_iff_nth_eq min_def)
qed

definition header_need :: "byte list \<Rightarrow> nat" where
  "header_need s = (if s ! 1 AND 0x80 \<noteq> 0 then 8 else 4)"

text \<open>The two reads together take the header and nothing else.\<close>

lemma ReadFrameHeader_eq:
  "ReadFrameHeader s =
     (if length s < 2 then (Inl (if s = [] then ErrEOF else ErrUnexpectedEOF), [])
      else if length s < header_need s
      then (Inl (if length s = 2 then ErrEOF else ErrUnexpectedEOF), [])
      else (ParseFrameHeader (take (header_need s) s), drop (header_need s) s))"
proof (cases "length s < 2")
  case False
  then have *: "take 2 s @ take 2 (drop 2 s) = take 4 s" "take 2 s @ take 6 (drop 2 s) = take 8 s"
    by (simp_all flip: take_add)
  show ?thesis
    using False by (simp add: ReadFrameHeader_def ReadFull_def header_need_def Let_def *) auto
qed (auto simp: ReadFrameHeader_def ReadFull_def)

lemma ParseFrameHeader_need:
  "ParseFrameHeader s = Inr h \<Longrightarrow> HeaderSize h = header_need s \<and> header_need s \<le> length s"
  by (auto simp: ParseFrameHeader_def FrameTypeFromByte_def HeaderSize_def header_need_def Let_def
      split: if_splits)

lemma ParseFrameHeader_take: "header_need s \<le> length s \<Longrightarrow> ParseFrameHeader (take (header_need s) s) = ParseFrameHeader s"
  by (cases "FrameTypeFromByte (s ! 0)") (simp_all add: ParseFrameHeader_def header_need_def Let_def drop_take)

lemma ReadFrameHeader_Inr:
  "ReadFrameHeader s = (Inr h, r) \<longleftrightarrow> ParseFrameHeader s = Inr h \<and> r = drop (HeaderSize h) s"
proof (cases "2 \<le> length s \<and> header_need s \<le> length s")
  case True
  then show ?thesis
    using ParseFrameHeader_need [of s h] by (auto simp: ReadFrameHeader_eq ParseFrameHeader_take)
next
  case False
  then have "ParseFrameHeader s \<noteq> Inr h"
    using ParseFrameHeader_need [of s h] by (auto simp: header_need_def split: if_splits)
  with False show ?thesis by (auto simp: ReadFrameHeader_eq)
qed

lemma compare_le:
  "compareProtocolVersion l r > 0 \<longleftrightarrow> r < l" "compareProtocolVersion l r \<le> 0 \<longleftrightarrow> l \<le> r"
  "compareProtocolVersion l r \<ge> 0 \<longleftrightarrow> r \<le> l"
  by (cases l; cases r; auto simp: compareProtocolVersion_def less_protocolVersion_def
      less_eq_protocolVersion_def)+

lemma minmax_version:
  "minProtocolVersion l r = min l r" "maxProtocolVersion l r = max l r"
  by (auto simp: minProtocolVersion_def maxProtocolVersion_def compare_le min_def max_def)

lemma parse_version_string: "parseProtocolVersion (version_string v) = Some v"
proof -
  have "split_on (CHR ''.'') (version_string v) = [dec (unat (major v)), dec (unat (minor v))]"
    by (simp add: version_string_def split_on_append split_on_fresh dec_no_dot)
  then show ?thesis by (simp add: parseProtocolVersion_def ParseUint64_dec_unat)
qed


text \<open>What the protocol loop collects: the common tokens, each once, in the client's order.\<close>

lemma common_protocols_set:
  "set (common_protocols server seen ts) = (set ts \<inter> set server) - set seen"
  by (induction ts arbitrary: seen) auto

lemma common_protocols_distinct: "distinct (common_protocols server seen ts)"
  by (induction ts arbitrary: seen) (auto simp: common_protocols_set)

lemma common_protocols_subseq: "subseq (common_protocols server seen ts) ts"
  by (induction ts arbitrary: seen) auto

lemma version_window_Some:
  "version_window server client = Some (lo, hi) \<longleftrightarrow>
     (\<exists>a b c d. parseProtocolVersion (pMinVersion server) = Some a
        \<and> parseProtocolVersion (pNpsVersion server) = Some b
        \<and> parseProtocolVersion (case hfMinVersion client of Some v \<Rightarrow> v | None \<Rightarrow> hfNpsVersion client) = Some c
        \<and> parseProtocolVersion (hfNpsVersion client) = Some d
        \<and> a \<le> b \<and> c \<le> d \<and> lo = max a c \<and> hi = min b d \<and> lo \<le> hi)"
  by (auto simp: version_window_def compare_le minmax_version Let_def not_less not_le
      min_less_iff_disj less_max_iff_disj split: option.splits dest: leD)

text \<open>The versions both ends accept: the server's range and the client's, which is a single
  version when the client names no minimum.\<close>

definition in_both :: "NcpHandshakeProfile \<Rightarrow> HelloFrame \<Rightarrow> protocolVersion \<Rightarrow> bool" where
  "in_both server client v \<longleftrightarrow>
     (\<exists>a b c d. parseProtocolVersion (pMinVersion server) = Some a
        \<and> parseProtocolVersion (pNpsVersion server) = Some b
        \<and> parseProtocolVersion (case hfMinVersion client of Some v \<Rightarrow> v | None \<Rightarrow> hfNpsVersion client) = Some c
        \<and> parseProtocolVersion (hfNpsVersion client) = Some d
        \<and> a \<le> v \<and> v \<le> b \<and> c \<le> v \<and> v \<le> d)"

lemma version_window_in_both:
  "version_window server client = Some (lo, hi) \<Longrightarrow> in_both server client v \<longleftrightarrow> lo \<le> v \<and> v \<le> hi"
  by (auto simp: version_window_Some in_both_def)

lemma version_window_None:
  "version_window server client = None \<Longrightarrow> \<not> in_both server client v"
proof
  assume n: "version_window server client = None" and "in_both server client v"
  then obtain a b c d where p: "parseProtocolVersion (pMinVersion server) = Some a"
    "parseProtocolVersion (pNpsVersion server) = Some b"
    "parseProtocolVersion (case hfMinVersion client of Some v \<Rightarrow> v | None \<Rightarrow> hfNpsVersion client) = Some c"
    "parseProtocolVersion (hfNpsVersion client) = Some d" "a \<le> v" "v \<le> b" "c \<le> v" "v \<le> d"
    by (auto simp: in_both_def)
  then have "a \<le> b" "c \<le> d" "max a c \<le> min b d" by auto
  with p have "version_window server client = Some (max a c, min b d)"
    by (subst version_window_Some) blast
  with n show False by simp
qed

definition stable_token :: "NcpHandshakeProfile \<Rightarrow> string \<Rightarrow> bool" where
  "stable_token server t \<longleftrightarrow> (t = ''msgpack'' \<or> t = ''json'') \<and> t \<in> set (pSupportedEncodings server)"

definition limits_ok :: "NcpHandshakeProfile \<Rightarrow> HelloFrame \<Rightarrow> bool" where
  "limits_ok server client \<longleftrightarrow>
     ''ncp'' \<in> set (hfSupportedProtocols client) \<and> ''ncp'' \<in> set (pSupportedProtocols server)
     \<and> hfMaxFramePayload client \<noteq> 0 \<and> pMaxFramePayload server \<noteq> 0
     \<and> hfMaxConcurrentStreams client \<noteq> 0 \<and> pMaxConcurrentStreams server \<noteq> 0"

lemma containsToken_iff: "containsToken ts t \<longleftrightarrow> t \<in> set ts"
  by (auto simp: containsToken_def list_ex_iff)

lemma decision_simps [simp]: "nAction (decision a) = a" "nStatus (decision a) = []" "nError (decision a) = []"
  "nDiagnosticError (decision a) = []"
  by (simp_all add: decision_def)

lemma Negotiate_window:
  assumes "version_window server client = Some (lo, hi)"
  shows "NegotiateHandshake server client =
     (case find (stable_token server) (hfSupportedEncodings client) of
        None \<Rightarrow> (decision NcpHandshakeErrorClose)
          \<lparr>nStatus := ''NPS-SERVER-ENCODING-UNSUPPORTED'', nError := ''NCP-ENCODING-UNSUPPORTED''\<rparr>
      | Some chosen \<Rightarrow>
          if \<not> limits_ok server client then ncpVersionError
          else (decision NcpHandshakeAccept)
            \<lparr>nSessionVersion := version_string hi,
             nNegotiatedEncoding := chosen,
             nEnabledEncodings := [chosen] @
               (if ''binary_vector.v1'' \<in> set (pSupportedEncodings server)
                   \<and> ''binary_vector.v1'' \<in> set (hfSupportedEncodings client)
                then [''binary_vector.v1''] else []),
             nSupportedProtocols := common_protocols (pSupportedProtocols server) [] (hfSupportedProtocols client),
             nMaxFramePayload := Some (min (hfMaxFramePayload client) (pMaxFramePayload server)),
             nExtSupport := Some (hfExtSupport client \<and> pExtSupport server),
             nMaxConcurrentStreams :=
               Some (min (hfMaxConcurrentStreams client) (pMaxConcurrentStreams server))\<rparr>)"
proof -
  have "stable_token server = (\<lambda>token. (token = ''msgpack'' \<or> token = ''json'')
      \<and> token \<in> set (pSupportedEncodings server))"
    by (rule ext) (simp add: stable_token_def)
  then have "find (\<lambda>token. (token = ''msgpack'' \<or> token = ''json'')
      \<and> token \<in> set (pSupportedEncodings server)) (hfSupportedEncodings client)
      = find (stable_token server) (hfSupportedEncodings client)" by simp
  moreover have "(''ncp'' \<notin> set (common_protocols (pSupportedProtocols server) [] (hfSupportedProtocols client))
      \<or> hfMaxFramePayload client = 0 \<or> pMaxFramePayload server = 0
      \<or> hfMaxConcurrentStreams client = 0 \<or> pMaxConcurrentStreams server = 0) \<longleftrightarrow> \<not> limits_ok server client"
    by (auto simp: limits_ok_def common_protocols_set)
  ultimately show ?thesis
    unfolding NegotiateHandshake_def assms Let_def
    by (simp only: option.case prod.case containsToken_iff)
qed

lemma accept_fields:
  assumes "nAction (NegotiateHandshake server client) = NcpHandshakeAccept"
  obtains lo hi chosen where "version_window server client = Some (lo, hi)"
    and "find (stable_token server) (hfSupportedEncodings client) = Some chosen"
    and "nSessionVersion (NegotiateHandshake server client) = version_string hi"
    and "nNegotiatedEncoding (NegotiateHandshake server client) = chosen"
    and "set (nEnabledEncodings (NegotiateHandshake server client)) \<subseteq> {chosen, ''binary_vector.v1''}"
    and "nSupportedProtocols (NegotiateHandshake server client)
          = common_protocols (pSupportedProtocols server) [] (hfSupportedProtocols client)"
    and "nMaxFramePayload (NegotiateHandshake server client)
          = Some (min (hfMaxFramePayload client) (pMaxFramePayload server))"
    and "nMaxConcurrentStreams (NegotiateHandshake server client)
          = Some (min (hfMaxConcurrentStreams client) (pMaxConcurrentStreams server))"
    and "nExtSupport (NegotiateHandshake server client) = Some (hfExtSupport client \<and> pExtSupport server)"
proof (cases "version_window server client")
  case None
  then show ?thesis using assms by (simp add: NegotiateHandshake_def ncpVersionError_def)
next
  case (Some w)
  obtain lo hi where w: "version_window server client = Some (lo, hi)" using Some by (cases w) auto
  show ?thesis
  proof (cases "find (stable_token server) (hfSupportedEncodings client)")
    case None
    then show ?thesis using assms w by (simp add: Negotiate_window)
  next
    case (Some chosen)
    then have "limits_ok server client"
      using assms w by (auto simp: Negotiate_window ncpVersionError_def split: if_splits)
    then show ?thesis using w Some by (intro that) (auto simp: Negotiate_window)
  qed
qed

section \<open>Properties\<close>

text \<open>C26: Reading a header from a stream gives what the stream's bytes parse to and stops right
  after the header; a stream that ends inside the header gives \<open>EOF\<close> or \<open>ErrUnexpectedEOF\<close>.\<close>

theorem read_frame_header_spec:
  "case ReadFrameHeader s of
     (Inr h, r) \<Rightarrow> ParseFrameHeader s = Inr h \<and> s = take (HeaderSize h) s @ r
   | (Inl e, r) \<Rightarrow>
       (if 2 \<le> length s \<and> header_need s \<le> length s
        then ParseFrameHeader s = Inl e \<and> r = drop (header_need s) s
        else e \<in> {ErrEOF, ErrUnexpectedEOF} \<and> r = [] \<and> \<not> is_ok (ParseFrameHeader s))"
proof -
  obtain x r where x: "ReadFrameHeader s = (x, r)" by fastforce
  show ?thesis
  proof (cases x)
    case (Inr h)
    then show ?thesis using x ReadFrameHeader_Inr [of s h r] by simp
  next
    case (Inl e)
    then have "ParseFrameHeader s \<noteq> Inr h" for h
      using x ReadFrameHeader_Inr [of s h "drop (HeaderSize h) s"] by auto
    then have "\<not> is_ok (ParseFrameHeader s)" by (auto simp: is_ok_iff)
    with Inl x show ?thesis by (auto simp: ReadFrameHeader_eq ParseFrameHeader_take split: if_splits)
  qed
qed


text \<open>C27: The outcome of a negotiation.  It is accepted exactly when some version lies in both
  ranges, some stable encoding is common, both ends speak \<open>ncp\<close> and no limit is zero; when only
  the encoding is missing it closes with the encoding error, and otherwise with the version
  error.\<close>

theorem negotiate_outcome:
  "nAction (NegotiateHandshake server client) =
     (if (\<exists>v. in_both server client v) \<and> list_ex (stable_token server) (hfSupportedEncodings client)
         \<and> limits_ok server client
      then NcpHandshakeAccept else NcpHandshakeErrorClose)
   \<and> nError (NegotiateHandshake server client) =
     (if nAction (NegotiateHandshake server client) = NcpHandshakeAccept then []
      else if (\<exists>v. in_both server client v) \<and> \<not> list_ex (stable_token server) (hfSupportedEncodings client)
      then ''NCP-ENCODING-UNSUPPORTED'' else ''NCP-VERSION-INCOMPATIBLE'')"
proof (cases "version_window server client")
  case None
  then show ?thesis
    using version_window_None by (simp add: NegotiateHandshake_def ncpVersionError_def)
next
  case (Some w)
  obtain lo hi where w: "w = (lo, hi)" by fastforce
  then have ver: "\<exists>v. in_both server client v"
    using Some version_window_in_both [of server client lo hi lo] by (auto simp: version_window_Some)
  have "list_ex (stable_token server) (hfSupportedEncodings client)
      \<longleftrightarrow> find (stable_token server) (hfSupportedEncodings client) \<noteq> None"
    by (auto simp: find_None_iff list_ex_iff)
  with ver Some w show ?thesis
    by (simp add: Negotiate_window ncpVersionError_def split: option.split)
qed

text \<open>C28: What an accepted negotiation fixes.  The session version prints and parses as the
  greatest version both ends accept; the encoding is the first the client lists that is stable
  and served; the protocols are those common to both, each once, in the client's order; the
  limits are the smaller ones; and extensions need both ends.\<close>

theorem negotiate_accept_best:
  assumes "nAction (NegotiateHandshake server client) = NcpHandshakeAccept"
  shows "let n = NegotiateHandshake server client; encs = hfSupportedEncodings client in
      (\<exists>v. parseProtocolVersion (nSessionVersion n) = Some v \<and> in_both server client v
         \<and> (\<forall>u. in_both server client u \<longrightarrow> u \<le> v))
    \<and> (\<exists>i < length encs. nNegotiatedEncoding n = encs ! i \<and> stable_token server (encs ! i)
         \<and> (\<forall>j < i. \<not> stable_token server (encs ! j)))
    \<and> distinct (nSupportedProtocols n)
    \<and> set (nSupportedProtocols n) = set (hfSupportedProtocols client) \<inter> set (pSupportedProtocols server)
    \<and> subseq (nSupportedProtocols n) (hfSupportedProtocols client)
    \<and> nMaxFramePayload n = Some (min (hfMaxFramePayload client) (pMaxFramePayload server))
    \<and> nMaxConcurrentStreams n = Some (min (hfMaxConcurrentStreams client) (pMaxConcurrentStreams server))
    \<and> nExtSupport n = Some (hfExtSupport client \<and> pExtSupport server)"
proof (rule accept_fields [OF assms], goal_cases)
  case (1 lo hi chosen)
  have "in_both server client u \<longleftrightarrow> lo \<le> u \<and> u \<le> hi" for u
    using version_window_in_both [OF 1(1)] .
  moreover have "lo \<le> hi" using 1(1) by (auto simp: version_window_Some)
  moreover have "\<exists>i < length (hfSupportedEncodings client). chosen = hfSupportedEncodings client ! i
      \<and> stable_token server (hfSupportedEncodings client ! i)
      \<and> (\<forall>j < i. \<not> stable_token server (hfSupportedEncodings client ! j))"
    using 1(2) unfolding find_Some_iff by auto
  ultimately show ?case
    using 1 by (simp add: Let_def parse_version_string common_protocols_distinct
        common_protocols_set common_protocols_subseq)
qed

theorem negotiate_accept_best_witness:
  "nAction (NegotiateHandshake DefaultNcpHandshakeProfile (hello_norm sample_hello)) = NcpHandshakeAccept
   \<and> nMaxConcurrentStreams (NegotiateHandshake DefaultNcpHandshakeProfile (hello_norm sample_hello)) = Some 8
   \<and> distinct (nSupportedProtocols (NegotiateHandshake DefaultNcpHandshakeProfile (hello_norm sample_hello)))"
proof -
  have a: "nAction (NegotiateHandshake DefaultNcpHandshakeProfile (hello_norm sample_hello)) = NcpHandshakeAccept"
    by code_simp
  have "hfMaxConcurrentStreams (hello_norm sample_hello) = 8"
    "pMaxConcurrentStreams DefaultNcpHandshakeProfile = 32"
    by (simp_all add: hello_norm_def sample_hello_def or_default_def DefaultNcpHandshakeProfile_def
        HelloDefaultMaxConcurrentStreams_def)
  then show ?thesis using a negotiate_accept_best [OF a] by (simp add: Let_def)
qed

end
