(* ===== verification/Ncp_Session.thy ===== *)
theory Ncp_Session
  imports Ncp_Handshake
begin

text \<open>
  Native-mode sessions: the handshake frame of the server (\<open>handshake_caps.go\<close>), the server and
  client ends of the handshake (\<open>server.go\<close>, \<open>native_client.go\<close>), frame exchange on an
  established session (\<open>session.go\<close>) and reconnecting after a failover (\<open>failover.go\<close>).
  A connection is the bytes still to be read, the bytes written so far and whether it is open;
  deadlines are not modelled.
\<close>

section \<open>Connections\<close>

record conn =
  rx :: "byte list"
  tx :: "byte list"
  up :: bool

definition conn_write :: "byte list \<Rightarrow> conn \<Rightarrow> unit res \<times> conn" where
  "conn_write bs c =
     (if up c then (Inr (), c\<lparr>tx := tx c @ bs\<rparr>)
      else (Inl (ErrPlain ''use of closed network connection''), c))"

definition conn_read :: "nat \<Rightarrow> conn \<Rightarrow> byte list res \<times> conn" where
  "conn_read n c = (case ReadFull n (rx c) of (r, s) \<Rightarrow> (r, c\<lparr>rx := s\<rparr>))"

definition conn_read_header :: "conn \<Rightarrow> FrameHeader res \<times> conn" where
  "conn_read_header c = (case ReadFrameHeader (rx c) of (r, s) \<Rightarrow> (r, c\<lparr>rx := s\<rparr>))"

definition conn_close :: "conn \<Rightarrow> conn" where
  "conn_close c = c\<lparr>up := False\<rparr>"

section \<open>NcpHandshakeCapsFrame\<close>

record NcpHandshakeCapsFrame =
  hcNodeID :: string
  hcCaps :: "string list"
  hcNegotiatedEncoding :: "string option"
  hcEnabledEncodings :: "string list option"
  hcSessionVersion :: "string option"
  hcSupportedProtocols :: "string list option"
  hcMaxFramePayload :: "u64 option"
  hcExtSupport :: "bool option"
  hcMaxConcurrentStreams :: "u64 option"
  hcAnchorRef :: "string option"
  hcPayload :: goany

definition HandshakeCaps_ToDict :: "NcpHandshakeCapsFrame \<Rightarrow> dict" where
  "HandshakeCaps_ToDict f =
     (let d = [(''node_id'', GStr (hcNodeID f)), (''caps'', GStrs (hcCaps f))];
          d = put_opt ''negotiated_encoding'' GStr (hcNegotiatedEncoding f) d;
          d = put_opt ''enabled_encodings'' GStrs (hcEnabledEncodings f) d;
          d = put_opt ''session_version'' GStr (hcSessionVersion f) d;
          d = put_opt ''supported_protocols'' GStrs (hcSupportedProtocols f) d;
          d = put_opt ''max_frame_payload'' gu64 (hcMaxFramePayload f) d;
          d = put_opt ''ext_support'' GBool (hcExtSupport f) d;
          d = put_opt ''max_concurrent_streams'' gu64 (hcMaxConcurrentStreams f) d;
          d = put_opt ''anchor_ref'' GStr (hcAnchorRef f) d
      in if hcPayload f \<noteq> GNil then dput ''payload'' (hcPayload f) d else d)"

definition HandshakeCapsFromDict :: "dict \<Rightarrow> NcpHandshakeCapsFrame" where
  "HandshakeCapsFromDict d =
     \<lparr>hcNodeID = str d ''node_id'', hcCaps = strings_or_nil (dget d ''caps''),
      hcNegotiatedEncoding = optStr d ''negotiated_encoding'',
      hcEnabledEncodings = (if dhas d ''enabled_encodings''
                            then asStringSlice (dget d ''enabled_encodings'') else None),
      hcSessionVersion = optStr d ''session_version'',
      hcSupportedProtocols = (if dhas d ''supported_protocols''
                              then asStringSlice (dget d ''supported_protocols'') else None),
      hcMaxFramePayload = optUint64Ptr d ''max_frame_payload'',
      hcExtSupport = optBoolPtr d ''ext_support'',
      hcMaxConcurrentStreams = optUint64Ptr d ''max_concurrent_streams'',
      hcAnchorRef = optStr d ''anchor_ref'', hcPayload = dget d ''payload''\<rparr>"

section \<open>Sessions\<close>

record NcpSession =
  sConn :: conn
  sCodec :: "NpsFrameCodec option"
  sClosed :: bool
  sServerCaps :: NcpHandshakeCapsFrame
  sPolicy :: NcpEncodingPolicy

definition newNcpSession :: "conn \<Rightarrow> NcpHandshakeCapsFrame \<Rightarrow> NcpEncodingPolicy \<Rightarrow> NcpSession" where
  "newNcpSession c caps policy =
     \<lparr>sConn = c, sCodec = None, sClosed = False, sServerCaps = caps, sPolicy = policy\<rparr>"

definition SetCodec :: "NpsFrameCodec \<Rightarrow> NcpSession \<Rightarrow> NcpSession" where
  "SetCodec codec s = s\<lparr>sCodec := Some codec\<rparr>"

text \<open>Calling a method of a nil codec panics.\<close>

definition nil_codec :: nps_error where
  "nil_codec = ErrPlain ''panic: nil codec''"

definition Send :: "serializers \<Rightarrow> FrameType \<Rightarrow> dict \<Rightarrow> EncodingTier \<Rightarrow> bool \<Rightarrow> NcpSession
    \<Rightarrow> unit res \<times> NcpSession" where
  "Send S ft d tier isFinal s =
     (case EnsureAllows (sPolicy s) (NewFrameHeader ft tier isFinal 0) of
        Inl e \<Rightarrow> (Inl e, s)
      | Inr _ \<Rightarrow>
          (case sCodec s of
             None \<Rightarrow> (Inl nil_codec, s)
           | Some codec \<Rightarrow>
               (case Encode S codec ft d tier isFinal of
                  Inl e \<Rightarrow> (Inl e, s)
                | Inr wire \<Rightarrow> (case conn_write wire (sConn s) of (r, c) \<Rightarrow> (r, s\<lparr>sConn := c\<rparr>)))))"

definition SendDefault :: "serializers \<Rightarrow> FrameType \<Rightarrow> dict \<Rightarrow> bool \<Rightarrow> NcpSession
    \<Rightarrow> unit res \<times> NcpSession" where
  "SendDefault S ft d isFinal s = Send S ft d (DefaultTier (sPolicy s)) isFinal s"

definition Receive :: "serializers \<Rightarrow> NcpSession \<Rightarrow> (FrameType \<times> dict) res \<times> NcpSession" where
  "Receive S s =
     (case conn_read_header (sConn s) of
        (Inl e, c) \<Rightarrow> (Inl e, s\<lparr>sConn := c\<rparr>)
      | (Inr header, c) \<Rightarrow>
          (case EnsureAllows (sPolicy s) header of
             Inl e \<Rightarrow> (Inl e, s\<lparr>sConn := c\<rparr>)
           | Inr _ \<Rightarrow>
               (case conn_read (unat (hPayloadLength header)) c of
                  (Inl e, c) \<Rightarrow> (Inl e, s\<lparr>sConn := c\<rparr>)
                | (Inr payload, c) \<Rightarrow>
                    (case sCodec s of
                       None \<Rightarrow> (Inl nil_codec, s\<lparr>sConn := c\<rparr>)
                     | Some codec \<Rightarrow> (Decode S codec (ToBytes header @ payload), s\<lparr>sConn := c\<rparr>)))))"

definition IsConnected :: "NcpSession \<Rightarrow> bool" where
  "IsConnected s \<longleftrightarrow> \<not> sClosed s"

definition CloseSession :: "NcpSession \<Rightarrow> NcpSession" where
  "CloseSession s = (if sClosed s then s else s\<lparr>sClosed := True, sConn := conn_close (sConn s)\<rparr>)"

section \<open>The server end\<close>

text \<open>What the authentication hook did: it made a new connection, kept the one it was given, or
  returned nil.\<close>

datatype auth_result = NewConn conn | SameConn conn | NilConn

record NcpServerOptions =
  oAuthenticateConn :: "(conn \<Rightarrow> auth_result res) option"
  oRequireAuthenticatedConn :: bool
  oMaxHelloPayload :: u64
  oHandshakeReadTimeout :: int
  oHelloReadTimeout :: int
  oHandshakeProfile :: "NcpHandshakeProfile option"

definition withDefaults :: "NcpServerOptions option \<Rightarrow> NcpServerOptions" where
  "withDefaults oo =
     (let out = (case oo of
                   Some x \<Rightarrow> x
                 | None \<Rightarrow> \<lparr>oAuthenticateConn = None, oRequireAuthenticatedConn = False,
                           oMaxHelloPayload = 0, oHandshakeReadTimeout = 0, oHelloReadTimeout = 0,
                           oHandshakeProfile = None\<rparr>);
          out = (if oMaxHelloPayload out = 0
                 then out\<lparr>oMaxHelloPayload := HelloDefaultMaxFramePayload\<rparr> else out);
          out = (if oHandshakeReadTimeout out = 0 \<and> Option.is_none oo
                 then out\<lparr>oHandshakeReadTimeout := 10 * 1000000000\<rparr> else out);
          out = (if oHelloReadTimeout out = 0 \<and> Option.is_none oo
                 then out\<lparr>oHelloReadTimeout := 5 * 1000000000\<rparr> else out)
      in (if oHandshakeProfile out = None
          then out\<lparr>oHandshakeProfile := Some DefaultNcpHandshakeProfile\<rparr> else out))"

definition authenticate :: "NcpServerOptions \<Rightarrow> conn \<Rightarrow> conn res" where
  "authenticate opts c =
     (case oAuthenticateConn opts of
        None \<Rightarrow>
          if oRequireAuthenticatedConn opts
          then Inl (ErrFrame ''NcpServerOptions.RequireAuthenticatedConn is true, but no AuthenticateConn hook is configured.'')
          else Inr c
      | Some hook \<Rightarrow>
          bindr (hook c) (\<lambda>authed.
            case authed of
              NilConn \<Rightarrow> Inl (ErrFrame ''NCP connection authentication hook returned nil.'')
            | SameConn c' \<Rightarrow>
                if oRequireAuthenticatedConn opts
                then Inl (ErrFrame ''NCP connection authentication hook returned the original connection while RequireAuthenticatedConn is true.'')
                else Inr c'
            | NewConn c' \<Rightarrow> Inr c'))"

record NcpServerConnection =
  scConn :: conn
  scClientHello :: HelloFrame
  scProfile :: NcpHandshakeProfile

definition server_handshake :: "serializers \<Rightarrow> NpsFrameCodec \<Rightarrow> NcpServerOptions \<Rightarrow> conn
    \<Rightarrow> NcpServerConnection res" where
  "server_handshake S codec opts rawConn =
     bindr (authenticate opts rawConn) (\<lambda>c.
     case conn_read PreambleLength c of
       (Inl e, c) \<Rightarrow> Inl e
     | (Inr preambleBuf, c) \<Rightarrow>
         bindr (ValidatePreamble preambleBuf) (\<lambda>_.
         case conn_read_header c of
           (Inl e, c) \<Rightarrow> Inl e
         | (Inr header, c) \<Rightarrow>
             if nAction (EvaluateHelloHeader header 0 (oHelloReadTimeout opts) (oMaxHelloPayload opts))
                \<noteq> NcpHandshakeContinue
             then Inl (ErrFrame ''Invalid native NCP Hello header.'')
             else (case conn_read (unat (hPayloadLength header)) c of
                     (Inl e, c) \<Rightarrow> Inl e
                   | (Inr payload, c) \<Rightarrow>
                       bindr (Decode S codec (ToBytes header @ payload)) (\<lambda>(ft, dict).
                         Inr \<lparr>scConn = c, scClientHello = HelloFrameFromDict dict,
                              scProfile = (case oHandshakeProfile opts of
                                             Some p \<Rightarrow> p | None \<Rightarrow> DefaultNcpHandshakeProfile)\<rparr>))))"

definition Reject :: "serializers \<Rightarrow> NpsFrameCodec \<Rightarrow> ErrorFrame \<Rightarrow> conn \<Rightarrow> conn" where
  "Reject S codec errFrame c =
     conn_close (case Encode S codec FrameTypeError (ErrorFrame_ToDict errFrame) EncodingTierJSON True of
                   Inl e \<Rightarrow> c
                 | Inr wire \<Rightarrow> snd (conn_write wire c))"

definition negotiated_caps :: "NcpHandshakeDecision \<Rightarrow> NcpHandshakeCapsFrame \<Rightarrow> NcpHandshakeCapsFrame" where
  "negotiated_caps n serverCaps = serverCaps
     \<lparr>hcNegotiatedEncoding := Some (nNegotiatedEncoding n),
      hcEnabledEncodings := Some (nEnabledEncodings n),
      hcSessionVersion := Some (nSessionVersion n),
      hcSupportedProtocols := Some (nSupportedProtocols n),
      hcMaxFramePayload := nMaxFramePayload n,
      hcExtSupport := nExtSupport n,
      hcMaxConcurrentStreams := nMaxConcurrentStreams n\<rparr>"

definition negotiated_policy :: "NcpHandshakeDecision \<Rightarrow> NcpEncodingPolicy" where
  "negotiated_policy n =
     \<lparr>DefaultTier = (if nNegotiatedEncoding n = ''msgpack'' then EncodingTierMsgPack else EncodingTierJSON),
      BinaryVectorEnabled = containsToken (nEnabledEncodings n) ''binary_vector.v1''\<rparr>"

definition Accept :: "serializers \<Rightarrow> NpsFrameCodec \<Rightarrow> NcpHandshakeCapsFrame \<Rightarrow> NcpServerConnection
    \<Rightarrow> NcpSession res \<times> conn" where
  "Accept S codec serverCaps sc =
     (let n = NegotiateHandshake (scProfile sc) (scClientHello sc)
      in if nAction n \<noteq> NcpHandshakeAccept
         then let errCode = (if nError n = [] then ''NCP-VERSION-INCOMPATIBLE'' else nError n);
                  status = (if nStatus n = [] then ''NPS-PROTO-VERSION-INCOMPATIBLE'' else nStatus n)
              in (Inl (ErrFrame (''['' @ errCode @ ''] Native NCP handshake negotiation failed.'')),
                  Reject S codec \<lparr>efErrorCode = errCode,
                    efMessage = ''Native NCP handshake negotiation failed.'',
                    efDetail = GMap [(''status'', GStr status)]\<rparr> (scConn sc))
         else let policy = negotiated_policy n; caps = negotiated_caps n serverCaps
              in case Encode S codec FrameTypeCaps (HandshakeCaps_ToDict caps) (DefaultTier policy) True of
                   Inl e \<Rightarrow> (Inl e, scConn sc)
                 | Inr wire \<Rightarrow>
                     (case conn_write wire (scConn sc) of
                        (Inl e, c) \<Rightarrow> (Inl e, c)
                      | (Inr _, c) \<Rightarrow> (Inr (SetCodec codec (newNcpSession c caps policy)), c)))"

definition negotiateEncodingPolicy :: "HelloFrame \<Rightarrow> NcpEncodingPolicy res" where
  "negotiateEncodingPolicy hello =
     (let binaryVectorEnabled = containsToken (hfSupportedEncodings hello) ''binary_vector.v1''
      in case find (\<lambda>enc. enc = ''msgpack'' \<or> enc = ''json'') (hfSupportedEncodings hello) of
           Some enc \<Rightarrow> Inr \<lparr>DefaultTier = (if enc = ''msgpack'' then EncodingTierMsgPack else EncodingTierJSON),
                            BinaryVectorEnabled = binaryVectorEnabled\<rparr>
         | None \<Rightarrow> Inl (ErrCodec ''Client did not offer a supported stable default encoding (expected msgpack or json).''))"

section \<open>The client end\<close>

definition handshake_error :: "string \<Rightarrow> string \<Rightarrow> nps_error" where
  "handshake_error ec msg = ErrCode ec (''NCP handshake failed ['' @ ec @ '']: '' @ msg)"

text \<open>The result comes with the connection, on which the preamble and the Hello may have been
  written even when the handshake fails.\<close>

definition client_handshake :: "serializers \<Rightarrow> NpsFrameCodec \<Rightarrow> HelloFrame \<Rightarrow> conn
    \<Rightarrow> NcpSession res \<times> conn" where
  "client_handshake S codec hello c =
     (case conn_write preambleBytes c of
        (Inl e, c) \<Rightarrow> (Inl e, c)
      | (Inr _, c) \<Rightarrow>
     (case Encode S codec FrameTypeHello (HelloFrame_ToDict hello) EncodingTierJSON True of
        Inl e \<Rightarrow> (Inl e, c)
      | Inr helloWire \<Rightarrow>
     (case conn_write helloWire c of
        (Inl e, c) \<Rightarrow> (Inl e, c)
      | (Inr _, c) \<Rightarrow>
     (case conn_read_header c of
        (Inl e, c) \<Rightarrow> (Inl e, c)
      | (Inr header, c) \<Rightarrow>
     (case conn_read (unat (hPayloadLength header)) c of
        (Inl e, c) \<Rightarrow> (Inl e, c)
      | (Inr payload, c) \<Rightarrow>
          let wire = ToBytes header @ payload
          in if hFrameType header = FrameTypeError
             then (case Decode S codec wire of
                     Inl e \<Rightarrow> (Inl e, c)
                   | Inr (ft, dict) \<Rightarrow>
                       (Inl (handshake_error (efErrorCode (ErrorFrameFromDict dict))
                              (efMessage (ErrorFrameFromDict dict))), c))
             else if hFrameType header \<noteq> FrameTypeCaps
             then (Inl (handshake_error ''NCP-HANDSHAKE-UNEXPECTED-FRAME''
                    (''Expected CapsFrame (0x'' @ hex2 FrameTypeCaps @ ''), got 0x''
                     @ hex2 (hFrameType header) @ ''.'')), c)
             else (case Decode S codec wire of
                     Inl e \<Rightarrow> (Inl e, c)
                   | Inr (ft, dict) \<Rightarrow>
                       let caps = HandshakeCapsFromDict dict;
                           policy = NcpEncodingPolicyFromEnabledEncodings (header_tier header)
                                      (case hcEnabledEncodings caps of Some xs \<Rightarrow> xs | None \<Rightarrow> [])
                       in (Inr (newNcpSession c caps policy), c)))))))"


section \<open>Frames on a stream\<close>

lemma unat_of_length64: "int n \<le> 0xFFFFFFFF \<Longrightarrow> unat (of_nat n :: u64) = n"
  by (simp add: unat_of_nat)

text \<open>An encoded frame at the front of a stream is read back in two steps.\<close>

lemma frame_on_stream:
  assumes "codec_ok codec ft" and "Encode S codec ft d tier fin = Inr wire"
  obtains h p where "wire = ToBytes h @ p" and "encodePayload S d tier = Inr p"
    and "h = NewFrameHeader ft tier fin (of_nat (length p))" and "int (length p) \<le> 0xFFFFFFFF"
    and "\<And>rest. ReadFrameHeader (wire @ rest) = (Inr h, p @ rest)"
    and "\<And>rest. ReadFull (unat (hPayloadLength h)) (p @ rest) = (Inr p, rest)"
proof -
  obtain p where p: "encodePayload S d tier = Inr p" "int (length p) \<le> 0xFFFFFFFF"
    "wire = ToBytes (NewFrameHeader ft tier fin (of_nat (length p))) @ p"
    using assms by (auto simp: Encode_Inr codec_ok_def)
  let ?h = "NewFrameHeader ft tier fin (of_nat (length p))"
  have "(of_nat (length p) :: u64) \<le> 0xFFFFFFFF"
    using p(2) uint_of_length64 [OF p(2)] by (simp add: word_le_def)
  then have "header_ok ?h" using assms(1) NewFrameHeader_ok by (simp add: codec_ok_def)
  then have "ReadFrameHeader (wire @ rest) = (Inr ?h, p @ rest)" for rest
    by (simp add: ReadFrameHeader_Inr ParseFrameHeader_ToBytes p(3))
  moreover have "ReadFull (unat (hPayloadLength ?h)) (p @ rest) = (Inr p, rest)" for rest
    using unat_of_length64 [OF p(2)] by (simp add: ReadFull_def)
  ultimately show ?thesis using that p by blast
qed

text \<open>Strings and string lists survive both stable tiers.\<close>

definition keeps_strings :: "dict \<Rightarrow> dict \<Rightarrow> bool" where
  "keeps_strings d d' \<longleftrightarrow> (\<forall>k s. dget d k = GStr s \<longrightarrow> dget d' k = GStr s)
     \<and> (\<forall>k ss. dget d k = GStrs ss \<longrightarrow> dget d' k = GList (map GStr ss))
     \<and> (\<forall>k. dhas d' k = dhas d k)"

lemma mnorm_GStrs:
  "mwire v \<Longrightarrow> mnorm v = GList (map GStr ss) \<Longrightarrow> v = GList (map GStr ss)"
proof (cases v)
  case (GList xs)
  assume "mwire v" "mnorm v = GList (map GStr ss)"
  then have "map mnorm xs = map GStr ss" "list_all mwire xs" using GList by simp_all
  then have "xs = map GStr ss"
  proof (induction xs arbitrary: ss)
    case (Cons x xs)
    then show ?case using mnorm_eq_GStr [of x] by (cases ss) auto
  qed simp
  with GList show ?thesis by simp
qed auto

lemma decode_keeps_strings:
  assumes "msgpack_law S" and "codec_ok codec ft" and "json_wf (sFmt S) 10000 (GMap d)"
    and "tier = EncodingTierJSON \<or> tier = EncodingTierMsgPack"
    and "Encode S codec ft d tier fin = Inr wire"
  obtains d' where "Decode S codec (wire @ rest) = Inr (ft, d')" and "keeps_strings d d'"
proof (cases "tier = EncodingTierJSON")
  case True
  have "distinct (map fst d)" using assms(3) by simp
  then have "keeps_strings d (sort_key fst (map (\<lambda>(k, v). (k, jnorm (sFmt S) v)) d))"
    by (simp add: keeps_strings_def dget_jnorm)
  moreover have "Decode S codec (wire @ rest)
      = Inr (ft, sort_key fst (map (\<lambda>(k, v). (k, jnorm (sFmt S) v)) d))"
    using json_encode_decode [OF assms(3,2), where fin = fin and rest = rest] assms(5) True by simp
  ultimately show ?thesis using that by blast
next
  case False
  then have tier: "tier = EncodingTierMsgPack" using assms(4) by simp
  obtain p where p: "encodePayload S d tier = Inr p" using assms(5) by (auto simp: Encode_Inr)
  then have "mp_marshal S d = Inr p" using tier by (simp add: encodePayload_def tier_defs)
  then obtain d' where d': "mp_unmarshal S p = Inr d'" "mwire (GMap d')" "mnorm_dict d' = mnorm_dict d"
    using assms(1) unfolding msgpack_law_def by blast
  have "Decode S codec (wire @ rest) = Inr (ft, d')"
    using Decode_Encode [OF assms(2) _ p assms(5)] tier d'(1)
    by (simp add: decodePayload_def tier_defs)
  moreover have "keeps_strings d d'"
    unfolding keeps_strings_def
  proof (intro conjI allI impI)
    fix k s assume "dget d k = GStr s"
    then show "dget d' k = GStr s"
      using mnorm_dict_eqD(1) [OF d'(3), of k] mnorm_eq_GStr mwire_dget [OF d'(2)] by simp
  next
    fix k ss assume "dget d k = GStrs ss"
    then show "dget d' k = GList (map GStr ss)"
      using mnorm_dict_eqD(1) [OF d'(3), of k] mnorm_GStrs [OF mwire_dget [OF d'(2)]] by simp
  next
    fix k show "dhas d' k = dhas d k" using mnorm_dict_eqD(2) [OF d'(3)] .
  qed
  ultimately show ?thesis using that by blast
qed


section \<open>The two ends of a handshake\<close>

definition plain_options :: "NcpServerOptions \<Rightarrow> bool" where
  "plain_options opts \<longleftrightarrow> oAuthenticateConn opts = None \<and> \<not> oRequireAuthenticatedConn opts"

definition server_profile :: "NcpServerOptions \<Rightarrow> NcpHandshakeProfile" where
  "server_profile opts = (case oHandshakeProfile opts of Some p \<Rightarrow> p | None \<Rightarrow> DefaultNcpHandshakeProfile)"

lemma hello_header_continue:
  assumes "int n \<le> 0xFFFF" and "int n \<le> uint (mx :: u64)"
  shows "nAction (EvaluateHelloHeader (NewFrameHeader FrameTypeHello EncodingTierJSON True (of_nat n)) 0 t mx)
           = NcpHandshakeContinue"
proof -
  have u: "uint (of_nat n :: u64) = int n" using assms(1) by (intro uint_of_length64) simp
  have "\<not> (of_nat n :: u64) > 0xFFFF" "\<not> (of_nat n :: u64) > mx"
    using assms by (simp_all add: word_less_def u)
  then show ?thesis
    by (simp add: EvaluateHelloHeader_def NewFrameHeader_def header_tier_def tier_defs Let_def)
qed

lemma preamble_valid: "ValidatePreamble preambleBytes = Inr ()" "length preambleBytes = 8"
proof -
  show l: "length preambleBytes = 8" by (simp add: preambleBytes_def bytes_of_def)
  have "PreambleMatches preambleBytes" using l by (simp add: PreambleMatches_iff)
  then show "ValidatePreamble preambleBytes = Inr ()"
    using l by (simp add: ValidatePreamble_def PreambleLength_def)
qed

lemma server_reads_hello:
  assumes "plain_options opts" and "codec_ok codec FrameTypeHello" and "hello_ok hello"
    and "Encode S codec FrameTypeHello (HelloFrame_ToDict hello) EncodingTierJSON True = Inr wire"
    and "encodePayload S (HelloFrame_ToDict hello) EncodingTierJSON = Inr p"
    and "int (length p) \<le> 0xFFFF" and "int (length p) \<le> uint (oMaxHelloPayload opts)"
  shows "server_handshake S codec opts \<lparr>rx = preambleBytes @ wire @ rest, tx = out, up = u\<rparr> =
     Inr \<lparr>scConn = \<lparr>rx = rest, tx = out, up = u\<rparr>, scClientHello = hello_norm hello,
          scProfile = server_profile opts\<rparr>"
proof -
  obtain h where h: "wire = ToBytes h @ p" "h = NewFrameHeader FrameTypeHello EncodingTierJSON True (of_nat (length p))"
    "ReadFrameHeader (wire @ rest) = (Inr h, p @ rest)"
    "ReadFull (unat (hPayloadLength h)) (p @ rest) = (Inr p, rest)"
    using frame_on_stream [OF assms(2,4)] assms(5) by (metis Inr_inject)
  obtain d where d: "Decode S codec (ToBytes h @ p) = Inr (FrameTypeHello, d)"
    "HelloFrameFromDict d = hello_norm hello"
    using json_encode_decode [OF hello_json_wf [OF assms(3)] assms(2), where S = S and fin = True and rest = "[]"]
      assms(4) hello_from_json [OF assms(3)] h(1) by simp
  have "authenticate opts c = Inr c" for c
    using assms(1) by (simp add: authenticate_def plain_options_def)
  moreover have "ReadFull PreambleLength (preambleBytes @ wire @ rest) = (Inr preambleBytes, wire @ rest)"
    using preamble_valid(2) by (simp add: ReadFull_def PreambleLength_def)
  moreover have "nAction (EvaluateHelloHeader h 0 (oHelloReadTimeout opts) (oMaxHelloPayload opts))
      = NcpHandshakeContinue"
    unfolding h(2) by (rule hello_header_continue) (use assms(6,7) in simp_all)
  ultimately show ?thesis
    using preamble_valid(1) h(3,4) d
    by (simp add: server_handshake_def conn_read_def conn_read_header_def server_profile_def)
qed

definition caps_wf :: "float_fmt \<Rightarrow> NcpHandshakeCapsFrame \<Rightarrow> bool" where
  "caps_wf F f \<longleftrightarrow> utf8_valid (hcNodeID f) \<and> list_all utf8_valid (hcCaps f)
     \<and> pred_option utf8_valid (hcNegotiatedEncoding f)
     \<and> pred_option (list_all utf8_valid) (hcEnabledEncodings f)
     \<and> pred_option utf8_valid (hcSessionVersion f)
     \<and> pred_option (list_all utf8_valid) (hcSupportedProtocols f)
     \<and> pred_option utf8_valid (hcAnchorRef f) \<and> json_wf F 9999 (hcPayload f)"

lemma caps_json_wf:
  assumes "caps_wf F f"
  shows "json_wf F 10000 (GMap (HandshakeCaps_ToDict f))"
proof -
  let ?d = "put_opt ''anchor_ref'' GStr (hcAnchorRef f)
      (put_opt ''max_concurrent_streams'' gu64 (hcMaxConcurrentStreams f)
      (put_opt ''ext_support'' GBool (hcExtSupport f)
      (put_opt ''max_frame_payload'' gu64 (hcMaxFramePayload f)
      (put_opt ''supported_protocols'' GStrs (hcSupportedProtocols f)
      (put_opt ''session_version'' GStr (hcSessionVersion f)
      (put_opt ''enabled_encodings'' GStrs (hcEnabledEncodings f)
      (put_opt ''negotiated_encoding'' GStr (hcNegotiatedEncoding f)
         [(''node_id'', GStr (hcNodeID f)), (''caps'', GStrs (hcCaps f))])))))))"
  have "json_wf F 10000 (GMap [(''node_id'', GStr (hcNodeID f)), (''caps'', GStrs (hcCaps f))])"
    using assms by (simp add: caps_wf_def utf8_ascii del: utf8_valid.simps)
  then have "json_wf F 10000 (GMap ?d)"
    using assms by (intro json_wf_put_opt) (auto simp: caps_wf_def utf8_ascii simp del: utf8_valid.simps)
  then show ?thesis
    using json_wf_dput [of F 10000 ?d "''payload''" "hcPayload f"] assms
    by (simp add: HandshakeCaps_ToDict_def Let_def caps_wf_def utf8_ascii
        del: json_wf.simps(9) utf8_valid.simps)
qed

lemma dget_HandshakeCaps:
  "dget (HandshakeCaps_ToDict f) ''negotiated_encoding'' = nil_or GStr (hcNegotiatedEncoding f)"
  "dget (HandshakeCaps_ToDict f) ''enabled_encodings'' = nil_or GStrs (hcEnabledEncodings f)"
  "dget (HandshakeCaps_ToDict f) ''session_version'' = nil_or GStr (hcSessionVersion f)"
  "dget (HandshakeCaps_ToDict f) ''supported_protocols'' = nil_or GStrs (hcSupportedProtocols f)"
  "dhas (HandshakeCaps_ToDict f) ''enabled_encodings'' \<longleftrightarrow> hcEnabledEncodings f \<noteq> None"
  "dhas (HandshakeCaps_ToDict f) ''supported_protocols'' \<longleftrightarrow> hcSupportedProtocols f \<noteq> None"
  by (simp_all add: HandshakeCaps_ToDict_def Let_def nil_or_def split: option.split)


lemma utf8_version: "utf8_valid (version_string v)"
proof -
  have "list_all (\<lambda>c. code c < 0x80) (dec n)" for n
    using dec_digits [of n] by (auto simp: list_all_iff is_digit_def)
  then show ?thesis by (intro utf8_ascii) (simp add: version_string_def)
qed

lemma negotiated_caps_wf:
  assumes "nAction (NegotiateHandshake server (hello_norm hello)) = NcpHandshakeAccept"
    and "hello_ok hello" and "caps_wf F serverCaps"
  shows "caps_wf F (negotiated_caps (NegotiateHandshake server (hello_norm hello)) serverCaps)"
proof (rule accept_fields [OF assms(1)], goal_cases)
  case (1 lo hi chosen)
  have "chosen = ''msgpack'' \<or> chosen = ''json''"
    using 1(2) by (auto simp: find_Some_iff stable_token_def)
  then have "utf8_valid chosen" "utf8_valid ''binary_vector.v1''"
    by (auto simp: utf8_ascii simp del: utf8_valid.simps)
  moreover have "set (common_protocols (pSupportedProtocols server) [] (hfSupportedProtocols (hello_norm hello)))
      \<subseteq> set (hfSupportedProtocols hello)"
    by (auto simp: common_protocols_set hello_norm_def)
  ultimately show ?case
    using assms(2,3) 1(3-6) utf8_version [of hi]
    by (auto simp: caps_wf_def negotiated_caps_def hello_ok_def list_all_iff)
qed

lemma client_reads_caps:
  assumes "Encode S codec FrameTypeHello (HelloFrame_ToDict hello) EncodingTierJSON True = Inr helloWire"
    and "codec_ok codec FrameTypeCaps" and "tier AND 0x03 = tier"
    and "Encode S codec FrameTypeCaps d tier True = Inr capsWire"
    and "Decode S codec capsWire = Inr (FrameTypeCaps, d')"
  shows "client_handshake S codec hello \<lparr>rx = capsWire @ rest, tx = out, up = True\<rparr> =
     (let c = \<lparr>rx = rest, tx = out @ preambleBytes @ helloWire, up = True\<rparr>
      in (Inr (newNcpSession c (HandshakeCapsFromDict d')
            (NcpEncodingPolicyFromEnabledEncodings tier
               (case hcEnabledEncodings (HandshakeCapsFromDict d') of Some xs \<Rightarrow> xs | None \<Rightarrow> []))), c))"
proof -
  obtain h p where h: "capsWire = ToBytes h @ p" "h = NewFrameHeader FrameTypeCaps tier True (of_nat (length p))"
    "ReadFrameHeader (capsWire @ rest) = (Inr h, p @ rest)"
    "ReadFull (unat (hPayloadLength h)) (p @ rest) = (Inr p, rest)"
    using frame_on_stream [OF assms(2,4)] by metis
  have "hFrameType h = FrameTypeCaps" "header_tier h = tier"
    using h(2) assms(3) by (simp_all add: NewFrameHeader_tier)
  moreover have "FrameTypeCaps \<noteq> FrameTypeError" by (simp add: frame_type_defs)
  moreover have "Decode S codec (ToBytes h @ p) = Inr (FrameTypeCaps, d')" using assms(5) h(1) by simp
  ultimately show ?thesis
    using h(3,4) assms(1)
    by (simp add: client_handshake_def conn_write_def conn_read_def conn_read_header_def Let_def)
qed

lemma keeps_caps:
  assumes "keeps_strings (HandshakeCaps_ToDict f) d'"
    and "hcNegotiatedEncoding f = Some a" "hcEnabledEncodings f = Some b"
      "hcSessionVersion f = Some v" "hcSupportedProtocols f = Some ps"
  shows "hcNegotiatedEncoding (HandshakeCapsFromDict d') = Some a"
    "hcEnabledEncodings (HandshakeCapsFromDict d') = Some b"
    "hcSessionVersion (HandshakeCapsFromDict d') = Some v"
    "hcSupportedProtocols (HandshakeCapsFromDict d') = Some ps"
proof -
  have "dget d' ''negotiated_encoding'' = GStr a" "dget d' ''session_version'' = GStr v"
    "dget d' ''enabled_encodings'' = GList (map GStr b)"
    "dget d' ''supported_protocols'' = GList (map GStr ps)"
    "dhas d' ''enabled_encodings''" "dhas d' ''supported_protocols''"
    using assms by (simp_all add: keeps_strings_def dget_HandshakeCaps nil_or_def)
  then show "hcNegotiatedEncoding (HandshakeCapsFromDict d') = Some a"
    "hcEnabledEncodings (HandshakeCapsFromDict d') = Some b"
    "hcSessionVersion (HandshakeCapsFromDict d') = Some v"
    "hcSupportedProtocols (HandshakeCapsFromDict d') = Some ps"
    by (simp_all add: HandshakeCapsFromDict_def optStr_def)
qed

section \<open>Properties\<close>

text \<open>C11: Handshake agreement.  A client sends its preamble and Hello; the server reads them, negotiates
  and accepts, writing its answer; the client reads that answer.  Then the client ends with a
  session too, both sessions follow the same encoding policy, and the client has been told the
  server's choice of version, encodings and protocols.\<close>

theorem handshake_agreement:
  assumes "msgpack_law S" and "plain_options opts" and "codec_ok codec FrameTypeHello"
    and "codec_ok codec FrameTypeCaps" and "hello_ok hello" and "caps_wf (sFmt S) serverCaps"
    and "Encode S codec FrameTypeHello (HelloFrame_ToDict hello) EncodingTierJSON True = Inr wire"
    and "int (length wire) \<le> 0xFFFF" and "oMaxHelloPayload opts = 0xFFFF"
    and "Accept S codec serverCaps
           (projr (server_handshake S codec opts \<lparr>rx = preambleBytes @ wire, tx = [], up = True\<rparr>))
           = (Inr server, c)"
  shows "\<exists>client c'. client_handshake S codec hello \<lparr>rx = tx c, tx = [], up = True\<rparr> = (Inr client, c')
     \<and> tx c' = preambleBytes @ wire \<and> rx c' = []
     \<and> sPolicy client = sPolicy server
     \<and> hcSessionVersion (sServerCaps client) = hcSessionVersion (sServerCaps server)
     \<and> hcNegotiatedEncoding (sServerCaps client) = hcNegotiatedEncoding (sServerCaps server)
     \<and> hcEnabledEncodings (sServerCaps client) = hcEnabledEncodings (sServerCaps server)
     \<and> hcSupportedProtocols (sServerCaps client) = hcSupportedProtocols (sServerCaps server)"
proof -
  obtain p where p: "encodePayload S (HelloFrame_ToDict hello) EncodingTierJSON = Inr p"
    "length p \<le> length wire"
    using assms(7) by (auto simp: Encode_Inr)
  define sc where "sc = \<lparr>scConn = \<lparr>rx = [], tx = [], up = True\<rparr>, scClientHello = hello_norm hello,
      scProfile = server_profile opts\<rparr>"
  have "server_handshake S codec opts \<lparr>rx = preambleBytes @ wire, tx = [], up = True\<rparr> = Inr sc"
    using server_reads_hello [OF assms(2,3,5,7) p(1), where rest = "[]" and out = "[]" and u = True]
      p(2) assms(8,9) by (simp add: sc_def)
  with assms(10) have acc: "Accept S codec serverCaps sc = (Inr server, c)" by simp
  let ?n = "NegotiateHandshake (server_profile opts) (hello_norm hello)"
  let ?caps = "negotiated_caps ?n serverCaps"
  let ?pol = "negotiated_policy ?n"
  have ok: "nAction ?n = NcpHandshakeAccept"
    using acc by (auto simp: Accept_def sc_def Let_def split: if_splits)
  obtain capsWire where cw: "Encode S codec FrameTypeCaps (HandshakeCaps_ToDict ?caps) (DefaultTier ?pol) True
      = Inr capsWire" "tx c = capsWire" "sPolicy server = ?pol" "sServerCaps server = ?caps"
    using acc ok by (auto simp: Accept_def sc_def conn_write_def SetCodec_def newNcpSession_def Let_def
        split: sum.splits)
  have tier: "DefaultTier ?pol = EncodingTierJSON \<or> DefaultTier ?pol = EncodingTierMsgPack"
    by (simp add: negotiated_policy_def)
  obtain d' where d': "Decode S codec (capsWire @ []) = Inr (FrameTypeCaps, d')"
    "keeps_strings (HandshakeCaps_ToDict ?caps) d'"
    by (rule decode_keeps_strings [OF assms(1,4)
        caps_json_wf [OF negotiated_caps_wf [OF ok assms(5,6)]] tier cw(1)])
  note kept = keeps_caps [OF d'(2)]
  have "DefaultTier ?pol AND 0x03 = DefaultTier ?pol" using tier tier_bits by auto
  from client_reads_caps [OF assms(7,4) this cw(1), of d' "[]" "[]"] d'(1)
  show ?thesis
    using cw(2-4) kept
    by (simp add: Let_def newNcpSession_def negotiated_caps_def negotiated_policy_def
        NcpEncodingPolicyFromEnabledEncodings_def)
qed


definition sample_options :: NcpServerOptions where
  "sample_options = withDefaults (Some \<lparr>oAuthenticateConn = None, oRequireAuthenticatedConn = False,
     oMaxHelloPayload = 0, oHandshakeReadTimeout = 0, oHelloReadTimeout = 0,
     oHandshakeProfile = Some (DefaultNcpHandshakeProfile\<lparr>pSupportedEncodings := [''json'']\<rparr>)\<rparr>)"

definition sample_caps :: NcpHandshakeCapsFrame where
  "sample_caps = \<lparr>hcNodeID = ''urn:nps:agent:a:1'', hcCaps = [''ncp''], hcNegotiatedEncoding = None,
     hcEnabledEncodings = None, hcSessionVersion = None, hcSupportedProtocols = None,
     hcMaxFramePayload = None, hcExtSupport = None, hcMaxConcurrentStreams = None,
     hcAnchorRef = None, hcPayload = GNil\<rparr>"

lemma sample_hello_encodes:
  "case Encode sample_serializers sample_full_codec FrameTypeHello (HelloFrame_ToDict sample_hello)
        EncodingTierJSON True of
      Inl e \<Rightarrow> False | Inr w \<Rightarrow> int (length w) \<le> 0xFFFF"
  by code_simp

lemma sample_accepts:
  "is_ok (fst (Accept sample_serializers sample_full_codec sample_caps
     \<lparr>scConn = \<lparr>rx = [], tx = [], up = True\<rparr>, scClientHello = hello_norm sample_hello,
      scProfile = server_profile sample_options\<rparr>))"
  by code_simp

lemma sample_codec_caps: "codec_ok sample_full_codec FrameTypeCaps"
proof -
  have "IsRegistered CreateFullRegistry FrameTypeCaps" by code_simp
  then show ?thesis
    by (simp add: codec_ok_def sample_full_codec_def NewNpsFrameCodec_def DefaultMaxPayload_def
        knownFrameTypes_def)
qed

lemma sample_options_plain: "plain_options sample_options" "oMaxHelloPayload sample_options = 0xFFFF"
  by (simp_all add: plain_options_def sample_options_def withDefaults_def HelloDefaultMaxFramePayload_def)

lemma sample_caps_wf: "caps_wf F sample_caps"
  by (simp add: caps_wf_def sample_caps_def utf8_ascii del: utf8_valid.simps)

theorem handshake_agreement_witness:
  "\<exists>wire server c client c'.
     Encode sample_serializers sample_full_codec FrameTypeHello (HelloFrame_ToDict sample_hello)
       EncodingTierJSON True = Inr wire
   \<and> Accept sample_serializers sample_full_codec sample_caps
       (projr (server_handshake sample_serializers sample_full_codec sample_options
          \<lparr>rx = preambleBytes @ wire, tx = [], up = True\<rparr>)) = (Inr server, c)
   \<and> client_handshake sample_serializers sample_full_codec sample_hello
       \<lparr>rx = tx c, tx = [], up = True\<rparr> = (Inr client, c')
   \<and> sPolicy client = sPolicy server"
proof -
  obtain wire where w: "Encode sample_serializers sample_full_codec FrameTypeHello
      (HelloFrame_ToDict sample_hello) EncodingTierJSON True = Inr wire" "int (length wire) \<le> 0xFFFF"
    using sample_hello_encodes by (auto split: sum.splits)
  obtain p where p: "encodePayload sample_serializers (HelloFrame_ToDict sample_hello) EncodingTierJSON = Inr p"
    "length p \<le> length wire"
    using w(1) by (auto simp: Encode_Inr)
  have "server_handshake sample_serializers sample_full_codec sample_options
      \<lparr>rx = preambleBytes @ wire, tx = [], up = True\<rparr>
    = Inr \<lparr>scConn = \<lparr>rx = [], tx = [], up = True\<rparr>, scClientHello = hello_norm sample_hello,
           scProfile = server_profile sample_options\<rparr>"
    using server_reads_hello [OF sample_options_plain(1) sample_full_codec_ok sample_hello_ok w(1) p(1),
        where rest = "[]" and out = "[]" and u = True] p(2) w(2)
    by (simp add: sample_options_plain)
  with sample_accepts obtain server c where acc: "Accept sample_serializers sample_full_codec sample_caps
      (projr (server_handshake sample_serializers sample_full_codec sample_options
         \<lparr>rx = preambleBytes @ wire, tx = [], up = True\<rparr>)) = (Inr server, c)"
    by (auto simp: is_ok_iff prod_eq_iff)
  from handshake_agreement [OF sample_law sample_options_plain(1) sample_full_codec_ok sample_codec_caps
      sample_hello_ok sample_caps_wf w sample_options_plain(2) acc] w(1) acc
  show ?thesis by blast
qed




lemma Receive_Inr:
  assumes "Receive S s = (Inr (ft, d), s')"
  shows "\<exists>h rest payload codec. ReadFrameHeader (rx (sConn s)) = (Inr h, rest)
     \<and> EnsureAllows (sPolicy s) h = Inr () \<and> ReadFull (unat (hPayloadLength h)) rest = (Inr payload, rx (sConn s'))
     \<and> Decode S codec (ToBytes h @ payload) = Inr (ft, d)"
  using assms
  by (fastforce simp: Receive_def conn_read_header_def conn_read_def split: prod.splits sum.splits option.splits)

lemma ReadFull_Inr:
  assumes "ReadFull n r = (Inr p, r')"
  shows "length r' + n = length r" and "suffix r' r"
  using assms by (auto simp: ReadFull_def suffix_drop split: if_splits)

text \<open>C13: The encoding policy of a session is enforced in both directions.  A frame that
  \<open>Receive\<close> returns came in a header whose tier the policy allows for its type, and that type is
  the one returned; a \<open>Send\<close> at a tier the policy refuses fails and leaves the session and its
  connection untouched.\<close>

theorem session_policy_enforced:
  "(case Receive S s of
      (Inl e, s') \<Rightarrow> True
    | (Inr (ft, d), s') \<Rightarrow>
        \<exists>h rest. ReadFrameHeader (rx (sConn s)) = (Inr h, rest)
          \<and> Allows (sPolicy s) (header_tier h) (hFrameType h)
          \<and> length (rx (sConn s')) + unat (hPayloadLength h) = length rest \<and> suffix (rx (sConn s')) rest)
   \<and> (Allows (sPolicy s) (header_tier (NewFrameHeader ft tier fin 0)) ft
      \<or> (\<exists>e. Send S ft d tier fin s = (Inl e, s)))"
proof -
  have "\<exists>h rest. ReadFrameHeader (rx (sConn s)) = (Inr h, rest)
      \<and> Allows (sPolicy s) (header_tier h) (hFrameType h)
      \<and> length (rx (sConn s')) + unat (hPayloadLength h) = length rest \<and> suffix (rx (sConn s')) rest"
    if "Receive S s = (Inr (ft, d), s')" for ft d s'
  proof -
    from Receive_Inr [OF that] obtain h rest payload where
      *: "ReadFrameHeader (rx (sConn s)) = (Inr h, rest)" "EnsureAllows (sPolicy s) h = Inr ()"
         "ReadFull (unat (hPayloadLength h)) rest = (Inr payload, rx (sConn s'))" by blast
    have "Allows (sPolicy s) (header_tier h) (hFrameType h)"
      using *(2) by (auto simp: EnsureAllows_def split: if_splits)
    then show ?thesis using *(1) ReadFull_Inr [OF *(3)] by blast
  qed
  moreover have "Allows (sPolicy s) (header_tier (NewFrameHeader ft tier fin 0)) ft
      \<or> (\<exists>e. Send S ft d tier fin s = (Inl e, s))"
    by (simp add: Send_def EnsureAllows_def NewFrameHeader_def Let_def)
  ultimately show ?thesis by (auto split: prod.split sum.split)
qed

end
