(* ===== verification/Ncp_Failover.thy ===== *)
theory Ncp_Failover
  imports Ncp_Handshake
begin

text \<open>
  Reconnecting across an Anchor ownership transfer (\<open>ncp/failover.go\<close>).  The resolver, the connect
  step and the context are functions of the caller's world, which they may change.  An error value is
  a tree of wrapped errors, searched by \<open>errors.As\<close> and \<open>errors.Is\<close> in depth-first order.
\<close>

section \<open>Error values\<close>

datatype go_error =
    NcpProtocolError string string string
  | NetError string
  | OpError go_error
  | Errno int
  | IoSentinel string
  | WrapError string "go_error list"
  | PlainError string

fun error_tree :: "go_error \<Rightarrow> go_error list" where
  "error_tree (OpError e) = OpError e # error_tree e"
| "error_tree (WrapError m es) = WrapError m es # concat (map error_tree es)"
| "error_tree e = [e]"

fun as_proto :: "go_error \<Rightarrow> string option" where
  "as_proto (NcpProtocolError c s m) = Some c"
| "as_proto e = None"

text \<open>\<open>*net.OpError\<close> and \<open>syscall.Errno\<close> have the methods of \<open>net.Error\<close>.\<close>

fun is_net_error :: "go_error \<Rightarrow> bool" where
  "is_net_error (NetError m) = True"
| "is_net_error (OpError e) = True"
| "is_net_error (Errno n) = True"
| "is_net_error e = False"

definition ErrNidMismatch :: string where
  "ErrNidMismatch = ''NCP-NID-MISMATCH''"

definition failover_sentinels :: "go_error list" where
  "failover_sentinels = map IoSentinel
     [''EOF'', ''unexpected EOF'', ''io: read/write on closed pipe'', ''use of closed network connection'']"

definition IsFailoverShaped :: "go_error \<Rightarrow> bool" where
  "IsFailoverShaped err =
     (case List.map_filter as_proto (error_tree err) of
        c # _ \<Rightarrow> c = ErrNidMismatch
      | [] \<Rightarrow>
          (if list_ex is_net_error (error_tree err) then True
           else if list_ex (\<lambda>e. case e of OpError _ \<Rightarrow> True | _ \<Rightarrow> False) (error_tree err) then True
           else if list_ex (\<lambda>e. case e of Errno _ \<Rightarrow> True | _ \<Rightarrow> False) (error_tree err) then True
           else list_ex (\<lambda>e. e \<in> set failover_sentinels) (error_tree err)))"

section \<open>The connector\<close>

record NcpEndpoint =
  epHost :: string
  epPort :: u16

record ('w, 's) FailoverConnector =
  fcCtxErr :: "'w \<Rightarrow> go_error option"
  fcResolveActive :: "'w \<Rightarrow> (go_error + NcpEndpoint) \<times> 'w"
  fcConnect :: "NcpEndpoint \<Rightarrow> 'w \<Rightarrow> (go_error + 's) \<times> 'w"
  fcMaxAttempts :: int

definition NewFailoverConnector :: "('w \<Rightarrow> go_error option)
    \<Rightarrow> ('w \<Rightarrow> (go_error + NcpEndpoint) \<times> 'w) option
    \<Rightarrow> (NcpEndpoint \<Rightarrow> 'w \<Rightarrow> (go_error + 's) \<times> 'w) option \<Rightarrow> int
    \<Rightarrow> go_error + ('w, 's) FailoverConnector" where
  "NewFailoverConnector ctx resolveActive connect maxAttempts =
     (case resolveActive of
        None \<Rightarrow> Inl (PlainError ''ncp: resolveActive is required'')
      | Some ra \<Rightarrow>
          (case connect of
             None \<Rightarrow> Inl (PlainError ''ncp: connect is required'')
           | Some co \<Rightarrow>
               let maxAttempts = (if maxAttempts = 0 then 2 else maxAttempts)
               in if maxAttempts < 1
                  then Inl (PlainError (''ncp: maxAttempts must be >= 1, got '' @ dec_int maxAttempts))
                  else Inr \<lparr>fcCtxErr = ctx, fcResolveActive = ra, fcConnect = co,
                            fcMaxAttempts = maxAttempts\<rparr>))"

text \<open>The loop with the number of attempts that are left; the last error is nil at the start.\<close>

fun connect_attempts :: "('w, 's) FailoverConnector \<Rightarrow> nat \<Rightarrow> go_error option \<Rightarrow> 'w
    \<Rightarrow> (go_error option + 's) \<times> 'w" where
  "connect_attempts c 0 lastErr w = (Inl lastErr, w)"
| "connect_attempts c (Suc n) lastErr w =
     (case fcCtxErr c w of
        Some e \<Rightarrow> (Inl (Some e), w)
      | None \<Rightarrow>
          (case fcResolveActive c w of
             (Inl e, w) \<Rightarrow> (Inl (Some e), w)
           | (Inr ep, w) \<Rightarrow>
               (case fcConnect c ep w of
                  (Inr session, w) \<Rightarrow> (Inr session, w)
                | (Inl e, w) \<Rightarrow>
                    if \<not> IsFailoverShaped e then (Inl (Some e), w)
                    else connect_attempts c n (Some e) w)))"

definition Connect :: "('w, 's) FailoverConnector \<Rightarrow> 'w \<Rightarrow> (go_error option + 's) \<times> 'w" where
  "Connect c w = connect_attempts c (nat (fcMaxAttempts c)) None w"

section \<open>What a connector promises\<close>

text \<open>\<open>moved c n e w w'\<close>: \<open>n\<close> attempts in a row were resolved afresh and failed because the
  Anchor had moved, the last one with \<open>e\<close>.\<close>

inductive moved :: "('w, 's) FailoverConnector \<Rightarrow> nat \<Rightarrow> go_error option \<Rightarrow> 'w \<Rightarrow> 'w \<Rightarrow> bool"
  for c where
  moved_0: "moved c 0 None w w"
| moved_Suc: "moved c n e w w1 \<Longrightarrow> fcCtxErr c w1 = None \<Longrightarrow> fcResolveActive c w1 = (Inr ep, w2)
    \<Longrightarrow> fcConnect c ep w2 = (Inl e', w3) \<Longrightarrow> IsFailoverShaped e' \<Longrightarrow> moved c (Suc n) (Some e') w w3"

text \<open>How the attempt made in world \<open>w\<close> ends the loop.\<close>

inductive final_attempt :: "('w, 's) FailoverConnector \<Rightarrow> 'w \<Rightarrow> (go_error option + 's) \<Rightarrow> 'w \<Rightarrow> bool"
  for c where
  cancelled: "fcCtxErr c w = Some e \<Longrightarrow> final_attempt c w (Inl (Some e)) w"
| unresolved: "fcCtxErr c w = None \<Longrightarrow> fcResolveActive c w = (Inl e, w1)
    \<Longrightarrow> final_attempt c w (Inl (Some e)) w1"
| connected: "fcCtxErr c w = None \<Longrightarrow> fcResolveActive c w = (Inr ep, w1)
    \<Longrightarrow> fcConnect c ep w1 = (Inr session, w2) \<Longrightarrow> final_attempt c w (Inr session) w2"
| hard_fault: "fcCtxErr c w = None \<Longrightarrow> fcResolveActive c w = (Inr ep, w1)
    \<Longrightarrow> fcConnect c ep w1 = (Inl e, w2) \<Longrightarrow> \<not> IsFailoverShaped e \<Longrightarrow> final_attempt c w (Inl (Some e)) w2"


lemma attempts_final:
  "final_attempt c w r w' \<Longrightarrow> connect_attempts c (Suc n) e0 w = (r, w')"
  by (induction rule: final_attempt.induct) auto

lemma attempts_moved:
  "moved c k e w w1 \<Longrightarrow> connect_attempts c (k + n) None w = connect_attempts c n e w1"
proof (induction arbitrary: n rule: moved.induct)
  case (moved_Suc k e w w1 ep w2 e' w3)
  have "connect_attempts c (Suc k + n) None w = connect_attempts c (k + Suc n) None w" by simp
  also have "\<dots> = connect_attempts c (Suc n) e w1" by (rule moved_Suc.IH)
  also have "\<dots> = connect_attempts c n (Some e') w3" using moved_Suc.hyps by simp
  finally show ?case .
qed simp

text \<open>One attempt either ends the loop or has moved on.\<close>

lemma attempt_progress:
  obtains (final) r w' where "final_attempt c w r w'"
  | (moved) ep w1 e w2 where "fcCtxErr c w = None" "fcResolveActive c w = (Inr ep, w1)"
      "fcConnect c ep w1 = (Inl e, w2)" "IsFailoverShaped e"
  by (metis final_attempt.intros option.exhaust old.prod.exhaust sum.exhaust)

lemma attempts_run:
  "moved c k e0 w0 w \<Longrightarrow>
   (\<exists>j e w1. j < k + n \<and> moved c j e w0 w1
      \<and> final_attempt c w1 (fst (connect_attempts c n e0 w)) (snd (connect_attempts c n e0 w)))
   \<or> moved c (k + n) (case fst (connect_attempts c n e0 w) of Inl e \<Rightarrow> e | Inr _ \<Rightarrow> None) w0
        (snd (connect_attempts c n e0 w)) \<and> (\<exists>e. fst (connect_attempts c n e0 w) = Inl e)"
proof (induction n arbitrary: k e0 w)
  case (Suc n)
  show ?case
  proof (cases c w rule: attempt_progress)
    case (final r w')
    have "k < k + Suc n \<and> moved c k e0 w0 w \<and> final_attempt c w
        (fst (connect_attempts c (Suc n) e0 w)) (snd (connect_attempts c (Suc n) e0 w))"
      using Suc.prems final by (simp only: attempts_final [OF final] fst_conv snd_conv) simp
    then show ?thesis by blast
  next
    case (moved ep w1 e w2)
    have "moved c (Suc k) (Some e) w0 w2" using moved_Suc [OF Suc.prems moved] .
    from Suc.IH [OF this] moved show ?thesis by simp
  qed
qed auto

text \<open>C29: Connecting across a failover.  Some number \<open>k\<close> of attempts, at most the budget, is
  made and fails because the Anchor moved, each after a resolution of its own.  Either \<open>k\<close> is the
  whole budget and the last failure is returned, or the next attempt decides the result:
  cancellation, a resolver failure, a connect failure of another shape (both unchanged) or the
  session.\<close>

theorem connect_runs:
  "\<exists>k e w1. moved c k e w w1 \<and>
     (k = nat (fcMaxAttempts c) \<and> Connect c w = (Inl e, w1)
      \<or> k < nat (fcMaxAttempts c) \<and> final_attempt c w1 (fst (Connect c w)) (snd (Connect c w)))"
proof -
  let ?r = "connect_attempts c (nat (fcMaxAttempts c)) None w"
  from attempts_run [OF moved_0, where n = "nat (fcMaxAttempts c)" and c = c and w = w] show ?thesis
  proof
    assume "\<exists>j e w1. j < 0 + nat (fcMaxAttempts c) \<and> moved c j e w w1
      \<and> final_attempt c w1 (fst ?r) (snd ?r)"
    then show ?thesis unfolding Connect_def by auto
  next
    assume "moved c (0 + nat (fcMaxAttempts c)) (case fst ?r of Inl e \<Rightarrow> e | Inr _ \<Rightarrow> None) w (snd ?r)
      \<and> (\<exists>e. fst ?r = Inl e)"
    then show ?thesis unfolding Connect_def by (cases ?r) fastforce
  qed
qed

text \<open>C30: Reaching the new Anchor.  When fewer attempts than the budget fail because the Anchor
  moved and the next one resolves and connects, the connector returns that session.\<close>

theorem connect_reaches_successor:
  assumes "moved c k e w w1" and "k < nat (fcMaxAttempts c)" and "fcCtxErr c w1 = None"
    and "fcResolveActive c w1 = (Inr ep, w2)" and "fcConnect c ep w2 = (Inr session, w3)"
  shows "Connect c w = (Inr session, w3)"
proof -
  obtain n where "nat (fcMaxAttempts c) = k + Suc n"
    using assms(2) by (metis add_Suc_right less_imp_Suc_add)
  then have "Connect c w = connect_attempts c (Suc n) e w1"
    using attempts_moved [OF assms(1), of "Suc n"] by (simp add: Connect_def)
  then show ?thesis using assms(3-5) by simp
qed

text \<open>A cluster whose resolver still names the old Anchor at the first resolution.\<close>

definition sample_connector :: "(nat, string) FailoverConnector" where
  "sample_connector =
     \<lparr>fcCtxErr = (\<lambda>w. None),
      fcResolveActive = (\<lambda>w. (Inr \<lparr>epHost = (if w = 0 then ''old'' else ''new''), epPort = 17433\<rparr>, Suc w)),
      fcConnect = (\<lambda>ep w. (if epHost ep = ''new'' then Inr ''session''
                            else Inl (WrapError ''dial'' [OpError (Errno 111)]), w)),
      fcMaxAttempts = 2\<rparr>"

theorem connect_reaches_successor_witness:
  "Connect sample_connector 0 = (Inr ''session'', 2)"
proof (rule connect_reaches_successor [where ?w2.0 = 2 and ep = "\<lparr>epHost = ''new'', epPort = 17433\<rparr>"])
  show "moved sample_connector (Suc 0) (Some (WrapError ''dial'' [OpError (Errno 111)])) 0 1"
    by (rule moved_Suc [OF moved_0, where ep = "\<lparr>epHost = ''old'', epPort = 17433\<rparr>"])
       (simp_all add: sample_connector_def IsFailoverShaped_def List.map_filter_def)
qed (simp_all add: sample_connector_def)

end
