(* ===== verification/Ndp_Frames.thy ===== *)
theory Ndp_Frames
  imports Ncp_Frames
begin

text \<open>
  \<open>ndp/frames.go\<close>: announcements, resolve frames and topology snapshots.  The readers \<open>str\<close> and
  \<open>optStr\<close> are those of \<open>ncp/frames.go\<close>, of which this package has copies.  Slices that are
  written even when nil are options; those of which only the length is tested are lists.
\<close>

section \<open>Reading dictionaries\<close>

fun ndp_toUint64 :: "goany \<Rightarrow> u64" where
  "ndp_toUint64 (GNum KInt64 x) = word_of_int x"
| "ndp_toUint64 (GNum KUint64 x) = word_of_int x"
| "ndp_toUint64 (GF64 x) = f64_to_u64 x"
| "ndp_toUint64 (GNum KInt x) = word_of_int x"
| "ndp_toUint64 (GJnum s) = (case ParseUint64 s of Some n \<Rightarrow> n | None \<Rightarrow> 0)"
| "ndp_toUint64 _ = 0"

fun toSliceStr :: "goany \<Rightarrow> string list option" where
  "toSliceStr (GStrs ss) = Some ss"
| "toSliceStr (GList xs) = Some (strings_in xs)"
| "toSliceStr _ = None"

fun maps_in :: "goany list \<Rightarrow> dict list" where
  "maps_in [] = []"
| "maps_in (GMap m # xs) = m # maps_in xs"
| "maps_in (_ # xs) = maps_in xs"

fun toSliceMap :: "goany \<Rightarrow> dict list option" where
  "toSliceMap (GList xs) = Some (maps_in xs)"
| "toSliceMap _ = None"

fun toMap :: "goany \<Rightarrow> dict option" where
  "toMap (GMap m) = Some m"
| "toMap _ = None"

definition slice_len :: "'a list option \<Rightarrow> 'a list" where
  "slice_len v = (case v of Some xs \<Rightarrow> xs | None \<Rightarrow> [])"

definition typed_nil :: "('a \<Rightarrow> goany) \<Rightarrow> 'a option \<Rightarrow> goany" where
  "typed_nil f v = (case v of None \<Rightarrow> GTypedNil | Some x \<Rightarrow> f x)"

definition put_if :: "bool \<Rightarrow> string \<Rightarrow> goany \<Rightarrow> dict \<Rightarrow> dict" where
  "put_if c k v d = (if c then dput k v d else d)"

section \<open>AnnounceFrame\<close>

record AnnounceFrame =
  anNID :: string
  anAddresses :: "dict list option"
  anCaps :: "string list option"
  anTTL :: u64
  anTimestamp :: string
  anSignature :: string
  anNodeType :: "string option"
  anNodeRoles :: "string list"
  anClusterAnchor :: string
  anSpawnSpecRef :: string
  anBridgeProtocols :: "string list"
  anBridgeInboundProtocols :: "string list"
  anActivationMode :: string
  anActivationEndpoint :: "dict option"
  anHeartbeatIntervalMs :: u64
  anClusterEpoch :: "u64 option"
  anHealth :: string
  anLastSeen :: string
  anGraphSeq :: "u64 option"

definition sortedDict :: "dict \<Rightarrow> dict" where
  "sortedDict d = sort_key fst d"

text \<open>The optional fields that both dictionary forms write.\<close>

definition announce_optional :: "AnnounceFrame \<Rightarrow> dict \<Rightarrow> dict" where
  "announce_optional f d =
     (let d = put_opt ''node_type'' GStr (anNodeType f) d;
          d = put_if (anNodeRoles f \<noteq> []) ''node_roles'' (GStrs (anNodeRoles f)) d;
          d = put_if (anClusterAnchor f \<noteq> []) ''cluster_anchor'' (GStr (anClusterAnchor f)) d;
          d = put_if (anSpawnSpecRef f \<noteq> []) ''spawn_spec_ref'' (GStr (anSpawnSpecRef f)) d;
          d = put_if (anBridgeProtocols f \<noteq> []) ''bridge_protocols'' (GStrs (anBridgeProtocols f)) d;
          d = put_if (anBridgeInboundProtocols f \<noteq> []) ''bridge_inbound_protocols''
                (GStrs (anBridgeInboundProtocols f)) d;
          d = put_if (anActivationMode f \<noteq> []) ''activation_mode'' (GStr (anActivationMode f)) d;
          d = put_opt ''activation_endpoint'' GMap (anActivationEndpoint f) d;
          d = put_opt ''cluster_epoch'' gu64 (anClusterEpoch f) d
      in put_opt ''graph_seq'' gu64 (anGraphSeq f) d)"

definition AnnounceFrame_UnsignedDict :: "AnnounceFrame \<Rightarrow> dict" where
  "AnnounceFrame_UnsignedDict f =
     sortedDict (announce_optional f
       [(''nid'', GStr (anNID f)), (''addresses'', typed_nil GMaps (anAddresses f)),
        (''capabilities'', typed_nil GStrs (anCaps f)), (''ttl'', gu64 (anTTL f)),
        (''timestamp'', GStr (anTimestamp f)),
        (''heartbeat_interval_ms'', gu64 (anHeartbeatIntervalMs f))])"

definition AnnounceFrame_ToDict :: "AnnounceFrame \<Rightarrow> dict" where
  "AnnounceFrame_ToDict f =
     (let d = AnnounceFrame_UnsignedDict f;
          d = dput ''signature'' (GStr (anSignature f)) d;
          d = announce_optional f d;
          d = dput ''heartbeat_interval_ms'' (gu64 (anHeartbeatIntervalMs f)) d;
          d = put_if (anHealth f \<noteq> []) ''health'' (GStr (anHealth f)) d
      in put_if (anLastSeen f \<noteq> []) ''last_seen'' (GStr (anLastSeen f)) d)"

definition uint_or_nil :: "goany \<Rightarrow> u64 option" where
  "uint_or_nil v = (if v = GNil then None else Some (ndp_toUint64 v))"

definition AnnounceFrameFromDict :: "dict \<Rightarrow> AnnounceFrame" where
  "AnnounceFrameFromDict d =
     (let nodeRoles = (if dget d ''node_roles'' = GNil then dget d ''node_kind'' else dget d ''node_roles'');
          caps = (if dget d ''capabilities'' = GNil then dget d ''caps'' else dget d ''capabilities'');
          hbMs = (if dhas d ''heartbeat_interval_ms'' then ndp_toUint64 (dget d ''heartbeat_interval_ms'')
                  else 60000);
          ttl = ndp_toUint64 (dget d ''ttl'')
      in \<lparr>anNID = str d ''nid'', anAddresses = toSliceMap (dget d ''addresses''),
          anCaps = toSliceStr caps, anTTL = (if ttl = 0 then 300 else ttl),
          anTimestamp = str d ''timestamp'', anSignature = str d ''signature'',
          anNodeType = optStr d ''node_type'', anNodeRoles = slice_len (toSliceStr nodeRoles),
          anClusterAnchor = str d ''cluster_anchor'', anSpawnSpecRef = str d ''spawn_spec_ref'',
          anBridgeProtocols = slice_len (toSliceStr (dget d ''bridge_protocols'')),
          anBridgeInboundProtocols = slice_len (toSliceStr (dget d ''bridge_inbound_protocols'')),
          anActivationMode = str d ''activation_mode'',
          anActivationEndpoint = toMap (dget d ''activation_endpoint''),
          anHeartbeatIntervalMs = hbMs, anClusterEpoch = uint_or_nil (dget d ''cluster_epoch''),
          anHealth = str d ''health'', anLastSeen = str d ''last_seen'',
          anGraphSeq = uint_or_nil (dget d ''graph_seq'')\<rparr>)"

section \<open>ResolveFrame\<close>

record ResolveFrame =
  rfTarget :: string
  rfRequesterNID :: "string option"
  rfResolved :: "dict option"

definition ResolveFrame_ToDict :: "ResolveFrame \<Rightarrow> dict" where
  "ResolveFrame_ToDict f =
     put_opt ''resolved'' GMap (rfResolved f)
       (put_opt ''requester_nid'' GStr (rfRequesterNID f) [(''target'', GStr (rfTarget f))])"

definition ResolveFrameFromDict :: "dict \<Rightarrow> ResolveFrame" where
  "ResolveFrameFromDict d =
     \<lparr>rfTarget = str d ''target'', rfRequesterNID = optStr d ''requester_nid'',
      rfResolved = toMap (dget d ''resolved'')\<rparr>"

section \<open>GraphFrame\<close>

record GraphNode =
  gnNID :: string
  gnClusterAnchor :: string
  gnNodeRoles :: "string list"

record NdpGraphEdge =
  geFromNID :: string
  geToNID :: string
  geLatencyMs :: "int option"
  geProtocol :: string

record GraphFrame =
  gfGraphID :: string
  gfNodes :: "GraphNode list"
  gfEdges :: "NdpGraphEdge list"
  gfTTL :: int
  gfMetadata :: "dict option"

definition maxGraphNodes :: nat where
  "maxGraphNodes = 256"

definition maxGraphEdges :: nat where
  "maxGraphEdges = 1024"

definition graph_invalid :: "string \<Rightarrow> 'a res" where
  "graph_invalid m = Inl (ErrCode ''NDP-GRAPH-INVALID'' m)"

definition graph_too_large :: "string \<Rightarrow> 'a res" where
  "graph_too_large m = Inl (ErrCode ''NDP-GRAPH-TOO-LARGE'' m)"

fun check_nodes :: "GraphNode list \<Rightarrow> string list \<Rightarrow> string list res" where
  "check_nodes [] nodeIDs = Inr nodeIDs"
| "check_nodes (node # ns) nodeIDs =
     (if gnNID node = [] then graph_invalid ''graph nodes require nid''
      else check_nodes ns (gnNID node # nodeIDs))"

fun check_edges :: "NdpGraphEdge list \<Rightarrow> string list \<Rightarrow> unit res" where
  "check_edges [] nodeIDs = Inr ()"
| "check_edges (edge # es) nodeIDs =
     (if geFromNID edge = [] \<or> geToNID edge = [] then graph_invalid ''graph edges require from_nid and to_nid''
      else if geFromNID edge = geToNID edge then graph_invalid ''graph self-edges are forbidden''
      else if geFromNID edge \<notin> set nodeIDs then graph_invalid ''graph edge endpoints must appear in nodes''
      else if geToNID edge \<notin> set nodeIDs then graph_invalid ''graph edge endpoints must appear in nodes''
      else check_edges es nodeIDs)"

definition GraphFrame_Validate :: "GraphFrame \<Rightarrow> unit res" where
  "GraphFrame_Validate f =
     (if length (gfNodes f) > maxGraphNodes then graph_too_large ''nodes length exceeds 256''
      else if length (gfEdges f) > maxGraphEdges then graph_too_large ''edges length exceeds 1024''
      else bindr (check_nodes (gfNodes f) []) (check_edges (gfEdges f)))"

definition graphNodeFromMap :: "dict \<Rightarrow> GraphNode" where
  "graphNodeFromMap m =
     \<lparr>gnNID = str m ''nid'', gnClusterAnchor = str m ''cluster_anchor'',
      gnNodeRoles = slice_len (toSliceStr (dget m ''node_roles''))\<rparr>"

fun int_of_any :: "goany \<Rightarrow> int option" where
  "int_of_any (GF64 x) = Some (f64_to_int x)"
| "int_of_any (GNum KInt x) = Some x"
| "int_of_any (GNum KInt64 x) = Some x"
| "int_of_any _ = None"

definition ndpGraphEdgeFromMap :: "dict \<Rightarrow> NdpGraphEdge" where
  "ndpGraphEdgeFromMap m =
     \<lparr>geFromNID = str m ''from_nid'', geToNID = str m ''to_nid'',
      geLatencyMs = int_of_any (dget m ''latency_ms''), geProtocol = str m ''protocol''\<rparr>"

definition GraphFrameFromDict :: "dict \<Rightarrow> GraphFrame" where
  "GraphFrameFromDict d =
     \<lparr>gfGraphID = str d ''graph_id'',
      gfNodes = (case dget d ''nodes'' of GList arr \<Rightarrow> map graphNodeFromMap (maps_in arr) | _ \<Rightarrow> []),
      gfEdges = (case dget d ''edges'' of GList arr \<Rightarrow> map ndpGraphEdgeFromMap (maps_in arr) | _ \<Rightarrow> []),
      gfTTL = (case int_of_any (dget d ''ttl'') of Some x \<Rightarrow> x | None \<Rightarrow> 0),
      gfMetadata = toMap (dget d ''metadata'')\<rparr>"

section \<open>Lookups\<close>

lemma dget_put_if [simp, dict_simps]:
  "dget (put_if c k v d) j = (if c \<and> j = k then v else dget d j)"
  by (simp add: put_if_def)

lemma dhas_put_if [simp, dict_simps]: "dhas (put_if c k v d) j \<longleftrightarrow> (c \<and> j = k) \<or> dhas d j"
  by (auto simp: put_if_def)

lemma distinct_put_if [simp]: "distinct (map fst d) \<Longrightarrow> distinct (map fst (put_if c k v d))"
  by (simp add: put_if_def distinct_update)

lemma json_wf_put_if:
  assumes "json_wf F n (GMap d)" and "utf8_valid k" and "c \<Longrightarrow> json_wf F (n - 1) v"
  shows "json_wf F n (GMap (put_if c k v d))"
  using assms json_wf_dput by (simp add: put_if_def del: json_wf.simps)

lemma sortedDict_lookup [simp]:
  assumes "distinct (map fst d)"
  shows "dget (sortedDict d) k = dget d k" and "dhas (sortedDict d) k = dhas d k"
  using assms by (simp_all add: sortedDict_def dget_def dhas_def map_of_sort_key)

lemma distinct_announce_optional [simp]:
  "distinct (map fst d) \<Longrightarrow> distinct (map fst (announce_optional f d))"
  by (simp add: announce_optional_def Let_def)

lemma distinct_sortedDict [simp]: "distinct (map fst (sortedDict d)) \<longleftrightarrow> distinct (map fst d)"
  by (simp add: sortedDict_def distinct_map)

lemma distinct_UnsignedDict [simp]: "distinct (map fst (AnnounceFrame_UnsignedDict f))"
  by (simp add: AnnounceFrame_UnsignedDict_def)

lemma distinct_ToDict [simp]: "distinct (map fst (AnnounceFrame_ToDict f))"
  by (simp add: AnnounceFrame_ToDict_def Let_def distinct_update)

text \<open>What the optional fields read as.\<close>

definition opt_or :: "('a \<Rightarrow> goany) \<Rightarrow> 'a option \<Rightarrow> goany \<Rightarrow> goany" where
  "opt_or f v w = (case v of None \<Rightarrow> w | Some x \<Rightarrow> f x)"

lemma dget_put_opt_or: "dget (put_opt k f v d) j = (if j = k then opt_or f v (dget d j) else dget d j)"
  by (cases v) (simp_all add: opt_or_def)

lemma dget_announce_optional:
  "dget (announce_optional f d) k =
     (if k = ''node_type'' then opt_or GStr (anNodeType f) (dget d k)
      else if k = ''node_roles'' \<and> anNodeRoles f \<noteq> [] then GStrs (anNodeRoles f)
      else if k = ''cluster_anchor'' \<and> anClusterAnchor f \<noteq> [] then GStr (anClusterAnchor f)
      else if k = ''spawn_spec_ref'' \<and> anSpawnSpecRef f \<noteq> [] then GStr (anSpawnSpecRef f)
      else if k = ''bridge_protocols'' \<and> anBridgeProtocols f \<noteq> [] then GStrs (anBridgeProtocols f)
      else if k = ''bridge_inbound_protocols'' \<and> anBridgeInboundProtocols f \<noteq> []
      then GStrs (anBridgeInboundProtocols f)
      else if k = ''activation_mode'' \<and> anActivationMode f \<noteq> [] then GStr (anActivationMode f)
      else if k = ''activation_endpoint'' then opt_or GMap (anActivationEndpoint f) (dget d k)
      else if k = ''cluster_epoch'' then opt_or gu64 (anClusterEpoch f) (dget d k)
      else if k = ''graph_seq'' then opt_or gu64 (anGraphSeq f) (dget d k)
      else dget d k)"
  by (simp add: announce_optional_def Let_def dget_put_opt_or del: dget_put_opt)

lemma dhas_announce_optional:
  "dhas d k \<Longrightarrow> dhas (announce_optional f d) k"
  by (simp add: announce_optional_def Let_def)

lemma dget_Announce:
  "dget (AnnounceFrame_ToDict f) ''nid'' = GStr (anNID f)"
  "dget (AnnounceFrame_ToDict f) ''addresses'' = typed_nil GMaps (anAddresses f)"
  "dget (AnnounceFrame_ToDict f) ''capabilities'' = typed_nil GStrs (anCaps f)"
  "dget (AnnounceFrame_ToDict f) ''caps'' = GNil"
  "dget (AnnounceFrame_ToDict f) ''node_kind'' = GNil"
  "dget (AnnounceFrame_ToDict f) ''ttl'' = gu64 (anTTL f)"
  "dget (AnnounceFrame_ToDict f) ''timestamp'' = GStr (anTimestamp f)"
  "dget (AnnounceFrame_ToDict f) ''signature'' = GStr (anSignature f)"
  "dget (AnnounceFrame_ToDict f) ''heartbeat_interval_ms'' = gu64 (anHeartbeatIntervalMs f)"
  "dhas (AnnounceFrame_ToDict f) ''heartbeat_interval_ms''"
  "dget (AnnounceFrame_ToDict f) ''node_type'' = opt_or GStr (anNodeType f) GNil"
  "dget (AnnounceFrame_ToDict f) ''node_roles'' = (if anNodeRoles f \<noteq> [] then GStrs (anNodeRoles f) else GNil)"
  "dget (AnnounceFrame_ToDict f) ''cluster_anchor''
     = (if anClusterAnchor f \<noteq> [] then GStr (anClusterAnchor f) else GNil)"
  "dget (AnnounceFrame_ToDict f) ''spawn_spec_ref''
     = (if anSpawnSpecRef f \<noteq> [] then GStr (anSpawnSpecRef f) else GNil)"
  "dget (AnnounceFrame_ToDict f) ''bridge_protocols''
     = (if anBridgeProtocols f \<noteq> [] then GStrs (anBridgeProtocols f) else GNil)"
  "dget (AnnounceFrame_ToDict f) ''bridge_inbound_protocols''
     = (if anBridgeInboundProtocols f \<noteq> [] then GStrs (anBridgeInboundProtocols f) else GNil)"
  "dget (AnnounceFrame_ToDict f) ''activation_mode''
     = (if anActivationMode f \<noteq> [] then GStr (anActivationMode f) else GNil)"
  "dget (AnnounceFrame_ToDict f) ''activation_endpoint'' = opt_or GMap (anActivationEndpoint f) GNil"
  "dget (AnnounceFrame_ToDict f) ''cluster_epoch'' = opt_or gu64 (anClusterEpoch f) GNil"
  "dget (AnnounceFrame_ToDict f) ''graph_seq'' = opt_or gu64 (anGraphSeq f) GNil"
  "dget (AnnounceFrame_ToDict f) ''health'' = (if anHealth f \<noteq> [] then GStr (anHealth f) else GNil)"
  "dget (AnnounceFrame_ToDict f) ''last_seen'' = (if anLastSeen f \<noteq> [] then GStr (anLastSeen f) else GNil)"
  by (simp_all add: AnnounceFrame_ToDict_def AnnounceFrame_UnsignedDict_def Let_def
      dget_announce_optional opt_or_def split: option.split)

section \<open>Announcements on the JSON wire\<close>

text \<open>What an announcement becomes: its maps in JSON form, and a lifetime of 0 turned into 300.\<close>

definition jmap :: "float_fmt \<Rightarrow> dict \<Rightarrow> dict" where
  "jmap F d = sort_key fst (map (\<lambda>(k, v). (k, jnorm F v)) d)"

definition announce_norm :: "float_fmt \<Rightarrow> AnnounceFrame \<Rightarrow> AnnounceFrame" where
  "announce_norm F f = f
     \<lparr>anAddresses := map_option (map (jmap F)) (anAddresses f),
      anActivationEndpoint := map_option (jmap F) (anActivationEndpoint f),
      anTTL := (if anTTL f = 0 then 300 else anTTL f)\<rparr>"

definition small :: "u64 \<Rightarrow> bool" where
  "small w \<longleftrightarrow> uint w < 2 ^ 53"

definition announce_ok :: "float_fmt \<Rightarrow> AnnounceFrame \<Rightarrow> bool" where
  "announce_ok F f \<longleftrightarrow>
     list_all utf8_valid [anNID f, anTimestamp f, anSignature f, anClusterAnchor f, anSpawnSpecRef f,
       anActivationMode f, anHealth f, anLastSeen f]
     \<and> pred_option (list_all utf8_valid) (anCaps f) \<and> pred_option utf8_valid (anNodeType f)
     \<and> list_all utf8_valid (anNodeRoles f) \<and> list_all utf8_valid (anBridgeProtocols f)
     \<and> list_all utf8_valid (anBridgeInboundProtocols f)
     \<and> pred_option (\<lambda>ds. json_wf F 9999 (GMaps ds)) (anAddresses f)
     \<and> pred_option (\<lambda>d. json_wf F 9999 (GMap d)) (anActivationEndpoint f)
     \<and> small (anTTL f) \<and> small (anHeartbeatIntervalMs f)
     \<and> pred_option small (anClusterEpoch f) \<and> pred_option small (anGraphSeq f)"

lemma ndp_toUint64_jnorm: "small w \<Longrightarrow> ndp_toUint64 (jnorm F (gu64 w)) = w"
  by (simp add: small_def f64_to_u64_of_int)

lemma maps_in_GMap [simp]: "maps_in (map (\<lambda>d. GMap (g d)) ds) = map g ds"
  by (induction ds) auto

lemma announce_from_json:
  assumes "announce_ok F f"
  shows "AnnounceFrameFromDict (jmap F (AnnounceFrame_ToDict f)) = announce_norm F f"
proof -
  note rd = dget_jnorm [OF distinct_ToDict, of F f, folded jmap_def]
  have ok: "small (anTTL f)" "small (anHeartbeatIntervalMs f)"
    "pred_option small (anClusterEpoch f)" "pred_option small (anGraphSeq f)"
    using assms by (simp_all add: announce_ok_def)
  have num: "ndp_toUint64 (jnorm F (gu64 (anTTL f))) = anTTL f"
    "ndp_toUint64 (jnorm F (gu64 (anHeartbeatIntervalMs f))) = anHeartbeatIntervalMs f"
    "uint_or_nil (jnorm F (opt_or gu64 (anClusterEpoch f) GNil)) = anClusterEpoch f"
    "uint_or_nil (jnorm F (opt_or gu64 (anGraphSeq f) GNil)) = anGraphSeq f"
    using ok ndp_toUint64_jnorm
    by (auto simp: uint_or_nil_def opt_or_def split: option.splits)
  show ?thesis
    by (rule AnnounceFrame.equality)
       (simp_all add: AnnounceFrameFromDict_def announce_norm_def str_def optStr_def rd dget_Announce
         num Let_def del: jnorm.simps(3),
        simp_all add: opt_or_def typed_nil_def slice_len_def jmap_def [abs_def] split: option.split)
qed

lemma json_wf_sortedDict: "json_wf F n (GMap (sortedDict d)) = json_wf F n (GMap d)"
  by (simp add: sortedDict_def distinct_map list_all_iff)

lemma announce_optional_wf:
  assumes "announce_ok F f" and "json_wf F 10000 (GMap d)"
  shows "json_wf F 10000 (GMap (announce_optional f d))"
  unfolding announce_optional_def Let_def
  using assms
  by (intro json_wf_put_opt json_wf_put_if; (simp add: utf8_ascii del: utf8_valid.simps; fail)?)
     (auto simp: announce_ok_def simp del: utf8_valid.simps)

lemma announce_json_wf:
  assumes "announce_ok F f"
  shows "json_wf F 10000 (GMap (AnnounceFrame_ToDict f))"
proof -
  have base: "json_wf F 10000 (GMap [(''nid'', GStr (anNID f)), (''addresses'', typed_nil GMaps (anAddresses f)),
        (''capabilities'', typed_nil GStrs (anCaps f)), (''ttl'', gu64 (anTTL f)),
        (''timestamp'', GStr (anTimestamp f)),
        (''heartbeat_interval_ms'', gu64 (anHeartbeatIntervalMs f))])"
    using assms
    by (cases "anAddresses f"; cases "anCaps f")
       (simp_all add: announce_ok_def typed_nil_def utf8_ascii del: utf8_valid.simps)
  have u: "json_wf F 10000 (GMap (AnnounceFrame_UnsignedDict f))"
    unfolding AnnounceFrame_UnsignedDict_def json_wf_sortedDict
    by (rule announce_optional_wf [OF assms base])
  have sig: "json_wf F 10000 (GMap (dput ''signature'' (GStr (anSignature f)) (AnnounceFrame_UnsignedDict f)))"
    using assms by (intro json_wf_dput u) (simp_all add: utf8_ascii announce_ok_def del: utf8_valid.simps)
  show ?thesis
    unfolding AnnounceFrame_ToDict_def Let_def
    using assms announce_optional_wf [OF assms sig]
    by (intro json_wf_put_if json_wf_dput) (simp_all add: utf8_ascii announce_ok_def del: utf8_valid.simps)
qed

section \<open>Properties\<close>

text \<open>C38: An announcement that is encoded with the JSON tier and decoded at the other end is the
  announcement that was sent, with its maps in JSON form: the node, its addresses, capabilities and
  roles, the cluster and its epoch, the sequence number, the signature and the liveness fields all
  survive.  The one exception is a lifetime of 0, which withdraws a node and arrives as 300.\<close>

theorem announce_wire_roundtrip:
  assumes "announce_ok (sFmt S) f" and "codec_ok c FrameTypeAnnounce"
  shows "case Encode S c FrameTypeAnnounce (AnnounceFrame_ToDict f) EncodingTierJSON fin of
      Inr wire \<Rightarrow> \<exists>d. Decode S c (wire @ rest) = Inr (FrameTypeAnnounce, d)
                    \<and> AnnounceFrameFromDict d = announce_norm (sFmt S) f
    | Inl e \<Rightarrow> \<exists>p. encodePayload S (AnnounceFrame_ToDict f) EncodingTierJSON = Inr p
                 \<and> MaxPayload c < int (length p)"
  using json_encode_decode [OF announce_json_wf [OF assms(1)] assms(2), where fin = fin and rest = rest]
    announce_from_json [OF assms(1)]
  by (auto simp: jmap_def split: sum.splits)

definition sample_announce :: AnnounceFrame where
  "sample_announce =
     \<lparr>anNID = ''urn:nps:node:a.example:x'', anAddresses = Some [[(''host'', GStr ''a''), (''port'', GNum KInt 17433)]],
      anCaps = Some [''nwp:query''], anTTL = 0, anTimestamp = ''2026-01-01T00:00:00Z'',
      anSignature = ''ed25519:AA'', anNodeType = None, anNodeRoles = [''anchor''], anClusterAnchor = ''c1'',
      anSpawnSpecRef = [], anBridgeProtocols = [], anBridgeInboundProtocols = [], anActivationMode = [],
      anActivationEndpoint = None, anHeartbeatIntervalMs = 60000, anClusterEpoch = Some 7, anHealth = [],
      anLastSeen = [], anGraphSeq = Some 3\<rparr>"

lemma sample_announce_ok: "announce_ok F sample_announce"
  by (simp add: announce_ok_def sample_announce_def small_def utf8_ascii del: utf8_valid.simps)

lemma sample_codec_announce: "codec_ok sample_full_codec FrameTypeAnnounce"
proof -
  have "IsRegistered CreateFullRegistry FrameTypeAnnounce" by code_simp
  then show ?thesis
    by (simp add: codec_ok_def sample_full_codec_def NewNpsFrameCodec_def DefaultMaxPayload_def
        knownFrameTypes_def)
qed

theorem announce_wire_roundtrip_witness:
  "case Encode sample_serializers sample_full_codec FrameTypeAnnounce (AnnounceFrame_ToDict sample_announce)
        EncodingTierJSON True of
      Inr wire \<Rightarrow> \<exists>d. Decode sample_serializers sample_full_codec (wire @ [1]) = Inr (FrameTypeAnnounce, d)
                    \<and> AnnounceFrameFromDict d = announce_norm (sFmt sample_serializers) sample_announce
    | Inl e \<Rightarrow> \<exists>p. encodePayload sample_serializers (AnnounceFrame_ToDict sample_announce) EncodingTierJSON
                   = Inr p \<and> MaxPayload sample_full_codec < int (length p)"
  by (rule announce_wire_roundtrip [OF sample_announce_ok sample_codec_announce])

lemma check_nodes_Inr:
  "check_nodes ns ids = Inr ids' \<longleftrightarrow> [] \<notin> gnNID ` set ns \<and> ids' = rev (map gnNID ns) @ ids"
  by (induction ns arbitrary: ids) (auto simp: graph_invalid_def)

lemma check_edges_Inr:
  "check_edges es ids = Inr () \<longleftrightarrow>
     (\<forall>e\<in>set es. geFromNID e \<noteq> [] \<and> geToNID e \<noteq> [] \<and> geFromNID e \<noteq> geToNID e
        \<and> geFromNID e \<in> set ids \<and> geToNID e \<in> set ids)"
  by (induction es) (auto simp: graph_invalid_def)

text \<open>A topology snapshot is accepted exactly when it is within the size limits, every node is
  named, and every edge joins two different nodes of the snapshot.\<close>

theorem graph_validate_iff:
  "GraphFrame_Validate f = Inr () \<longleftrightarrow>
     length (gfNodes f) \<le> 256 \<and> length (gfEdges f) \<le> 1024
   \<and> [] \<notin> gnNID ` set (gfNodes f)
   \<and> (\<lambda>e. (geFromNID e, geToNID e)) ` set (gfEdges f)
       \<subseteq> {(a, b). a \<in> gnNID ` set (gfNodes f) \<and> b \<in> gnNID ` set (gfNodes f) \<and> a \<noteq> b}"
proof -
  have "GraphFrame_Validate f = Inr () \<longleftrightarrow> length (gfNodes f) \<le> 256 \<and> length (gfEdges f) \<le> 1024
      \<and> (\<exists>ids. check_nodes (gfNodes f) [] = Inr ids \<and> check_edges (gfEdges f) ids = Inr ())"
    by (auto simp: GraphFrame_Validate_def maxGraphNodes_def maxGraphEdges_def graph_too_large_def bindr_Inr_iff)
  moreover have "(\<forall>e\<in>set (gfEdges f). geFromNID e \<noteq> [] \<and> geToNID e \<noteq> [] \<and> geFromNID e \<noteq> geToNID e
        \<and> geFromNID e \<in> N \<and> geToNID e \<in> N)
      \<longleftrightarrow> (\<lambda>e. (geFromNID e, geToNID e)) ` set (gfEdges f) \<subseteq> {(a, b). a \<in> N \<and> b \<in> N \<and> a \<noteq> b}"
    if "[] \<notin> N" for N
    using that unfolding image_subset_iff by fastforce
  ultimately show ?thesis by (simp add: check_nodes_Inr check_edges_Inr cong: conj_cong)
qed

end
