(* ===== verification/Epoch_Election.thy ===== *)
theory Epoch_Election
  imports NPS_Prelude "HOL-Library.Multiset"
begin

text \<open>
  The contract of a cluster election by epoch: among the live members of a cluster the one with the
  strictly highest epoch owns it, and a tie at the top is reported instead of being broken.  The two
  registries of \<open>ndp\<close> are providers.  The lemmas say what clients rely on: the owner is
  unique and does not depend on the order in which the members are listed, a member with a higher
  epoch takes over, and one with a lower epoch changes nothing.
\<close>

datatype 'm election = Vacant | Owner 'm | Split u64

definition top_members :: "('m \<Rightarrow> u64) \<Rightarrow> 'm list \<Rightarrow> 'm list" where
  "top_members epoch ms = filter (\<lambda>m. \<forall>x\<in>set ms. epoch x \<le> epoch m) ms"

text \<open>The running maximum that both registries compute, and the members that have it.\<close>

definition top_epoch_of :: "('m \<Rightarrow> u64) \<Rightarrow> 'm list \<Rightarrow> u64 \<Rightarrow> u64" where
  "top_epoch_of epoch ms t = fold (\<lambda>m top. if epoch m > top then epoch m else top) ms t"

lemma top_epoch_of_bound:
  "t \<le> top_epoch_of epoch ms t \<and> (\<forall>x\<in>set ms. epoch x \<le> top_epoch_of epoch ms t)
   \<and> (top_epoch_of epoch ms t = t \<or> (\<exists>x\<in>set ms. top_epoch_of epoch ms t = epoch x))"
proof (induction ms arbitrary: t)
  case (Cons m ms)
  let ?t = "if epoch m > t then epoch m else t"
  have "top_epoch_of epoch (m # ms) t = top_epoch_of epoch ms ?t" by (simp add: top_epoch_of_def)
  moreover have "t \<le> ?t" "epoch m \<le> ?t" "?t = t \<or> ?t = epoch m" by auto
  ultimately show ?case using Cons.IH [of ?t] order_trans by auto
qed (simp add: top_epoch_of_def)

lemma top_members_eq:
  assumes "\<And>x. x \<in> set ms \<Longrightarrow> epoch x \<le> t" and "y \<in> set ms" and "epoch y = t"
  shows "filter (\<lambda>m. epoch m = t) ms = top_members epoch ms"
  unfolding top_members_def using assms by (intro filter_cong) (auto intro: antisym)

lemma epoch_top_ne: "ms \<noteq> [] \<Longrightarrow> top_members epoch ms \<noteq> []"
proof -
  assume "ms \<noteq> []"
  then have "Max (epoch ` set ms) \<in> epoch ` set ms" by simp
  then obtain m where "m \<in> set ms" "epoch m = Max (epoch ` set ms)" by fastforce
  then have "\<forall>x\<in>set ms. epoch x \<le> epoch m" by simp
  then show ?thesis using \<open>m \<in> set ms\<close> by (auto simp: top_members_def filter_empty_conv)
qed

locale epoch_election =
  fixes epoch :: "'m \<Rightarrow> u64"
    and elect :: "'m list \<Rightarrow> 'm election"
  assumes vacant_iff: "elect ms = Vacant \<longleftrightarrow> ms = []"
    and owner_iff: "elect ms = Owner m \<longleftrightarrow> top_members epoch ms = [m]"
    and split_iff: "elect ms = Split e \<longleftrightarrow> length (top_members epoch ms) > 1
          \<and> e = epoch (hd (top_members epoch ms))"
begin

lemma owner_highest:
  assumes "elect ms = Owner m"
  shows "m \<in> set ms" and "x \<in> set ms \<Longrightarrow> x \<noteq> m \<Longrightarrow> epoch x < epoch m"
proof -
  have *: "x \<in> set ms \<and> (\<forall>y\<in>set ms. epoch y \<le> epoch x) \<longleftrightarrow> x = m" for x
  proof -
    have "x \<in> set (top_members epoch ms) \<longleftrightarrow> x = m" using assms by (simp add: owner_iff)
    then show ?thesis by (simp add: top_members_def)
  qed
  show "m \<in> set ms" using * by blast
  assume x: "x \<in> set ms" "x \<noteq> m"
  then obtain y where "y \<in> set ms" "epoch x < epoch y" using * by (metis not_le)
  then show "epoch x < epoch m" using * by (metis order_less_le_trans)
qed

lemma takeover:
  assumes "\<And>x. x \<in> set xs \<union> set ys \<Longrightarrow> epoch x < epoch m"
  shows "elect (xs @ m # ys) = Owner m"
proof -
  have "filter (\<lambda>z. \<forall>x\<in>set (xs @ m # ys). epoch x \<le> epoch z) zs = []"
    if "set zs \<subseteq> set xs \<union> set ys" for zs
    using that assms by (auto simp: filter_empty_conv not_le)
  then show ?thesis
    using assms by (auto simp: owner_iff top_members_def less_imp_le)
qed

lemma top_members_mset:
  "mset ms = mset ns \<Longrightarrow> mset (top_members epoch ms) = mset (top_members epoch ns)"
  unfolding top_members_def by (metis (no_types) mset_eq_setD mset_filter)

text \<open>Every member at the top has the same epoch.\<close>

lemma top_epoch:
  "x \<in> set (top_members epoch ms) \<Longrightarrow> y \<in> set (top_members epoch ms) \<Longrightarrow> epoch x = epoch y"
  by (auto simp: top_members_def intro: antisym)

lemma elect_permuted:
  assumes "mset ms = mset ns"
  shows "elect ms = elect ns"
proof (cases "elect ms")
  case Vacant
  then show ?thesis using assms vacant_iff by (metis mset_zero_iff_right)
next
  case (Owner m)
  then have "mset (top_members epoch ns) = {#m#}"
    using top_members_mset [OF assms] by (simp add: owner_iff)
  then show ?thesis using Owner owner_iff by (metis mset_single_iff_right)
next
  case (Split e)
  let ?m = "top_members epoch ms" and ?n = "top_members epoch ns"
  have l: "1 < length ?n" "e = epoch (hd ?m)"
    using Split split_iff top_members_mset [OF assms] by (metis size_mset)+
  have "?m \<noteq> []" "?n \<noteq> []" using l Split split_iff by auto
  moreover have "set ?m = set ?n" using top_members_mset [OF assms] by (rule mset_eq_setD)
  ultimately have "epoch (hd ?m) = epoch (hd ?n)" using top_epoch by (metis hd_in_set)
  then show ?thesis using l Split split_iff by metis
qed

text \<open>A member that comes back with a lower epoch than the owner's is fenced off.\<close>

lemma fenced:
  assumes "elect (xs @ ys) = Owner m" and "epoch x < epoch m"
  shows "elect (xs @ x # ys) = Owner m"
proof -
  have m: "m \<in> set (xs @ ys)" by (rule owner_highest(1) [OF assms(1)])
  let ?P = "\<lambda>z. \<forall>y\<in>set (xs @ ys). epoch y \<le> epoch z"
  have "(\<forall>y\<in>set (xs @ x # ys). epoch y \<le> epoch z) \<longleftrightarrow> ?P z" for z
  proof
    assume p: "?P z"
    then have "epoch x \<le> epoch z" using m assms(2) by (meson less_imp_le order_trans)
    then show "\<forall>y\<in>set (xs @ x # ys). epoch y \<le> epoch z" using p by auto
  qed auto
  moreover have "\<not> ?P x" using m assms(2) by (meson not_le)
  ultimately have "top_members epoch (xs @ x # ys) = filter ?P (xs @ ys)"
    unfolding top_members_def by auto
  then show ?thesis using assms(1) by (simp add: owner_iff top_members_def)
qed

end

end
