(* ===== verification/Go_Time.thy ===== *)
theory Go_Time
  imports Go_Values
begin

text \<open>
  What the SDK uses of the package \<open>time\<close>.  An instant is its distance from the Unix epoch in
  nanoseconds, a duration a signed 64-bit number of nanoseconds kept as an integer.
  \<open>parse_rfc3339\<close> is \<open>time.Parse(time.RFC3339, s)\<close>: a one-digit hour, a fraction after a point or a
  comma (digits beyond the ninth dropped) and offsets up to 24:60 are accepted, as the library does.
\<close>

type_synonym instant = int

definition second_ns :: int where
  "second_ns = 1000000000"

section \<open>Durations\<close>

definition max_duration :: int where
  "max_duration = 2 ^ 63 - 1"

definition min_duration :: int where
  "min_duration = - (2 ^ 63)"

text \<open>\<open>Time.Sub\<close> saturates, and so does \<open>Duration.Abs\<close>.\<close>

definition time_sub :: "instant \<Rightarrow> instant \<Rightarrow> int" where
  "time_sub t u = max min_duration (min max_duration (t - u))"

definition duration_abs :: "int \<Rightarrow> int" where
  "duration_abs d = (if d = min_duration then max_duration else \<bar>d\<bar>)"

text \<open>\<open>time.Duration(n) * time.Second\<close>.\<close>

definition seconds :: "int \<Rightarrow> int" where
  "seconds n = wrap64 (wrap64 n * second_ns)"

lemma duration_abs_sub:
  assumes "0 \<le> d" "d < max_duration"
  shows "duration_abs (time_sub t u) > d \<longleftrightarrow> \<bar>t - u\<bar> > d"
  using assms by (auto simp: duration_abs_def time_sub_def min_duration_def max_duration_def min_def max_def)

lemma seconds_u32: "0 \<le> n \<Longrightarrow> n < 2 ^ 32 \<Longrightarrow> seconds n = n * second_ns"
  by (simp add: seconds_def second_ns_def wrap64_id)

section \<open>Calendar\<close>

definition is_leap :: "int \<Rightarrow> bool" where
  "is_leap y \<longleftrightarrow> y mod 4 = 0 \<and> (y mod 100 \<noteq> 0 \<or> y mod 400 = 0)"

definition days_in :: "int \<Rightarrow> int \<Rightarrow> int" where
  "days_in m y =
     (if m = 2 then (if is_leap y then 29 else 28)
      else if m \<in> {4, 6, 9, 11} then 30 else 31)"

text \<open>Days from 1 January of the year 0 to 1 January of \<open>y\<close>, for \<open>0 \<le> y\<close>.\<close>

definition days_before_year :: "int \<Rightarrow> int" where
  "days_before_year y = 365 * y + (y + 3) div 4 - (y + 99) div 100 + (y + 399) div 400"

definition days_before_month :: "int \<Rightarrow> int \<Rightarrow> int" where
  "days_before_month m y = sum_list (map (\<lambda>k. days_in k y) [1..m - 1])"

definition unix_days :: "int \<Rightarrow> int \<Rightarrow> int \<Rightarrow> int" where
  "unix_days y m d = days_before_year y + days_before_month m y + (d - 1) - 719528"

lemma div_step:
  fixes y k :: int
  assumes "0 < k"
  shows "(y + k) div k = (y + (k - 1)) div k + (if y mod k = 0 then 1 else 0)"
proof -
  let ?q = "y div k" and ?r = "y mod k"
  have y: "y = k * ?q + ?r" by simp
  have r: "0 \<le> ?r" "?r < k" using assms by simp_all
  have "(y + (k - 1)) div k = ?q + (if ?r = 0 then 0 else 1)"
  proof (rule int_div_pos_eq)
    show "y + (k - 1) = k * (?q + (if ?r = 0 then 0 else 1)) + (if ?r = 0 then k - 1 else ?r - 1)"
      using y by (cases "?r = 0") (simp_all add: algebra_simps)
  qed (use r in auto)
  moreover have "(y + k) div k = ?q + 1"
    using y r by (intro int_div_pos_eq [where r = "?r"]) (simp_all add: algebra_simps)
  ultimately show ?thesis by simp
qed

lemma year_length:
  "days_before_year (y + 1) = days_before_year y + (if is_leap y then 366 else 365)"
proof -
  have m: "y mod 400 = 0 \<Longrightarrow> y mod 100 = 0" "y mod 100 = 0 \<Longrightarrow> y mod 4 = 0"
    using mod_mod_cancel [of 100 400 y] mod_mod_cancel [of 4 100 y] by auto
  have "days_before_year (y + 1) = 365 * y + 365 + (y + 4) div 4 - (y + 100) div 100 + (y + 400) div 400"
    by (simp add: days_before_year_def algebra_simps)
  also have "\<dots> = days_before_year y + 365 + (if y mod 4 = 0 then 1 else 0)
      - (if y mod 100 = 0 then 1 else 0) + (if y mod 400 = 0 then 1 else 0)"
    unfolding div_step [of 4 y, simplified] div_step [of 100 y, simplified] div_step [of 400 y, simplified]
      days_before_year_def by simp
  finally show ?thesis
    by (cases "y mod 4 = 0"; cases "y mod 100 = 0"; cases "y mod 400 = 0")
       (simp_all add: is_leap_def m)
qed

text \<open>The months of a year fill it.\<close>

lemma year_months: "days_before_month 13 y = (if is_leap y then 366 else 365)"
  by (simp add: days_before_month_def days_in_def upto_rec1)

section \<open>Parsing\<close>

definition digit_at :: "string \<Rightarrow> nat \<Rightarrow> bool" where
  "digit_at s i \<longleftrightarrow> i < length s \<and> is_digit (s ! i)"

definition digit_int :: "char \<Rightarrow> int" where
  "digit_int c = of_char c - 48"

definition digits_int :: "string \<Rightarrow> int" where
  "digits_int s = fold (\<lambda>c n. 10 * n + digit_int c) s 0"

definition getnum :: "bool \<Rightarrow> string \<Rightarrow> (int \<times> string) option" where
  "getnum fixed s =
     (if \<not> digit_at s 0 then None
      else if \<not> digit_at s 1 then (if fixed then None else Some (digit_int (s ! 0), drop 1 s))
      else Some (10 * digit_int (s ! 0) + digit_int (s ! 1), drop 2 s))"

definition get_year :: "string \<Rightarrow> (int \<times> string) option" where
  "get_year s =
     (if list_all (digit_at s) [0, 1, 2, 3]
      then Some (digits_int (take 4 s), drop 4 s) else None)"

definition get_char :: "char \<Rightarrow> string \<Rightarrow> string option" where
  "get_char c s = (case s of x # r \<Rightarrow> if x = c then Some r else None | [] \<Rightarrow> None)"

text \<open>A fraction of a second in nanoseconds, when there is one.\<close>

definition get_fraction :: "string \<Rightarrow> int \<times> string" where
  "get_fraction s =
     (if s \<noteq> [] \<and> hd s \<in> {CHR ''.'', CHR '',''} \<and> digit_at s 1
      then let ds = takeWhile is_digit (tl s); ns = take 9 ds
           in (digits_int ns * 10 ^ (9 - length ns), drop (length ds) (tl s))
      else (0, s))"

text \<open>The offset from UTC in seconds.\<close>

definition get_zone :: "string \<Rightarrow> (int \<times> string) option" where
  "get_zone s =
     (if s \<noteq> [] \<and> hd s = CHR ''Z'' then Some (0, tl s)
      else if length s < 6 \<or> s ! 3 \<noteq> CHR '':'' then None
      else (case (getnum True (take 2 (drop 1 s)), getnum True (take 2 (drop 4 s))) of
              (Some (hr, _), Some (mm, _)) \<Rightarrow>
                if hr > 24 \<or> mm > 60 then None
                else if hd s = CHR ''+'' then Some ((hr * 60 + mm) * 60, drop 6 s)
                else if hd s = CHR ''-'' then Some (- ((hr * 60 + mm) * 60), drop 6 s)
                else None
            | _ \<Rightarrow> None))"

definition parse_rfc3339 :: "string \<Rightarrow> instant option" where
  "parse_rfc3339 s =
     Option.bind (get_year s) (\<lambda>(y, s).
     Option.bind (get_char CHR ''-'' s) (\<lambda>s. Option.bind (getnum True s) (\<lambda>(mo, s).
     if mo < 1 \<or> mo > 12 then None else
     Option.bind (get_char CHR ''-'' s) (\<lambda>s. Option.bind (getnum True s) (\<lambda>(d, s).
     Option.bind (get_char CHR ''T'' s) (\<lambda>s. Option.bind (getnum False s) (\<lambda>(h, s).
     if h \<ge> 24 then None else
     Option.bind (get_char CHR '':'' s) (\<lambda>s. Option.bind (getnum True s) (\<lambda>(mi, s).
     if mi \<ge> 60 then None else
     Option.bind (get_char CHR '':'' s) (\<lambda>s. Option.bind (getnum True s) (\<lambda>(sec, s).
     if sec \<ge> 60 then None else
     case get_fraction s of (ns, s) \<Rightarrow>
     Option.bind (get_zone s) (\<lambda>(off, s).
     if s \<noteq> [] \<or> d < 1 \<or> d > days_in mo y then None
     else Some ((((unix_days y mo d * 24 + h) * 60 + mi) * 60 + sec - off) * second_ns + ns)))))))))))))"

lemma parse_rfc3339_examples:
  "parse_rfc3339 ''1970-01-01T00:00:00Z'' = Some 0"
  "parse_rfc3339 ''2026-03-01T10:00:00.5+02:00'' = Some (1772352000 * second_ns + 500000000)"
  "parse_rfc3339 ''2025-02-29T00:00:00Z'' = None"
  by code_simp+

end
