(* ===== verification/Ndp_Registry.thy ===== *)
theory Ndp_Registry
  imports Ndp_Frames TTL_Store Epoch_Election Go_Time
begin

text \<open>
  The node registry of \<open>ndp\<close>: announcements with a lifetime (\<open>registry.go\<close>), resolution of
  \<open>nwp://\<close> targets against them and against DNS TXT records (\<open>dns_txt.go\<close>), and the election
  of a cluster's active Anchor (\<open>cluster.go\<close>).  A registry is an association list; Go iterates over
  the map in some order, and what is proved holds for a list in any order.  The DNS lookup is a
  function of the name.
\<close>

section \<open>Announcements\<close>

record ResolveResult =
  rrHost :: string
  rrPort :: u64
  rrProtocol :: string
  rrCertFingerprint :: string

record registryEntry =
  reFrame :: AnnounceFrame
  reExpires :: instant

type_synonym InMemoryNdpRegistry = "(string \<times> registryEntry) list"

definition NewInMemoryNdpRegistry :: InMemoryNdpRegistry where
  "NewInMemoryNdpRegistry = []"

definition Announce :: "instant \<Rightarrow> AnnounceFrame \<Rightarrow> InMemoryNdpRegistry \<Rightarrow> InMemoryNdpRegistry" where
  "Announce now frame r =
     (if anTTL frame = 0 then AList.delete (anNID frame) r
      else let expires = now + seconds (uint (anTTL frame))
           in AList.update (anNID frame) \<lparr>reFrame = frame, reExpires = expires\<rparr> r)"

definition GetByNID :: "instant \<Rightarrow> InMemoryNdpRegistry \<Rightarrow> string \<Rightarrow> AnnounceFrame option" where
  "GetByNID now r nid =
     (case map_of r nid of
        None \<Rightarrow> None
      | Some e \<Rightarrow> if now < reExpires e then Some (reFrame e) else None)"

definition GetAll :: "instant \<Rightarrow> InMemoryNdpRegistry \<Rightarrow> AnnounceFrame list" where
  "GetAll now r = map (\<lambda>(k, e). reFrame e) (filter (\<lambda>(k, e). now < reExpires e) r)"

section \<open>Resolving targets\<close>

definition cut_prefix :: "string \<Rightarrow> string \<Rightarrow> string option" where
  "cut_prefix s p = (if has_prefix s p then Some (drop (length p) s) else None)"

definition NwpTargetMatchesNID :: "string \<Rightarrow> string \<Rightarrow> bool" where
  "NwpTargetMatchesNID nid target =
     (let parts = split_on CHR '':'' nid
      in if length parts < 5 \<or> parts ! 0 \<noteq> ''urn'' \<or> parts ! 1 \<noteq> ''nps'' \<or> parts ! 2 \<noteq> ''node'' then False
         else let nidHost = parts ! 3; nidPath = join_with ''/'' (drop 4 parts)
         in case cut_prefix target ''nwp://'' of
              None \<Rightarrow> False
            | Some rest \<Rightarrow>
                (case index_byte rest CHR ''/'' of
                   None \<Rightarrow> False
                 | Some slashIdx \<Rightarrow>
                     let authority = take slashIdx rest; path = drop (slashIdx + 1) rest
                     in if authority \<noteq> nidHost then False
                        else path = nidPath \<or> has_prefix path (nidPath @ ''/'')))"

definition address_result :: "dict \<Rightarrow> ResolveResult" where
  "address_result addr =
     \<lparr>rrHost = str addr ''host'', rrPort = ndp_toUint64 (dget addr ''port''),
      rrProtocol = str addr ''protocol'', rrCertFingerprint = []\<rparr>"

fun resolve_entries :: "instant \<Rightarrow> string \<Rightarrow> InMemoryNdpRegistry \<Rightarrow> ResolveResult option" where
  "resolve_entries now target [] = None"
| "resolve_entries now target ((k, e) # r) =
     (if \<not> now < reExpires e then resolve_entries now target r
      else if NwpTargetMatchesNID (anNID (reFrame e)) target \<and> slice_len (anAddresses (reFrame e)) \<noteq> []
      then Some (address_result (hd (slice_len (anAddresses (reFrame e)))))
      else resolve_entries now target r)"

definition Resolve :: "instant \<Rightarrow> InMemoryNdpRegistry \<Rightarrow> string \<Rightarrow> ResolveResult option" where
  "Resolve now r target = resolve_entries now target r"

definition txt_fields :: "string list \<Rightarrow> (string \<times> string) list" where
  "txt_fields fs = fold (\<lambda>f kv. case index_byte f CHR ''='' of
       None \<Rightarrow> kv | Some idx \<Rightarrow> AList.update (take idx f) (drop (idx + 1) f) kv) fs []"

definition kv_get :: "(string \<times> string) list \<Rightarrow> string \<Rightarrow> string" where
  "kv_get kv k = (case map_of kv k of Some v \<Rightarrow> v | None \<Rightarrow> [])"

definition ParseNpsTxtRecord :: "string \<Rightarrow> string \<Rightarrow> ResolveResult option" where
  "ParseNpsTxtRecord txt host =
     (let kv = txt_fields (Fields txt)
      in if kv_get kv ''v'' \<noteq> ''nps1'' then None
         else if kv_get kv ''nid'' = [] then None
         else let port = (case ParseUint64 (kv_get kv ''port'') of Some p \<Rightarrow> p | None \<Rightarrow> 17433)
              in Some \<lparr>rrHost = host, rrPort = port, rrProtocol = ''https'',
                       rrCertFingerprint = kv_get kv ''fp''\<rparr>)"

definition ExtractHostFromTarget :: "string \<Rightarrow> string" where
  "ExtractHostFromTarget target =
     (case cut_prefix target ''nwp://'' of
        None \<Rightarrow> []
      | Some rest \<Rightarrow> (case index_byte rest CHR ''/'' of None \<Rightarrow> rest | Some idx \<Rightarrow> take idx rest))"

fun first_record :: "string \<Rightarrow> string list \<Rightarrow> ResolveResult option" where
  "first_record host [] = None"
| "first_record host (rec # recs) =
     (case ParseNpsTxtRecord rec host of Some r \<Rightarrow> Some r | None \<Rightarrow> first_record host recs)"

definition ResolveViaDns :: "instant \<Rightarrow> InMemoryNdpRegistry \<Rightarrow> string \<Rightarrow> (string \<Rightarrow> string list res)
    \<Rightarrow> ResolveResult option" where
  "ResolveViaDns now r target lookup =
     (case Resolve now r target of
        Some result \<Rightarrow> Some result
      | None \<Rightarrow>
          let host = ExtractHostFromTarget target
          in if host = [] then None
             else (case lookup (''_nps-node.'' @ host) of
                     Inl err \<Rightarrow> None
                   | Inr records \<Rightarrow> first_record host records))"

section \<open>The active Anchor of a cluster\<close>

definition DefaultClusterEpoch :: u64 where
  "DefaultClusterEpoch = 1"

definition ClusterEpochOrDefault :: "AnnounceFrame \<Rightarrow> u64" where
  "ClusterEpochOrDefault f = (case anClusterEpoch f of None \<Rightarrow> DefaultClusterEpoch | Some e \<Rightarrow> e)"

text \<open>The election among the members that were found, a split with its epoch.\<close>

definition elect_frames :: "AnnounceFrame list \<Rightarrow> AnnounceFrame election" where
  "elect_frames members =
     (if members = [] then Vacant
      else let top = top_epoch_of ClusterEpochOrDefault (tl members) (ClusterEpochOrDefault (hd members));
               leaders = filter (\<lambda>f. ClusterEpochOrDefault f = top) members
           in if length leaders > 1 then Split top else Owner (hd leaders))"

definition ResolveCluster :: "AnnounceFrame list option \<Rightarrow> string \<Rightarrow> AnnounceFrame option res" where
  "ResolveCluster registry clusterAnchor =
     (case registry of
        None \<Rightarrow> Inr None
      | Some frames \<Rightarrow>
          if clusterAnchor = [] then Inr None
          else (case elect_frames (filter (\<lambda>f. anClusterAnchor f = clusterAnchor) frames) of
                  Vacant \<Rightarrow> Inr None
                | Owner f \<Rightarrow> Inr (Some f)
                | Split e \<Rightarrow> Inl (ErrCode ''NDP-CLUSTER-SPLIT''
                    (''cluster '' @ [CHR 0x27] @ clusterAnchor @ [CHR 0x27]
                     @ '' has multiple live active Anchors at epoch '' @ dec_int (uint e) @ ''.''))))"

section \<open>The registry as a store with lifetimes\<close>

definition reg_put :: "string \<Rightarrow> AnnounceFrame \<Rightarrow> instant \<Rightarrow> InMemoryNdpRegistry \<Rightarrow> InMemoryNdpRegistry" where
  "reg_put k f e r = AList.update k \<lparr>reFrame = f, reExpires = e\<rparr> r"

lemma GetByNID_Some:
  "GetByNID now r k = Some f \<longleftrightarrow> (\<exists>e. map_of r k = Some e \<and> now < reExpires e \<and> f = reFrame e)"
  by (auto simp: GetByNID_def split: option.splits)

lemma GetAll_iff:
  assumes "distinct (map fst r)"
  shows "f \<in> set (GetAll now r) \<longleftrightarrow> (\<exists>k. GetByNID now r k = Some f)"
proof -
  have "f \<in> set (GetAll now r) \<longleftrightarrow> (\<exists>k e. (k, e) \<in> set r \<and> now < reExpires e \<and> f = reFrame e)"
    by (auto simp: GetAll_def)
  then show ?thesis unfolding GetByNID_Some map_of_eq_Some_iff [OF assms] .
qed

interpretation reg: ttl_store "\<lambda>r. distinct (map fst r)" "\<lambda>r now k. GetByNID now r k"
  reg_put AList.delete "\<lambda>r now. GetAll now r"
proof
  fix r :: InMemoryNdpRegistry and k j v e now later
  assume d: "distinct (map fst r)"
  show "distinct (map fst (reg_put k v e r))" using d by (simp add: reg_put_def distinct_update)
  show "distinct (map fst (AList.delete k r))" using d by (rule distinct_delete)
  show "GetByNID now (reg_put k v e r) j =
      (if j = k then (if now < e then Some v else None) else GetByNID now r j)"
    by (simp add: GetByNID_def reg_put_def update_conv')
  show "GetByNID now (AList.delete k r) j = (if j = k then None else GetByNID now r j)"
    by (simp add: GetByNID_def delete_conv')
  show "GetByNID now r k = None \<Longrightarrow> now \<le> later \<Longrightarrow> GetByNID later r k = None"
    by (auto simp: GetByNID_def split: option.splits if_splits)
  show "v \<in> set (GetAll now r) \<longleftrightarrow> (\<exists>k. GetByNID now r k = Some v)"
    using d by (rule GetAll_iff)
qed

text \<open>An announcement is a write or a removal.\<close>

definition announce_op :: "instant \<times> AnnounceFrame \<Rightarrow> (string, AnnounceFrame) store_op" where
  "announce_op a = (case a of (t, f) \<Rightarrow>
     if anTTL f = 0 then Del (anNID f) else Put (anNID f) f (t + seconds (uint (anTTL f))))"

lemma Announce_op: "Announce t f r = reg.do_op (announce_op (t, f)) r"
  by (simp add: Announce_def announce_op_def reg.do_op_def reg_put_def Let_def)

lemma announce_op_key [simp]: "op_key (announce_op (t, f)) = anNID f"
  by (simp add: announce_op_def)

definition after_announces :: "(instant \<times> AnnounceFrame) list \<Rightarrow> InMemoryNdpRegistry" where
  "after_announces as = fold (\<lambda>(t, f). Announce t f) as NewInMemoryNdpRegistry"

lemma after_announces_ops: "after_announces as = fold reg.do_op (map announce_op as) []"
proof -
  have "fold (\<lambda>(t, f). Announce t f) as r = fold reg.do_op (map announce_op as) r" for r
    by (induction as arbitrary: r) (auto simp: Announce_op)
  then show ?thesis by (simp add: after_announces_def NewInMemoryNdpRegistry_def)
qed

lemma distinct_after: "distinct (map fst (after_announces as))"
  unfolding after_announces_ops by (rule reg.inv_ops) simp

text \<open>C34: The registry answers with the last announcement of a node.  After any sequence of
  announcements a lookup returns the last frame announced for that NID when its lifetime was not 0
  and has not run out, and nothing otherwise; the list of live frames agrees with the lookups.\<close>

theorem registry_last_announcement:
  "GetByNID now (after_announces as) nid =
     (case find (\<lambda>(t, f). anNID f = nid) (rev as) of
        None \<Rightarrow> None
      | Some (t, f) \<Rightarrow> if anTTL f \<noteq> 0 \<and> now < t + seconds (uint (anTTL f)) then Some f else None)
   \<and> (f \<in> set (GetAll now (after_announces as)) \<longleftrightarrow> (\<exists>k. GetByNID now (after_announces as) k = Some f))"
proof (rule conjI)
  show "f \<in> set (GetAll now (after_announces as)) \<longleftrightarrow> (\<exists>k. GetByNID now (after_announces as) k = Some f)"
    by (rule GetAll_iff [OF distinct_after])
  show "GetByNID now (after_announces as) nid =
     (case find (\<lambda>(t, f). anNID f = nid) (rev as) of
        None \<Rightarrow> None
      | Some (t, f) \<Rightarrow> if anTTL f \<noteq> 0 \<and> now < t + seconds (uint (anTTL f)) then Some f else None)"
  proof (induction as rule: rev_induct)
    case (snoc a as)
    obtain t f where a: "a = (t, f)" by fastforce
    have step: "after_announces (as @ [a]) = reg.do_op (announce_op (t, f)) (after_announces as)"
      by (simp add: after_announces_def a Announce_op)
    show ?case
      using snoc reg.lookup_put [OF distinct_after] reg.lookup_del [OF distinct_after]
      by (simp add: step) (simp add: a announce_op_def reg.do_op_def)
  qed (simp add: after_announces_def NewInMemoryNdpRegistry_def GetByNID_def)
qed

section \<open>Elections\<close>

lemma elect_frames_top:
  assumes "ms \<noteq> []"
  shows "elect_frames ms = (let leaders = top_members ClusterEpochOrDefault ms
     in if length leaders > 1 then Split (ClusterEpochOrDefault (hd leaders)) else Owner (hd leaders))"
    and "top_members ClusterEpochOrDefault ms \<noteq> []"
proof -
  let ?t = "top_epoch_of ClusterEpochOrDefault (tl ms) (ClusterEpochOrDefault (hd ms))"
  obtain m ns where ms: "ms = m # ns" using assms by (cases ms) auto
  have b: "\<And>x. x \<in> set ms \<Longrightarrow> ClusterEpochOrDefault x \<le> ?t"
    "\<exists>y\<in>set ms. ClusterEpochOrDefault y = ?t"
    using top_epoch_of_bound [of "ClusterEpochOrDefault m" ClusterEpochOrDefault ns] ms by auto
  then obtain y where y: "y \<in> set ms" "ClusterEpochOrDefault y = ?t" by blast
  note eq = top_members_eq [where epoch = ClusterEpochOrDefault, OF b(1) y]
  show ne: "top_members ClusterEpochOrDefault ms \<noteq> []"
    using y by (auto simp: eq [symmetric] filter_empty_conv)
  have "ClusterEpochOrDefault (hd (top_members ClusterEpochOrDefault ms)) = ?t"
    using hd_in_set [OF ne] by (simp add: eq [symmetric])
  then show "elect_frames ms = (let leaders = top_members ClusterEpochOrDefault ms
     in if length leaders > 1 then Split (ClusterEpochOrDefault (hd leaders)) else Owner (hd leaders))"
    using assms by (simp add: elect_frames_def Let_def eq)
qed

text \<open>A head that is the only element.\<close>

lemma single_iff: "xs \<noteq> [] \<Longrightarrow> \<not> 1 < length xs \<and> hd xs = x \<longleftrightarrow> xs = [x]"
  by (cases xs; cases "tl xs") auto

interpretation anchors: epoch_election ClusterEpochOrDefault elect_frames
proof
  fix ms :: "AnnounceFrame list" and m e
  show "elect_frames ms = Vacant \<longleftrightarrow> ms = []"
    by (cases "ms = []") (simp_all add: elect_frames_top Let_def, simp add: elect_frames_def)
  show "elect_frames ms = Owner m \<longleftrightarrow> top_members ClusterEpochOrDefault ms = [m]"
    by (cases "ms = []")
       (use single_iff [OF elect_frames_top(2)] in \<open>auto simp: elect_frames_top(1) Let_def\<close>,
        simp_all add: elect_frames_def top_members_def)
  show "elect_frames ms = Split e \<longleftrightarrow> length (top_members ClusterEpochOrDefault ms) > 1
      \<and> e = ClusterEpochOrDefault (hd (top_members ClusterEpochOrDefault ms))"
    by (cases "ms = []") (auto simp: elect_frames_top(1) Let_def, simp_all add: elect_frames_def top_members_def)
qed

definition cluster_members :: "instant \<Rightarrow> InMemoryNdpRegistry \<Rightarrow> string \<Rightarrow> AnnounceFrame list" where
  "cluster_members now r c = filter (\<lambda>f. anClusterAnchor f = c) (GetAll now r)"



text \<open>Each frame is stored under its own NID.\<close>

lemma announces_keyed: "map_of (after_announces as) k = Some e \<Longrightarrow> anNID (reFrame e) = k"
proof (induction as arbitrary: k e rule: rev_induct)
  case (snoc a as)
  then show ?case
    by (cases a)
       (auto simp: after_announces_def Announce_def Let_def update_conv' delete_conv' split: if_splits)
qed (simp add: after_announces_def NewInMemoryNdpRegistry_def)

definition live_members :: "instant \<Rightarrow> InMemoryNdpRegistry \<Rightarrow> string \<Rightarrow> AnnounceFrame set" where
  "live_members now r c = {f. GetByNID now r (anNID f) = Some f \<and> anClusterAnchor f = c}"

lemma set_cluster_members: "set (cluster_members now (after_announces as) c) = live_members now (after_announces as) c"
proof -
  have "GetByNID now (after_announces as) k = Some f \<Longrightarrow> anNID f = k" for k f
    using announces_keyed by (auto simp: GetByNID_Some)
  then show ?thesis
    using GetAll_iff [OF distinct_after] by (auto simp: cluster_members_def live_members_def)
qed

lemma distinct_cluster_members: "distinct (cluster_members now (after_announces as) c)"
proof -
  let ?r = "after_announces as"
  have k: "anNID (reFrame e) = k" if "(k, e) \<in> set ?r" for k e
    using announces_keyed map_of_is_SomeI [OF distinct_after that] by blast
  have "map anNID (GetAll now ?r) = map fst (filter (\<lambda>(k, e). now < reExpires e) ?r)"
    unfolding GetAll_def map_map by (rule map_cong) (auto simp: k)
  then have "distinct (map anNID (GetAll now ?r))" by (simp add: distinct_map_filter distinct_after)
  then show ?thesis by (simp add: cluster_members_def distinct_map)
qed

lemma two_elements: "1 < length xs \<Longrightarrow> \<exists>g h zs. xs = g # h # zs"
  by (induction xs rule: induct_list012) auto

text \<open>C35: Which Anchor owns a cluster.  After any announcements, a cluster resolves to the live member
  whose epoch is strictly above that of every other live member (an absent epoch counting as 1).  It
  is reported as split exactly when two live members share the highest epoch, and is vacant when it
  has no live member.\<close>

theorem cluster_resolution:
  "case ResolveCluster (Some (GetAll now (after_announces as))) c of
      Inr None \<Rightarrow> c = [] \<or> live_members now (after_announces as) c = {}
    | Inr (Some g) \<Rightarrow> g \<in> live_members now (after_announces as) c
        \<and> live_members now (after_announces as) c
            \<subseteq> insert g {h. ClusterEpochOrDefault h < ClusterEpochOrDefault g}
    | Inl err \<Rightarrow> \<exists>g h. g \<noteq> h \<and> {g, h} \<subseteq> live_members now (after_announces as) c
        \<and> ClusterEpochOrDefault g = ClusterEpochOrDefault h
        \<and> live_members now (after_announces as) c
            \<subseteq> {x. ClusterEpochOrDefault x \<le> ClusterEpochOrDefault g}"
proof (cases "c = []")
  case True
  then show ?thesis by (simp add: ResolveCluster_def)
next
  case False
  let ?ms = "cluster_members now (after_announces as) c"
  have res: "ResolveCluster (Some (GetAll now (after_announces as))) c =
      (case elect_frames ?ms of Vacant \<Rightarrow> Inr None | Owner f \<Rightarrow> Inr (Some f)
       | Split e \<Rightarrow> Inl (ErrCode ''NDP-CLUSTER-SPLIT''
                    (''cluster '' @ [CHR 0x27] @ c @ [CHR 0x27]
                     @ '' has multiple live active Anchors at epoch '' @ dec_int (uint e) @ ''.'')))"
    using False by (simp add: ResolveCluster_def cluster_members_def)
  show ?thesis
  proof (cases "elect_frames ?ms")
    case Vacant
    then have "live_members now (after_announces as) c = {}"
      by (simp add: anchors.vacant_iff flip: set_cluster_members)
    then show ?thesis unfolding res Vacant by simp
  next
    case (Owner g)
    have "g \<in> set ?ms" "set ?ms \<subseteq> insert g {h. ClusterEpochOrDefault h < ClusterEpochOrDefault g}"
      using anchors.owner_highest [OF Owner] by auto
    then show ?thesis unfolding res Owner set_cluster_members by simp
  next
    case (Split e)
    then obtain g h zs where t: "top_members ClusterEpochOrDefault ?ms = g # h # zs"
      using anchors.split_iff two_elements by blast
    have top: "x \<in> set (top_members ClusterEpochOrDefault ?ms) \<longleftrightarrow>
        x \<in> set ?ms \<and> (\<forall>y\<in>set ?ms. ClusterEpochOrDefault y \<le> ClusterEpochOrDefault x)" for x
      by (simp add: top_members_def)
    have "distinct (top_members ClusterEpochOrDefault ?ms)"
      using distinct_cluster_members by (simp add: top_members_def)
    then have "g \<noteq> h" using t by auto
    moreover have "ClusterEpochOrDefault g = ClusterEpochOrDefault h"
      using anchors.top_epoch [of g ?ms h] t by simp
    moreover have "{g, h} \<subseteq> set ?ms" "set ?ms \<subseteq> {x. ClusterEpochOrDefault x \<le> ClusterEpochOrDefault g}"
      using top [of g] top [of h] t by auto
    ultimately have "g \<noteq> h \<and> {g, h} \<subseteq> set ?ms \<and> ClusterEpochOrDefault g = ClusterEpochOrDefault h
        \<and> set ?ms \<subseteq> {x. ClusterEpochOrDefault x \<le> ClusterEpochOrDefault g}" by (intro conjI)
    then show ?thesis unfolding res Split set_cluster_members election.case sum.case
      by (intro exI [of _ g] exI [of _ h])
  qed
qed





section \<open>Targets\<close>

lemma split_join:
  "ps \<noteq> [] \<Longrightarrow> \<forall>p\<in>set ps. c \<notin> set p \<Longrightarrow> split_on c (join_with [c] ps) = ps"
  by (induction "[c]" ps rule: join_with.induct) (auto simp: split_on_append split_on_fresh)

lemma index_byte_append: "c \<notin> set a \<Longrightarrow> index_byte (a @ c # b) c = Some (length a)"
  by (induction a) auto

lemma index_byte_Some: "index_byte s c = Some i \<Longrightarrow> \<exists>a b. s = a @ c # b \<and> c \<notin> set a \<and> i = length a"
proof (induction s arbitrary: i)
  case (Cons x s)
  show ?case
  proof (cases "x = c")
    case True
    then have "x # s = [] @ c # s \<and> c \<notin> set [] \<and> i = length []" using Cons.prems by simp
    then show ?thesis by blast
  next
    case False
    then obtain j where "index_byte s c = Some j" "i = Suc j" using Cons.prems by auto
    with Cons.IH obtain a b where "s = a @ c # b" "c \<notin> set a" "j = length a" by blast
    then have "x # s = (x # a) @ c # b \<and> c \<notin> set (x # a) \<and> i = length (x # a)"
      using False \<open>i = Suc j\<close> by simp
    then show ?thesis by blast
  qed
qed simp

text \<open>A slash position splits the rest of a target.\<close>

lemma authority_path:
  assumes "CHR ''/'' \<notin> set host"
  shows "(case index_byte rest CHR ''/'' of
       None \<Rightarrow> False | Some i \<Rightarrow> take i rest = host \<and> P (drop (i + 1) rest))
     \<longleftrightarrow> (\<exists>path. rest = host @ ''/'' @ path \<and> P path)"
proof
  assume "case index_byte rest CHR ''/'' of
       None \<Rightarrow> False | Some i \<Rightarrow> take i rest = host \<and> P (drop (i + 1) rest)"
  then show "\<exists>path. rest = host @ ''/'' @ path \<and> P path"
    by (auto split: option.splits dest!: index_byte_Some)
next
  assume "\<exists>path. rest = host @ ''/'' @ path \<and> P path"
  then show "case index_byte rest CHR ''/'' of
       None \<Rightarrow> False | Some i \<Rightarrow> take i rest = host \<and> P (drop (i + 1) rest)"
    using index_byte_append [OF assms] by auto
qed

lemma has_prefix_iff: "has_prefix s p \<longleftrightarrow> (\<exists>t. s = p @ t)"
  by (auto simp: has_prefix_def) (metis append_take_drop_id)

lemma cut_prefix_Some: "cut_prefix s p = Some t \<longleftrightarrow> s = p @ t"
  by (auto simp: cut_prefix_def has_prefix_iff)

lemma cut_prefix_case:
  "(case cut_prefix s p of None \<Rightarrow> False | Some t \<Rightarrow> P t) \<longleftrightarrow> (\<exists>t. s = p @ t \<and> P t)"
  by (auto simp: cut_prefix_def has_prefix_iff)

text \<open>Which targets name a node.  The NID with host \<open>h\<close> and path segments \<open>s1, s2, \<dots>\<close> is matched
  by the target \<open>nwp://h/s1/s2/\<dots>\<close> and by what lies below it, and by nothing else: a target whose path
  merely starts with the same characters does not match.\<close>

theorem nwp_target_match:
  assumes "CHR '':'' \<notin> set host" and "CHR ''/'' \<notin> set host" and "segs \<noteq> []"
    and "\<And>s. s \<in> set segs \<Longrightarrow> CHR '':'' \<notin> set s"
  shows "NwpTargetMatchesNID (join_with '':'' ([''urn'', ''nps'', ''node'', host] @ segs)) target \<longleftrightarrow>
    (\<exists>below. target = ''nwp://'' @ host @ ''/'' @ join_with ''/'' segs @ below
       \<and> (below = [] \<or> hd below = CHR ''/''))"
proof -
  let ?path = "join_with ''/'' segs"
  have parts: "split_on CHR '':'' (join_with '':'' ([''urn'', ''nps'', ''node'', host] @ segs))
      = [''urn'', ''nps'', ''node'', host] @ segs"
    using assms by (intro split_join) auto
  have "length ([''urn'', ''nps'', ''node'', host] @ segs) \<ge> 5" using assms(3) by (cases segs) auto
  then have "NwpTargetMatchesNID (join_with '':'' ([''urn'', ''nps'', ''node'', host] @ segs)) target \<longleftrightarrow>
     (\<exists>rest. target = ''nwp://'' @ rest
        \<and> (case index_byte rest CHR ''/'' of None \<Rightarrow> False
           | Some i \<Rightarrow> take i rest = host
               \<and> (drop (i + 1) rest = ?path \<or> has_prefix (drop (i + 1) rest) (?path @ ''/''))))"
    unfolding NwpTargetMatchesNID_def parts Let_def
    using assms(3) by (simp add: cut_prefix_case cong: option.case_cong conj_cong)
  also have "\<dots> \<longleftrightarrow> (\<exists>path. target = ''nwp://'' @ host @ ''/'' @ path
      \<and> (path = ?path \<or> has_prefix path (?path @ ''/'')))"
    unfolding authority_path [OF assms(2), where P = "\<lambda>p. p = ?path \<or> has_prefix p (?path @ ''/'')"]
    by auto
  also have "\<dots> \<longleftrightarrow> (\<exists>below. target = ''nwp://'' @ host @ ''/'' @ ?path @ below
       \<and> (below = [] \<or> hd below = CHR ''/''))"
  proof -
    have "(path = ?path \<or> has_prefix path (?path @ ''/'')) \<longleftrightarrow>
        (\<exists>below. path = ?path @ below \<and> (below = [] \<or> below \<noteq> [] \<and> hd below = CHR ''/''))" for path
    proof -
      have "(\<exists>t. path = (?path @ ''/'') @ t) \<longleftrightarrow> (\<exists>b. path = ?path @ b \<and> b \<noteq> [] \<and> hd b = CHR ''/'')"
        by (metis append.assoc append_Cons append_Nil list.collapse list.discI list.sel(1))
      then show ?thesis unfolding has_prefix_iff by auto
    qed
    then show ?thesis by auto
  qed
  finally show ?thesis .
qed

theorem nwp_target_match_witness:
  "NwpTargetMatchesNID (join_with '':'' ([''urn'', ''nps'', ''node'', ''api.example''] @ [''shop'', ''items'']))
     ''nwp://api.example/shop/items/42''
   \<and> \<not> NwpTargetMatchesNID (join_with '':'' ([''urn'', ''nps'', ''node'', ''api.example''] @ [''shop'', ''items'']))
     ''nwp://api.example/shop/items2''"
  by (subst (1 2) nwp_target_match) (auto simp: Cons_eq_append_conv)

end
