(* ===== verification/Ndp_Federation.thy ===== *)
theory Ndp_Federation
  imports Ndp_Registry
begin

text \<open>
  Loop control of federated registries (\<open>ndp/federation.go\<close>): the \<open>ndp-forwarded-by\<close> header lists
  the registries a request has passed through, and a registry forwards a request only when it is not
  on the list and the list is shorter than the hop limit.
\<close>

definition MaxFederationHops :: nat where
  "MaxFederationHops = 3"

definition ParseForwardedBy :: "string \<Rightarrow> string list" where
  "ParseForwardedBy header =
     (if header = [] then []
      else filter (\<lambda>hop. hop \<noteq> []) (map TrimSpace (split_on CHR '','' header)))"

definition AppendForwardedBy :: "string \<Rightarrow> string \<Rightarrow> (string \<times> bool) res" where
  "AppendForwardedBy ownNID header =
     (let hops = ParseForwardedBy header
      in if ownNID \<in> set hops
         then Inl (ErrCode ''NDP-FEDERATION-LOOP'' ''own NID already appears in ndp-forwarded-by'')
         else if length hops \<ge> MaxFederationHops then Inr ([], False)
         else Inr (join_with '', '' (hops @ [ownNID]), True))"

section \<open>The header as a list of hops\<close>

text \<open>A NID that can stand in the header: not empty, no comma, no white space at its ends.\<close>

definition hop_ok :: "string \<Rightarrow> bool" where
  "hop_ok h \<longleftrightarrow> h \<noteq> [] \<and> CHR '','' \<notin> set h \<and> TrimSpace h = h"

lemma space_len_space: "space_len utf8_spaces (CHR 0x20 # s) = 1"
  by (simp add: utf8_spaces_def ascii_spaces_def has_prefix_def)

lemma TrimSpace_space: "TrimSpace (CHR 0x20 # s) = TrimSpace s"
  unfolding TrimSpace_def by (subst trim_left_by.simps) (simp add: space_len_space)

lemma split_on_Cons_other:
  "x \<noteq> c \<Longrightarrow> split_on c (x # s) = (x # hd (split_on c s)) # tl (split_on c s)"
  by (cases "split_on c s") auto

lemma split_hops:
  "hs \<noteq> [] \<Longrightarrow> \<forall>h\<in>set hs. hop_ok h \<Longrightarrow> map TrimSpace (split_on CHR '','' (join_with '', '' hs)) = hs"
proof (induction "'', ''" hs rule: join_with.induct)
  case (2 h)
  then show ?case by (simp add: hop_ok_def split_on_fresh)
next
  case (3 h k hs)
  let ?r = "split_on CHR '','' (join_with '', '' (k # hs))"
  have "split_on CHR '','' (join_with '', '' (h # k # hs)) = h # split_on CHR '','' (CHR 0x20 # join_with '', '' (k # hs))"
    using 3 by (simp add: hop_ok_def split_on_append del: split_on.simps)
  also have "\<dots> = h # (CHR 0x20 # hd ?r) # tl ?r" by (subst split_on_Cons_other) simp_all
  finally have "map TrimSpace (split_on CHR '','' (join_with '', '' (h # k # hs)))
      = TrimSpace h # TrimSpace (hd ?r) # map TrimSpace (tl ?r)"
    by (simp only: list.map TrimSpace_space)
  also have "\<dots> = TrimSpace h # map TrimSpace ?r"
    by (simp only: list.map(2) [symmetric] list.collapse [OF split_on_ne])
  also have "\<dots> = h # k # hs" using 3 by (simp add: hop_ok_def del: split_on.simps join_with.simps)
  finally show ?case .
qed simp

lemma join_ne: "hs \<noteq> [] \<Longrightarrow> \<forall>h\<in>set hs. h \<noteq> [] \<Longrightarrow> join_with sep hs \<noteq> []"
  by (cases "(sep, hs)" rule: join_with.cases) auto

lemma parse_hops:
  assumes "hs \<noteq> []" and "\<forall>h\<in>set hs. hop_ok h"
  shows "ParseForwardedBy (join_with '', '' hs) = hs"
proof -
  have "join_with '', '' hs \<noteq> []" using assms by (intro join_ne) (auto simp: hop_ok_def)
  moreover have "filter (\<lambda>h. h \<noteq> []) hs = hs" using assms(2) by (auto simp: hop_ok_def filter_id_conv)
  ultimately show ?thesis using split_hops [OF assms] by (simp add: ParseForwardedBy_def)
qed

text \<open>A request on its way: the registries it has passed and the header it carries.\<close>

inductive forwarded :: "string list \<Rightarrow> string \<Rightarrow> bool" where
  origin: "forwarded [] []"
| hop: "forwarded path header \<Longrightarrow> hop_ok nid \<Longrightarrow> AppendForwardedBy nid header = Inr (header', True)
    \<Longrightarrow> forwarded (path @ [nid]) header'"

lemma forwarded_inv:
  "forwarded path header \<Longrightarrow> ParseForwardedBy header = path \<and> list_all hop_ok path
     \<and> distinct path \<and> length path \<le> MaxFederationHops"
proof (induction rule: forwarded.induct)
  case origin
  then show ?case by (simp add: ParseForwardedBy_def)
next
  case (hop path header nid header')
  have n: "nid \<notin> set path" "length path < MaxFederationHops" "header' = join_with '', '' (path @ [nid])"
    using hop by (auto simp: AppendForwardedBy_def Let_def split: if_splits)
  have "\<forall>h\<in>set (path @ [nid]). hop_ok h" using hop by (auto simp: list_all_iff)
  then have "ParseForwardedBy header' = path @ [nid]" unfolding n(3) by (intro parse_hops) auto
  with n(1,2) hop show ?case by simp
qed

text \<open>C37: A federated request cannot circulate.  However registries forward a request, it has passed
  through at most three of them and through none of them twice, and its header names exactly those.
  A registry that sees it again reports a loop, and one that sees it with a full header drops it.\<close>

theorem federation_bounded:
  assumes "forwarded path header" and "hop_ok nid"
  shows "ParseForwardedBy header = path \<and> distinct path \<and> length path \<le> 3 \<and>
    (case AppendForwardedBy nid header of
       Inl e \<Rightarrow> nid \<in> set path
     | Inr (header', go) \<Rightarrow> nid \<notin> set path \<and> go = (length path < 3)
         \<and> (if go then forwarded (path @ [nid]) header' else header' = []))"
proof -
  note inv = forwarded_inv [OF assms(1)]
  have "AppendForwardedBy nid header =
      (if nid \<in> set path then Inl (ErrCode ''NDP-FEDERATION-LOOP'' ''own NID already appears in ndp-forwarded-by'')
       else if length path < 3 then Inr (join_with '', '' (path @ [nid]), True) else Inr ([], False))"
    using inv by (auto simp: AppendForwardedBy_def MaxFederationHops_def)
  moreover from this have "nid \<notin> set path \<Longrightarrow> length path < 3 \<Longrightarrow>
      forwarded (path @ [nid]) (join_with '', '' (path @ [nid]))"
    by (intro hop [OF assms]) simp
  ultimately show ?thesis using inv by (simp add: MaxFederationHops_def)
qed

theorem federation_bounded_witness:
  "ParseForwardedBy ''a'' = [''a''] \<and> AppendForwardedBy ''b'' ''a'' = Inr (''a, b'', True)"
proof -
  have ok: "hop_ok ''a''" "hop_ok ''b''" by code_simp+
  have f: "forwarded ([] @ [''a'']) ''a''" by (rule hop [OF origin ok(1)]) code_simp
  have "AppendForwardedBy ''b'' ''a'' = Inr (''a, b'', True)" by code_simp
  with federation_bounded [OF f ok(2)] show ?thesis by simp
qed

end
