(* ===== verification/Ndp_Profile.thy ===== *)
theory Ndp_Profile
  imports Ndp_Registry Core_Cache
begin

text \<open>
  The transport-independent registry state machine of NDP 0.12 (\<open>ndp/registry_profile.go\<close>): which
  announcements are admitted, with sequence numbers that never go back, removals that last, and the
  selection of clusters and bridges among the live entries.  Frames are the dictionaries that come
  off the wire; the hash is a parameter, and whether the signature is valid is an argument of
  \<open>ApplyAnnounce\<close>, as it is in the code.
\<close>

section \<open>Frames\<close>

definition stringField :: "dict \<Rightarrow> string \<Rightarrow> string" where
  "stringField frame k = (case dget frame k of GStr v \<Rightarrow> v | _ \<Rightarrow> [])"

definition stringsField :: "dict \<Rightarrow> string \<Rightarrow> string list" where
  "stringsField frame k = (case dget frame k of GStrs vs \<Rightarrow> vs | GList vs \<Rightarrow> strings_in vs | _ \<Rightarrow> [])"

text \<open>The value of a number, when it is one that denotes a non-negative integer.\<close>

fun uintValue :: "goany \<Rightarrow> u64 option" where
  "uintValue (GNum KUint64 n) = Some (word_of_int n)"
| "uintValue (GNum KInt n) = (if n \<ge> 0 then Some (word_of_int n) else None)"
| "uintValue (GNum KInt64 n) = (if n \<ge> 0 then Some (word_of_int n) else None)"
| "uintValue (GF64 x) =
     (if f64_le 0 x \<and> \<not> f64_isinf x \<and> f64_integral x then Some (f64_to_u64 x) else None)"
| "uintValue (GJnum s) =
     (case ParseInt64 s of Some n \<Rightarrow> if n \<ge> 0 then Some (word_of_int n) else None | None \<Rightarrow> None)"
| "uintValue _ = None"

definition timeValue :: "dict \<Rightarrow> string \<Rightarrow> instant option" where
  "timeValue frame k = (let v = stringField frame k in if v = [] then None else parse_rfc3339 v)"

fun withoutNulls :: "goany \<Rightarrow> goany" where
  "withoutNulls (GMap item) = GMap (map (\<lambda>(k, v). (k, withoutNulls v)) (filter (\<lambda>(k, v). v \<noteq> GNil) item))"
| "withoutNulls (GList item) = GList (map withoutNulls item)"
| "withoutNulls v = v"

definition cloneMap :: "dict \<Rightarrow> dict" where
  "cloneMap d = (case withoutNulls (GMap d) of GMap m \<Rightarrow> m | _ \<Rightarrow> [])"

definition unsigned_keys :: "string list" where
  "unsigned_keys = [''frame'', ''signature'', ''health'', ''last_seen'']"

definition canonical_root :: "dict \<Rightarrow> dict" where
  "canonical_root frame =
     (let root = map (\<lambda>(k, v). (k, withoutNulls v))
                   (filter (\<lambda>(k, v). k \<notin> set unsigned_keys \<and> v \<noteq> GNil) frame)
      in if dhas root ''heartbeat_interval_ms'' then root
         else dput ''heartbeat_interval_ms'' (GNum KInt 60000) root)"

definition CanonicalAnnounceJSON :: "float_fmt \<Rightarrow> dict \<Rightarrow> string res" where
  "CanonicalAnnounceJSON F frame = marshal_text F (GMap (canonical_root frame))"

definition isBridge :: "dict \<Rightarrow> bool" where
  "isBridge frame \<longleftrightarrow> ''bridge'' \<in> set (stringsField frame ''node_roles'') \<or> stringField frame ''node_type'' = ''bridge''"

fun texts_of :: "goany list \<Rightarrow> string list option" where
  "texts_of [] = Some []"
| "texts_of (GStr s # vs) = (if TrimSpace s = [] then None else map_option (Cons s) (texts_of vs))"
| "texts_of (_ # vs) = None"

text \<open>Present, and the protocols when they are valid.\<close>

definition protocolList :: "dict \<Rightarrow> string \<Rightarrow> bool \<times> string list option" where
  "protocolList frame field =
     (if \<not> dhas frame field then (False, Some [])
      else case dget frame field of
             GList vs \<Rightarrow> (True, texts_of vs)
           | GStrs vs \<Rightarrow> (True, if list_ex (\<lambda>v. TrimSpace v = []) vs then None else Some vs)
           | _ \<Rightarrow> (True, None))"

definition bridgeShapeIsValid :: "dict \<Rightarrow> bool" where
  "bridgeShapeIsValid frame =
     (case (protocolList frame ''bridge_protocols'', protocolList frame ''bridge_inbound_protocols'') of
        ((outPresent, Some outbound), (inPresent, Some inbound)) \<Rightarrow>
          if isBridge frame then length outbound + length inbound > 0
          else \<not> outPresent \<and> \<not> inPresent
      | _ \<Rightarrow> False)"

definition sameLiveness :: "dict \<Rightarrow> dict \<Rightarrow> bool" where
  "sameLiveness l r \<longleftrightarrow> stringField l ''health'' = stringField r ''health''
     \<and> stringField l ''last_seen'' = stringField r ''last_seen''"

definition freshnessDeadline :: "dict \<Rightarrow> instant option" where
  "freshnessDeadline frame =
     (let source = (case timeValue frame ''last_seen'' of
                      Some t \<Rightarrow> Some t | None \<Rightarrow> timeValue frame ''timestamp'')
      in case source of
           None \<Rightarrow> None
         | Some t \<Rightarrow>
             let ttl = (case uintValue (dget frame ''ttl'') of Some n \<Rightarrow> n | None \<Rightarrow> 0)
             in Some (t + seconds (uint ttl)))"

section \<open>The state machine\<close>

datatype NdpRegistryDecision = NdpAccepted | NdpDuplicate | NdpRefreshed | NdpRemoved | NdpRejected

record NdpRegistryAdmission =
  adDecision :: NdpRegistryDecision
  adErrorCode :: string

record profileEntry =
  peFrame :: dict
  peSignedDigest :: string
  peExpiresAt :: instant

record NdpRegistryProfile =
  npSecurityProfile :: string
  npEntries :: "(string \<times> profileEntry) list"
  npSequences :: "(string \<times> u64) list"

definition NewNdpRegistryProfile :: "string \<Rightarrow> NdpRegistryProfile" where
  "NewNdpRegistryProfile securityProfile =
     \<lparr>npSecurityProfile = (if securityProfile = [] then ''local-dev'' else securityProfile),
      npEntries = [], npSequences = []\<rparr>"

definition rejectAdmission :: "string \<Rightarrow> NdpRegistryAdmission" where
  "rejectAdmission ec = \<lparr>adDecision = NdpRejected, adErrorCode = ec\<rparr>"

definition admission :: "NdpRegistryDecision \<Rightarrow> NdpRegistryAdmission" where
  "admission d = \<lparr>adDecision = d, adErrorCode = []\<rparr>"

text \<open>The checks that do not depend on the entries: the NID, the sequence number and the lifetime
  of a frame that passes them.\<close>

definition check_frame :: "string \<Rightarrow> dict \<Rightarrow> bool \<Rightarrow> instant \<Rightarrow> string + (string \<times> u64 \<times> u64)" where
  "check_frame profile frame signatureValid receivedAt =
     (if \<not> signatureValid then Inl ''NDP-ANNOUNCE-SIGNATURE-INVALID''
      else
        let nid = stringField frame ''nid''
        in case timeValue frame ''timestamp'' of
             None \<Rightarrow> Inl ''NDP-ANNOUNCE-PROFILE-VIOLATION''
           | Some timestamp \<Rightarrow>
               if nid = [] then Inl ''NDP-ANNOUNCE-PROFILE-VIOLATION''
               else
                 let sequencePresent = dhas frame ''graph_seq'';
                     sequence = uintValue (dget frame ''graph_seq'')
                 in case uintValue (dget frame ''ttl'') of
                      None \<Rightarrow> Inl ''NDP-ANNOUNCE-PROFILE-VIOLATION''
                    | Some ttl \<Rightarrow>
                        if (sequencePresent \<and> sequence = None)
                           \<or> (\<not> sequencePresent \<and> profile \<noteq> ''local-dev'') \<or> ttl > 0xFFFFFFFF
                        then Inl ''NDP-ANNOUNCE-PROFILE-VIOLATION''
                        else if \<not> bridgeShapeIsValid frame then Inl ''NDP-ANNOUNCE-PROFILE-VIOLATION''
                        else if profile \<noteq> ''local-dev''
                          \<and> duration_abs (time_sub receivedAt timestamp) > 300 * second_ns
                        then Inl ''NDP-ANNOUNCE-SIGNATURE-INVALID''
                        else Inr (nid, (case sequence of Some n \<Rightarrow> n | None \<Rightarrow> 0), ttl))"

definition store_entry :: "string \<Rightarrow> dict \<Rightarrow> string \<Rightarrow> instant \<Rightarrow> NdpRegistryProfile \<Rightarrow> NdpRegistryProfile" where
  "store_entry nid frame digest expiresAt r =
     r\<lparr>npEntries := AList.update nid \<lparr>peFrame = cloneMap frame, peSignedDigest = digest,
                                     peExpiresAt = expiresAt\<rparr> (npEntries r)\<rparr>"

text \<open>A frame newer than anything seen for its node, and a frame with the number last seen.\<close>

definition admit_new :: "string \<Rightarrow> u64 \<Rightarrow> u64 \<Rightarrow> dict \<Rightarrow> string \<Rightarrow> instant \<Rightarrow> NdpRegistryProfile
    \<Rightarrow> NdpRegistryAdmission \<times> NdpRegistryProfile" where
  "admit_new nid sequence ttl frame digest receivedAt r =
     (if ttl = 0
      then (admission NdpRemoved,
            r\<lparr>npSequences := AList.update nid sequence (npSequences r),
              npEntries := AList.delete nid (npEntries r)\<rparr>)
      else case freshnessDeadline frame of
             None \<Rightarrow> (rejectAdmission ''NDP-ANNOUNCE-STALE'', r)
           | Some expiresAt \<Rightarrow>
               if \<not> receivedAt < expiresAt then (rejectAdmission ''NDP-ANNOUNCE-STALE'', r)
               else (admission NdpAccepted,
                     store_entry nid frame digest expiresAt
                       (r\<lparr>npSequences := AList.update nid sequence (npSequences r)\<rparr>)))"

definition admit_same :: "string \<Rightarrow> dict \<Rightarrow> string \<Rightarrow> instant \<Rightarrow> NdpRegistryProfile
    \<Rightarrow> NdpRegistryAdmission \<times> NdpRegistryProfile" where
  "admit_same nid frame digest receivedAt r =
     (case map_of (npEntries r) nid of
        None \<Rightarrow> (admission NdpDuplicate, r)
      | Some current \<Rightarrow>
          if peSignedDigest current \<noteq> digest then (rejectAdmission ''NDP-ANNOUNCE-CONFLICT'', r)
          else if sameLiveness (peFrame current) frame then (admission NdpDuplicate, r)
          else case freshnessDeadline frame of
                 None \<Rightarrow> (rejectAdmission ''NDP-ANNOUNCE-STALE'', r)
               | Some expiresAt \<Rightarrow>
                   if \<not> receivedAt < expiresAt then (rejectAdmission ''NDP-ANNOUNCE-STALE'', r)
                   else (admission NdpRefreshed, store_entry nid frame digest expiresAt r))"

definition ApplyAnnounce :: "hasher \<Rightarrow> float_fmt \<Rightarrow> dict \<Rightarrow> bool \<Rightarrow> instant \<Rightarrow> NdpRegistryProfile
    \<Rightarrow> NdpRegistryAdmission \<times> NdpRegistryProfile" where
  "ApplyAnnounce sha F frame signatureValid receivedAt r =
     (case check_frame (npSecurityProfile r) frame signatureValid receivedAt of
        Inl ec \<Rightarrow> (rejectAdmission ec, r)
      | Inr (nid, sequence, ttl) \<Rightarrow>
          (case CanonicalAnnounceJSON F frame of
             Inl err \<Rightarrow> (rejectAdmission ''NDP-ANNOUNCE-PROFILE-VIOLATION'', r)
           | Inr canonical \<Rightarrow>
               let digest = sha canonical
               in (case map_of (npSequences r) nid of
                     None \<Rightarrow> admit_new nid sequence ttl frame digest receivedAt r
                   | Some highest \<Rightarrow>
                       if sequence < highest then (rejectAdmission ''NDP-GRAPH-SEQ-ROLLBACK'', r)
                       else if sequence = highest then admit_same nid frame digest receivedAt r
                       else admit_new nid sequence ttl frame digest receivedAt r)))"

section \<open>Queries\<close>

definition LiveNIDs :: "instant \<Rightarrow> NdpRegistryProfile \<Rightarrow> string list" where
  "LiveNIDs now r = sort_strings (map fst (filter (\<lambda>(nid, e). now < peExpiresAt e) (npEntries r)))"

definition HasStaleEntry :: "instant \<Rightarrow> NdpRegistryProfile \<Rightarrow> bool" where
  "HasStaleEntry now r \<longleftrightarrow> list_ex (\<lambda>(nid, e). \<not> now < peExpiresAt e) (npEntries r)"





definition DiscoverBridges :: "string \<Rightarrow> string \<Rightarrow> instant \<Rightarrow> NdpRegistryProfile \<Rightarrow> string list res" where
  "DiscoverBridges direction protocol now r =
     bindr (if direction = ''inbound'' then Inr ''bridge_inbound_protocols''
            else if direction = ''outbound'' then Inr ''bridge_protocols''
            else Inl (ErrPlain ''bridge direction must be inbound or outbound''))
       (\<lambda>field. Inr (sort_strings (map fst
          (filter (\<lambda>(nid, e). now < peExpiresAt e \<and> stringField (peFrame e) ''health'' \<noteq> ''draining''
             \<and> isBridge (peFrame e) \<and> protocol \<in> set (stringsField (peFrame e) field)) (npEntries r)))))"

section \<open>Stored frames\<close>

text \<open>Dropping nulls loses nothing that the registry reads.\<close>

lemma withoutNulls_GNil [simp]: "withoutNulls v = GNil \<longleftrightarrow> v = GNil"
  by (cases v) auto

lemma withoutNulls_idem [simp]: "withoutNulls (withoutNulls v) = withoutNulls v"
proof (induction v rule: withoutNulls.induct)
  case (1 item)
  have "filter (\<lambda>(k, v). v \<noteq> GNil) (map (\<lambda>(k, v). (k, withoutNulls v)) (filter (\<lambda>(k, v). v \<noteq> GNil) item))
      = map (\<lambda>(k, v). (k, withoutNulls v)) (filter (\<lambda>(k, v). v \<noteq> GNil) item)"
    by (induction item) auto
  then show ?case using 1 by auto
next
  case (2 item)
  then show ?case by auto
qed simp_all

lemma cloneMap_eq: "cloneMap d = map (\<lambda>(k, v). (k, withoutNulls v)) (filter (\<lambda>(k, v). v \<noteq> GNil) d)"
  by (simp add: cloneMap_def)

lemma dget_cloneMap: "distinct (map fst d) \<Longrightarrow> dget (cloneMap d) k = withoutNulls (dget d k)"
proof (induction d)
  case (Cons a d)
  obtain j v where a: "a = (j, v)" by fastforce
  have "map_of d j = None" using Cons.prems a by (simp add: map_of_eq_None_iff)
  then have "dget d j = GNil" by (simp add: dget_def)
  with Cons a show ?case by (auto simp: cloneMap_eq)
qed (simp add: cloneMap_eq)

lemma uintValue_withoutNulls [simp]: "uintValue (withoutNulls v) = uintValue v"
  by (cases v) auto

lemma strings_in_withoutNulls [simp]: "strings_in (map withoutNulls vs) = strings_in vs"
  by (induction vs rule: strings_in.induct) auto

lemma stored_fields:
  assumes "distinct (map fst d)"
  shows "stringField (cloneMap d) k = stringField d k" and "stringsField (cloneMap d) k = stringsField d k"
    and "timeValue (cloneMap d) k = timeValue d k"
  by (cases "dget d k"; simp add: stringField_def stringsField_def timeValue_def dget_cloneMap [OF assms])+

lemma freshness_stored: "distinct (map fst d) \<Longrightarrow> freshnessDeadline (cloneMap d) = freshnessDeadline d"
  unfolding freshnessDeadline_def stored_fields dget_cloneMap uintValue_withoutNulls ..

lemma canonical_stored: "canonical_root (cloneMap d) = canonical_root d"
proof -
  have "map (\<lambda>(k, v). (k, withoutNulls v)) (filter (\<lambda>(k, v). k \<notin> set unsigned_keys \<and> v \<noteq> GNil) (cloneMap d))
      = map (\<lambda>(k, v). (k, withoutNulls v)) (filter (\<lambda>(k, v). k \<notin> set unsigned_keys \<and> v \<noteq> GNil) d)"
    unfolding cloneMap_eq by (induction d) auto
  then show ?thesis by (simp add: canonical_root_def)
qed

text \<open>Liveness fields are not part of what is signed.\<close>

lemma canonical_liveness:
  "k \<in> set unsigned_keys \<Longrightarrow> canonical_root (AList.update k v d) = canonical_root d"
proof -
  assume k: "k \<in> set unsigned_keys"
  have "filter (\<lambda>(j, v). j \<notin> set unsigned_keys \<and> v \<noteq> GNil) (AList.update k v d)
      = filter (\<lambda>(j, v). j \<notin> set unsigned_keys \<and> v \<noteq> GNil) d"
    using k by (induction d) auto
  then show ?thesis by (simp add: canonical_root_def)
qed

section \<open>What an announcement can do\<close>

definition seq_of :: "dict \<Rightarrow> u64" where
  "seq_of frame = (case uintValue (dget frame ''graph_seq'') of Some n \<Rightarrow> n | None \<Rightarrow> 0)"

text \<open>The sequence number \<open>s\<close> is above everything seen for the node.\<close>

definition newer :: "NdpRegistryProfile \<Rightarrow> string \<Rightarrow> u64 \<Rightarrow> bool" where
  "newer r nid s \<longleftrightarrow> (case map_of (npSequences r) nid of None \<Rightarrow> True | Some h \<Rightarrow> h < s)"

lemma check_frame_Inr:
  assumes "check_frame p frame sv t = Inr (nid, s, ttl)"
  shows "sv" and "nid = stringField frame ''nid''" and "nid \<noteq> []" and "s = seq_of frame"
    and "uintValue (dget frame ''ttl'') = Some ttl"
  using assms by (auto simp: check_frame_def seq_of_def Let_def split: if_splits option.splits)

lemma admit_new_cases:
  assumes "admit_new nid s ttl frame dg t r = (a, r')"
  obtains (stale) "a = rejectAdmission ''NDP-ANNOUNCE-STALE''" "r' = r"
  | (removed) "ttl = 0" "a = admission NdpRemoved"
      "r' = r\<lparr>npSequences := AList.update nid s (npSequences r), npEntries := AList.delete nid (npEntries r)\<rparr>"
  | (accepted) e where "ttl \<noteq> 0" "freshnessDeadline frame = Some e" "t < e" "a = admission NdpAccepted"
      "r' = store_entry nid frame dg e (r\<lparr>npSequences := AList.update nid s (npSequences r)\<rparr>)"
proof (cases "ttl = 0")
  case True
  then show ?thesis using assms removed by (simp add: admit_new_def)
next
  case False
  then show ?thesis
    using assms stale accepted
    by (cases "freshnessDeadline frame") (simp_all add: admit_new_def split: if_splits)
qed

lemma admit_same_cases:
  assumes "admit_same nid frame dg t r = (a, r')"
  obtains (kept) "adDecision a \<in> {NdpRejected, NdpDuplicate}" "r' = r"
  | (refreshed) old e where "map_of (npEntries r) nid = Some old" "peSignedDigest old = dg"
      "freshnessDeadline frame = Some e" "t < e" "a = admission NdpRefreshed"
      "r' = store_entry nid frame dg e r"
proof (cases "\<exists>cur e. map_of (npEntries r) nid = Some cur \<and> peSignedDigest cur = dg
    \<and> \<not> sameLiveness (peFrame cur) frame \<and> freshnessDeadline frame = Some e \<and> t < e")
  case True
  then obtain cur e where "map_of (npEntries r) nid = Some cur" "peSignedDigest cur = dg"
    "\<not> sameLiveness (peFrame cur) frame" "freshnessDeadline frame = Some e" "t < e" by blast
  then show ?thesis using assms refreshed by (simp add: admit_same_def)
next
  case False
  then have "adDecision a \<in> {NdpRejected, NdpDuplicate}" "r' = r"
    using assms by (auto simp: admit_same_def admission_def rejectAdmission_def split: option.splits if_splits)
  then show ?thesis by (rule kept)
qed

lemma ApplyAnnounce_cases:
  assumes "ApplyAnnounce sha F frame sv t r = (a, r')"
  obtains (unchanged) "adDecision a \<in> {NdpRejected, NdpDuplicate}" "r' = r"
  | (removed) nid s where "check_frame (npSecurityProfile r) frame sv t = Inr (nid, s, 0)"
      "a = admission NdpRemoved" "newer r nid s"
      "r' = r\<lparr>npSequences := AList.update nid s (npSequences r), npEntries := AList.delete nid (npEntries r)\<rparr>"
  | (accepted) nid s ttl c e where "check_frame (npSecurityProfile r) frame sv t = Inr (nid, s, ttl)"
      "CanonicalAnnounceJSON F frame = Inr c" "ttl \<noteq> 0" "freshnessDeadline frame = Some e" "t < e"
      "a = admission NdpAccepted" "newer r nid s"
      "r' = store_entry nid frame (sha c) e (r\<lparr>npSequences := AList.update nid s (npSequences r)\<rparr>)"
  | (refreshed) nid s ttl c old e where "check_frame (npSecurityProfile r) frame sv t = Inr (nid, s, ttl)"
      "CanonicalAnnounceJSON F frame = Inr c" "map_of (npSequences r) nid = Some s"
      "map_of (npEntries r) nid = Some old" "peSignedDigest old = sha c"
      "freshnessDeadline frame = Some e" "t < e" "a = admission NdpRefreshed"
      "r' = store_entry nid frame (sha c) e r"
proof -
  consider (rejected) ec where "a = rejectAdmission ec" "r' = r"
    | (new) nid s ttl c where "check_frame (npSecurityProfile r) frame sv t = Inr (nid, s, ttl)"
        "CanonicalAnnounceJSON F frame = Inr c" "newer r nid s" "admit_new nid s ttl frame (sha c) t r = (a, r')"
    | (same) nid s ttl c where "check_frame (npSecurityProfile r) frame sv t = Inr (nid, s, ttl)"
        "CanonicalAnnounceJSON F frame = Inr c" "map_of (npSequences r) nid = Some s"
        "admit_same nid frame (sha c) t r = (a, r')"
    using assms
    by (fastforce simp: ApplyAnnounce_def newer_def Let_def split: sum.splits option.splits if_splits)
  then show ?thesis
  proof cases
    case (rejected ec)
    then show ?thesis using unchanged by (simp add: rejectAdmission_def)
  next
    case (new nid s ttl c)
    from new(4) show ?thesis
    proof (cases rule: admit_new_cases)
      case stale
      then show ?thesis using unchanged by (simp add: rejectAdmission_def)
    next
      case removed
      then show ?thesis using that(2) new by simp
    next
      case (accepted e)
      then show ?thesis using that(3) new by blast
    qed
  next
    case (same nid s ttl c)
    from same(4) show ?thesis
    proof (cases rule: admit_same_cases)
      case kept
      then show ?thesis by (rule unchanged)
    next
      case (refreshed old e)
      then show ?thesis using that(4) same by blast
    qed
  qed
qed

section \<open>Reachable registries\<close>

inductive profile_step :: "hasher \<Rightarrow> float_fmt \<Rightarrow> NdpRegistryProfile \<Rightarrow> NdpRegistryProfile \<Rightarrow> bool"
  for sha F where
  announce: "distinct (map fst frame) \<Longrightarrow> ApplyAnnounce sha F frame sv t r = (a, r')
    \<Longrightarrow> profile_step sha F r r'"

abbreviation profile_steps :: "hasher \<Rightarrow> float_fmt \<Rightarrow> NdpRegistryProfile \<Rightarrow> NdpRegistryProfile \<Rightarrow> bool" where
  "profile_steps sha F \<equiv> (profile_step sha F)\<^sup>*\<^sup>*"

text \<open>What the registry knows of an entry.\<close>

definition entry_ok :: "hasher \<Rightarrow> float_fmt \<Rightarrow> NdpRegistryProfile \<Rightarrow> string \<Rightarrow> profileEntry \<Rightarrow> bool" where
  "entry_ok sha F r nid e \<longleftrightarrow> stringField (peFrame e) ''nid'' = nid
     \<and> map_of (npSequences r) nid = Some (seq_of (peFrame e))
     \<and> map_sum id sha (CanonicalAnnounceJSON F (peFrame e)) = Inr (peSignedDigest e)
     \<and> freshnessDeadline (peFrame e) = Some (peExpiresAt e)"

definition profile_inv :: "hasher \<Rightarrow> float_fmt \<Rightarrow> NdpRegistryProfile \<Rightarrow> bool" where
  "profile_inv sha F r \<longleftrightarrow> (\<forall>nid e. map_of (npEntries r) nid = Some e \<longrightarrow> entry_ok sha F r nid e)"

lemma stored_entry_ok:
  assumes "distinct (map fst frame)" and "check_frame p frame sv t = Inr (nid, s, ttl)"
    and "CanonicalAnnounceJSON F frame = Inr c" and "freshnessDeadline frame = Some x"
    and "map_of (npSequences r) nid = Some s"
  shows "entry_ok sha F r nid \<lparr>peFrame = cloneMap frame, peSignedDigest = sha c, peExpiresAt = x\<rparr>"
  using assms check_frame_Inr [OF assms(2)]
  by (simp add: entry_ok_def stored_fields seq_of_def dget_cloneMap freshness_stored
      CanonicalAnnounceJSON_def canonical_stored)

lemma profile_inv_step: "profile_step sha F r r' \<Longrightarrow> profile_inv sha F r \<Longrightarrow> profile_inv sha F r'"
proof (induction rule: profile_step.induct)
  case (announce frame sv t r a r')
  from announce.hyps(2) show ?case
  proof (cases rule: ApplyAnnounce_cases)
    case unchanged
    then show ?thesis using announce.prems by simp
  next
    case (removed nid s)
    then show ?thesis
      using announce.prems by (auto simp: profile_inv_def entry_ok_def delete_conv' update_conv')
  next
    case (accepted nid s ttl c e)
    then show ?thesis
      using announce.prems stored_entry_ok [OF announce.hyps(1) accepted(1,2,4), of r' sha]
      by (auto simp: profile_inv_def store_entry_def update_conv') (auto simp: entry_ok_def update_conv')
  next
    case (refreshed nid s ttl c old e)
    then show ?thesis
      using announce.prems stored_entry_ok [OF announce.hyps(1) refreshed(1,2,6), of r' sha]
      by (auto simp: profile_inv_def store_entry_def update_conv') (auto simp: entry_ok_def)
  qed
qed

text \<open>Sequence numbers only grow, and a node that has been withdrawn stays away at its number.\<close>

definition seq_le :: "u64 option \<Rightarrow> u64 option \<Rightarrow> bool" where
  "seq_le x y = (case x of None \<Rightarrow> True | Some a \<Rightarrow> (case y of None \<Rightarrow> False | Some b \<Rightarrow> a \<le> b))"

lemma seq_le_trans: "seq_le x y \<Longrightarrow> seq_le y z \<Longrightarrow> seq_le x z"
  by (auto simp: seq_le_def split: option.splits)

lemma seq_le_refl [simp]: "seq_le x x"
  by (simp add: seq_le_def split: option.split)

lemma seq_le_newer: "newer r nid s \<Longrightarrow> seq_le (map_of (npSequences r) k) (map_of (AList.update nid s (npSequences r)) k)"
  by (auto simp: newer_def seq_le_def update_conv' split: option.splits)

lemma profile_step_seq:
  "profile_step sha F r r' \<Longrightarrow> seq_le (map_of (npSequences r) k) (map_of (npSequences r') k)"
proof (induction rule: profile_step.induct)
  case (announce frame sv t r a r')
  from announce.hyps(2) show ?case
    by (cases rule: ApplyAnnounce_cases) (simp_all add: seq_le_newer store_entry_def)
qed

lemma profile_steps_seq:
  "profile_steps sha F r r' \<Longrightarrow> seq_le (map_of (npSequences r) k) (map_of (npSequences r') k)"
  by (induction rule: rtranclp_induct) (use seq_le_trans profile_step_seq in \<open>blast intro: seq_le_refl\<close>)+

lemma profile_steps_inv:
  "profile_steps sha F r r' \<Longrightarrow> profile_inv sha F r \<Longrightarrow> profile_inv sha F r'"
  by (induction rule: rtranclp_induct) (auto intro: profile_inv_step)

lemma profile_inv_New: "profile_inv sha F (NewNdpRegistryProfile p)"
  by (simp add: profile_inv_def NewNdpRegistryProfile_def)

lemma withdrawn_step:
  assumes "profile_step sha F r r'" and "seq_le (Some n) (map_of (npSequences r) nid)"
    and "map_of (npEntries r) nid \<noteq> None \<Longrightarrow> map_of (npSequences r) nid \<noteq> Some n"
  shows "map_of (npEntries r') nid \<noteq> None \<Longrightarrow> map_of (npSequences r') nid \<noteq> Some n"
  using assms(1)
proof (cases rule: profile_step.cases)
  case (announce frame sv t a)
  assume p: "map_of (npEntries r') nid \<noteq> None"
  from announce(2) show ?thesis
  proof (cases rule: ApplyAnnounce_cases)
    case unchanged
    then show ?thesis using assms(3) p by simp
  next
    case (removed k s)
    then show ?thesis using assms(3) p by (auto simp: delete_conv' update_conv' split: if_splits)
  next
    case (accepted k s ttl c e)
    then have "k = nid \<Longrightarrow> n < s" using assms(2) by (auto simp: seq_le_def newer_def split: option.splits)
    then show ?thesis using accepted assms(3) p by (auto simp: store_entry_def update_conv' split: if_splits)
  next
    case (refreshed k s ttl c old e)
    then show ?thesis using assms(3) p by (auto simp: store_entry_def update_conv' split: if_splits)
  qed
qed

lemma withdrawn_steps:
  assumes "profile_steps sha F r r'" and "map_of (npSequences r) nid = Some n" and "map_of (npEntries r) nid = None"
  shows "map_of (npEntries r') nid \<noteq> None \<Longrightarrow> map_of (npSequences r') nid \<noteq> Some n"
  using assms(1)
proof (induction rule: rtranclp_induct)
  case (step y z)
  have "seq_le (Some n) (map_of (npSequences y) nid)" using profile_steps_seq [OF step(1), of nid] assms(2) by simp
  from withdrawn_step [OF step(2) this step.IH] step.prems show ?case by blast
qed (use assms(3) in simp)

lemma old_frame_rejected:
  assumes "stringField frame ''nid'' = nid" and "map_of (npSequences r) nid = Some m" and "seq_of frame < m"
  shows "adDecision (fst (ApplyAnnounce sha F frame sv t r)) = NdpRejected"
    and "snd (ApplyAnnounce sha F frame sv t r) = r"
proof -
  have "\<exists>ec. ApplyAnnounce sha F frame sv t r = (rejectAdmission ec, r)"
  proof (cases "check_frame (npSecurityProfile r) frame sv t")
    case (Inr x)
    then obtain n s ttl where ck: "check_frame (npSecurityProfile r) frame sv t = Inr (n, s, ttl)" by (cases x) auto
    from check_frame_Inr [OF ck] show ?thesis
      using ck assms by (cases "CanonicalAnnounceJSON F frame") (auto simp: ApplyAnnounce_def)
  qed (auto simp: ApplyAnnounce_def)
  then show "adDecision (fst (ApplyAnnounce sha F frame sv t r)) = NdpRejected"
    and "snd (ApplyAnnounce sha F frame sv t r) = r"
    by (auto simp: rejectAdmission_def)
qed

section \<open>Properties\<close>

text \<open>C32: What every entry of a reachable registry satisfies.  It is stored under the NID its frame
  names; the number recorded for that node is the frame's; the digest is that of the signed part of
  the frame as stored, so nothing that was signed was lost; and it expires when the frame says.\<close>

theorem profile_entries_consistent:
  assumes "profile_steps sha F (NewNdpRegistryProfile p) r" and "map_of (npEntries r) nid = Some e"
  shows "stringField (peFrame e) ''nid'' = nid
    \<and> map_of (npSequences r) nid = Some (seq_of (peFrame e))
    \<and> (\<exists>c. CanonicalAnnounceJSON F (peFrame e) = Inr c \<and> peSignedDigest e = sha c)
    \<and> freshnessDeadline (peFrame e) = Some (peExpiresAt e)"
proof -
  have "entry_ok sha F r nid e"
    using profile_steps_inv [OF assms(1) profile_inv_New] assms(2) by (simp add: profile_inv_def)
  then show ?thesis by (cases "CanonicalAnnounceJSON F (peFrame e)") (auto simp: entry_ok_def)
qed

text \<open>C31: Announcements cannot be rolled back.  Once the number \<open>n\<close> has been recorded for a node, in
  every later state of the registry an entry of that node carries a number of at least \<open>n\<close>, and
  strictly more than \<open>n\<close> when the node had been withdrawn at \<open>n\<close>; and a frame with a lower number is
  rejected and changes nothing.\<close>

theorem profile_no_rollback:
  assumes "profile_steps sha F (NewNdpRegistryProfile p) r" and "profile_steps sha F r r'"
    and "map_of (npSequences r) nid = Some n"
  shows "(map_of (npEntries r') nid = Some e \<longrightarrow> n \<le> seq_of (peFrame e)
      \<and> (map_of (npEntries r) nid = None \<longrightarrow> n < seq_of (peFrame e)))
    \<and> (stringField frame ''nid'' = nid \<and> seq_of frame < n \<longrightarrow>
         adDecision (fst (ApplyAnnounce sha F frame sv t r')) = NdpRejected
       \<and> snd (ApplyAnnounce sha F frame sv t r') = r')"
proof -
  obtain m where m: "map_of (npSequences r') nid = Some m" "n \<le> m"
    using profile_steps_seq [OF assms(2), of nid] assms(3) by (auto simp: seq_le_def split: option.splits)
  have "seq_of (peFrame e) = m" if "map_of (npEntries r') nid = Some e"
    using profile_steps_inv [OF rtranclp_trans [OF assms(1,2)] profile_inv_New] that m(1)
    by (simp add: profile_inv_def entry_ok_def)
  moreover have "m \<noteq> n" if "map_of (npEntries r') nid = Some e" "map_of (npEntries r) nid = None"
    using withdrawn_steps [OF assms(2,3) that(2)] that(1) m(1) by auto
  moreover have "seq_of frame < n \<Longrightarrow> seq_of frame < m" using m(2) by simp
  ultimately show ?thesis
    using m old_frame_rejected [OF _ m(1)] by (auto simp: order_le_less)
qed

text \<open>A node that announces itself with number 3 and withdraws with number 4.\<close>

definition sample_node :: "int \<Rightarrow> int \<Rightarrow> dict" where
  "sample_node seq ttl = [(''nid'', GStr ''n''), (''timestamp'', GStr ''2026-01-01T00:00:00Z''),
     (''ttl'', GNum KInt ttl), (''graph_seq'', GNum KInt seq)]"

definition sample_time :: instant where
  "sample_time = 1767225600 * second_ns"

definition sample_profile :: NdpRegistryProfile where
  "sample_profile = snd (ApplyAnnounce id sample_fmt (sample_node 3 60) True sample_time
     (NewNdpRegistryProfile []))"

definition sample_withdrawn :: NdpRegistryProfile where
  "sample_withdrawn = snd (ApplyAnnounce id sample_fmt (sample_node 4 0) True sample_time sample_profile)"

lemma sample_steps:
  "profile_steps id sample_fmt (NewNdpRegistryProfile []) sample_profile"
  "profile_steps id sample_fmt (NewNdpRegistryProfile []) sample_withdrawn"
proof -
  have d: "distinct (map fst (sample_node s t))" for s t by (simp add: sample_node_def)
  have "profile_step id sample_fmt r (snd (ApplyAnnounce id sample_fmt (sample_node s x) True t r))" for s x t r
    by (rule announce [OF d, where a = "fst (ApplyAnnounce id sample_fmt (sample_node s x) True t r)"]) simp
  then show "profile_steps id sample_fmt (NewNdpRegistryProfile []) sample_profile"
    "profile_steps id sample_fmt (NewNdpRegistryProfile []) sample_withdrawn"
    unfolding sample_withdrawn_def sample_profile_def by (meson r_into_rtranclp rtranclp.rtrancl_into_rtrancl)+
qed

theorem profile_entries_consistent_witness:
  "\<exists>e. map_of (npEntries sample_profile) ''n'' = Some e \<and> seq_of (peFrame e) = 3
     \<and> map_of (npSequences sample_profile) ''n'' = Some (seq_of (peFrame e))"
proof -
  have "case map_of (npEntries sample_profile) ''n'' of None \<Rightarrow> False | Some e \<Rightarrow> seq_of (peFrame e) = 3"
    by code_simp
  then obtain e where "map_of (npEntries sample_profile) ''n'' = Some e" "seq_of (peFrame e) = 3"
    by (auto split: option.splits)
  with profile_entries_consistent [OF sample_steps(1) this(1)] show ?thesis by blast
qed

theorem profile_no_rollback_witness:
  "adDecision (fst (ApplyAnnounce id sample_fmt (sample_node 3 60) True sample_time sample_withdrawn)) = NdpRejected
   \<and> snd (ApplyAnnounce id sample_fmt (sample_node 3 60) True sample_time sample_withdrawn) = sample_withdrawn"
proof -
  have "map_of (npSequences sample_withdrawn) ''n'' = Some 4" by code_simp
  moreover have "stringField (sample_node 3 60) ''nid'' = ''n'' \<and> seq_of (sample_node 3 60) < 4" by code_simp
  ultimately show ?thesis
    using profile_no_rollback [OF sample_steps(2) rtranclp.rtrancl_refl, of "''n''" 4] by blast
qed

section \<open>Clusters\<close>





end
