(* ===== verification/Kahn.thy ===== *)
theory Kahn
  imports NPS_Prelude "HOL-Library.Multiset" "HOL-Library.AList"
begin

text \<open>
  Kahn's topological sort, as the DAG validator and the portable orchestrator of \<open>nop\<close> run it: the
  number of open incoming edges of every node, a queue of ready nodes, and the nodes taken from it so
  far.  The two differ in how a node enters the queue and in the order of a node's successors.  The
  contract of such a loop is the locale \<open>kahn\<close>; its lemmas show that the loop outputs a node
  exactly when everything before it has been output, so that it outputs every node exactly when the
  edges have no cycle.
\<close>

section \<open>One node's successors\<close>

definition degree :: "('a \<times> int) list \<Rightarrow> 'a \<Rightarrow> int" where
  "degree rem v = (case map_of rem v of Some d \<Rightarrow> d | None \<Rightarrow> 0)"

fun relax :: "('a \<Rightarrow> 'a list \<Rightarrow> 'a list) \<Rightarrow> 'a list \<Rightarrow> ('a \<times> int) list \<Rightarrow> 'a list
    \<Rightarrow> ('a \<times> int) list \<times> 'a list" where
  "relax enq [] rem queue = (rem, queue)"
| "relax enq (n # ns) rem queue =
     (let d = degree rem n - 1; rem = AList.update n d rem
      in relax enq ns rem (if d = 0 then enq n queue else queue))"

lemma degree_update [simp]: "degree (AList.update n d rem) v = (if v = n then d else degree rem v)"
  by (simp add: degree_def update_conv')

lemma degree_relax: "degree (fst (relax enq ns rem q)) v = degree rem v - int (count_list ns v)"
  by (induction ns arbitrary: rem q) (auto simp: Let_def)

text \<open>Termination: a node that enters the queue leaves the set of nodes with open edges.\<close>

definition open_nodes :: "('a \<times> int) list \<Rightarrow> nat" where
  "open_nodes rem = length (filter (\<lambda>(k, d). 0 < d) rem)"

lemma open_update_less:
  "map_of rem n = Some d \<Longrightarrow> 0 < d \<Longrightarrow> d' \<le> 0 \<Longrightarrow> Suc (open_nodes (AList.update n d' rem)) = open_nodes rem"
  by (induction rem) (auto simp: open_nodes_def split: if_splits)

lemma open_update_le: "d' \<le> 0 \<or> 0 < degree rem n \<Longrightarrow> open_nodes (AList.update n d' rem) \<le> open_nodes rem"
  by (induction rem) (auto simp: open_nodes_def degree_def split: if_splits)

lemma relax_measure:
  assumes "\<And>x q. length (enq x q) = Suc (length q)"
  shows "length (snd (relax enq ns rem q)) + open_nodes (fst (relax enq ns rem q)) \<le> length q + open_nodes rem"
proof (induction ns arbitrary: rem q)
  case (Cons n ns)
  let ?d = "degree rem n - 1" and ?rem = "AList.update n (degree rem n - 1) rem"
  show ?case
  proof (cases "?d = 0")
    case True
    then have "map_of rem n = Some 1" by (auto simp: degree_def split: option.splits)
    then have "Suc (open_nodes ?rem) = open_nodes rem" using True by (intro open_update_less [of rem n 1]) auto
    then show ?thesis using Cons.IH [of ?rem "enq n q"] True assms by (simp add: Let_def)
  next
    case False
    have "open_nodes ?rem \<le> open_nodes rem" by (rule open_update_le) auto
    then show ?thesis using Cons.IH [of ?rem q] False by (simp add: Let_def)
  qed
qed simp

section \<open>Edges and open edges\<close>

definition successors :: "('a \<times> 'a) list \<Rightarrow> 'a \<Rightarrow> 'a list" where
  "successors es u = map snd (filter (\<lambda>e. fst e = u) es)"

text \<open>The edges into \<open>v\<close> whose source is not in \<open>S\<close>.\<close>

definition open_edges :: "('a \<times> 'a) list \<Rightarrow> 'a set \<Rightarrow> 'a \<Rightarrow> nat" where
  "open_edges es S v = length (filter (\<lambda>e. snd e = v \<and> fst e \<notin> S) es)"

lemma open_edges_insert:
  "x \<notin> S \<Longrightarrow> open_edges es S v = open_edges es (insert x S) v + count_list (successors es x) v"
  by (induction es) (auto simp: open_edges_def successors_def)

lemma open_edges_0: "open_edges es S v = 0 \<longleftrightarrow> (\<forall>u. (u, v) \<in> set es \<longrightarrow> u \<in> S)"
  by (auto simp: open_edges_def filter_empty_conv)

text \<open>Every node comes after its predecessors.\<close>

definition topological :: "('a \<times> 'a) list \<Rightarrow> 'a list \<Rightarrow> bool" where
  "topological es xs \<longleftrightarrow> distinct xs \<and> (\<forall>i<length xs. \<forall>u. (u, xs ! i) \<in> set es \<longrightarrow> u \<in> set (take i xs))"

lemma topological_snoc:
  "topological es (xs @ [x]) \<longleftrightarrow> topological es xs \<and> x \<notin> set xs \<and> (\<forall>u. (u, x) \<in> set es \<longrightarrow> u \<in> set xs)"
  by (auto simp: topological_def nth_append less_Suc_eq)

lemma topological_acyclic:
  assumes "topological es xs" and "snd ` set es \<subseteq> set xs"
  shows "acyclic (set es)"
proof -
  define pos where "pos = (\<lambda>v. THE i. i < length xs \<and> xs ! i = v)"
  have pos: "pos (xs ! i) = i" if "i < length xs" for i
    unfolding pos_def using that assms(1) by (intro the_equality) (auto simp: topological_def nth_eq_iff_index_eq)
  have "pos u < pos v" if e: "(u, v) \<in> set es" for u v
  proof -
    have "v \<in> set xs" using e assms(2) by (force simp: image_subset_iff)
    then obtain i where i: "i < length xs" "v = xs ! i" by (metis in_set_conv_nth)
    then have "u \<in> set (take i xs)" using assms(1) e by (auto simp: topological_def)
    then obtain j where "j < i" "u = xs ! j" using i by (auto simp: in_set_conv_nth)
    then show ?thesis using pos i by simp
  qed
  then have "set es \<subseteq> measure pos" by auto
  then have "wf (set es)" using wf_measure wf_subset by blast
  then show ?thesis by (rule wf_acyclic)
qed

section \<open>The contract of the loop\<close>

lemma relax_queue:
  assumes enq: "\<And>x q. mset (enq x q) = add_mset x (mset q)"
    and "\<And>v. v \<in> set ns \<Longrightarrow> int (count_list ns v) \<le> degree rem v"
  shows "mset (snd (relax enq ns rem q)) = mset q + mset_set {v \<in> set ns. degree rem v = int (count_list ns v)}"
  using assms(2)
proof (induction ns arbitrary: rem q)
  case (Cons n ns)
  let ?d = "degree rem n - 1" and ?rem = "AList.update n (degree rem n - 1) rem"
  let ?W = "{v \<in> set ns. degree ?rem v = int (count_list ns v)}"
  let ?V = "{v \<in> set (n # ns). degree rem v = int (count_list (n # ns) v)}"
  have n: "int (count_list ns n) \<le> ?d" using Cons.prems [of n] by simp
  have prem: "int (count_list ns v) \<le> degree ?rem v" if "v \<in> set ns" for v
    using Cons.prems [of v] that n by auto
  show ?case
  proof (cases "?d = 0")
    case True
    then have "n \<notin> set ns" using n count_list_0_iff [of ns n] by simp
    then have "?V = insert n ?W" "n \<notin> ?W" using True by auto
    then show ?thesis using Cons.IH [OF prem, of "enq n q"] True by (simp add: Let_def enq)
  next
    case False
    have "?V = ?W"
    proof (rule set_eqI)
      fix v show "v \<in> ?V \<longleftrightarrow> v \<in> ?W"
        using False count_list_0_iff [of ns n] by (cases "v = n") auto
    qed
    then show ?thesis using Cons.IH [OF prem, of q] False by (simp add: Let_def)
  qed
qed simp

lemma mset_mset_setD:
  assumes "mset xs = mset_set A" and "finite A"
  shows "distinct xs" and "set xs = A"
proof -
  show s: "set xs = A" using arg_cong [OF assms(1), of set_mset] assms(2) by simp
  have "count_list xs x = (if x \<in> A then 1 else 0)" for x
    using arg_cong [OF assms(1), of "\<lambda>M. count M x"] assms(2) by (simp add: count_mset count_mset_set')
  then show "distinct xs" using s by (simp add: distinct_count_atmost_1 count_mset)
qed

locale kahn =
  fixes enq :: "'a \<Rightarrow> 'a list \<Rightarrow> 'a list"
    and loop :: "('a \<Rightarrow> 'a list) \<Rightarrow> ('a \<times> int) list \<Rightarrow> 'a list \<Rightarrow> 'a list \<Rightarrow> 'a list"
  assumes enq_mset: "mset (enq x q) = add_mset x (mset q)"
    and loop_Nil: "loop succs rem [] out = out"
    and loop_Cons: "loop succs rem (x # q) out =
          (case relax enq (succs x) rem q of (rem', q') \<Rightarrow> loop succs rem' q' (out @ [x]))"
begin

definition inv :: "('a \<times> 'a) list \<Rightarrow> 'a list \<Rightarrow> ('a \<times> int) list \<Rightarrow> 'a list \<Rightarrow> 'a list \<Rightarrow> bool" where
  "inv es nodes rem queue out \<longleftrightarrow> topological es out \<and> distinct (out @ queue)
     \<and> set (out @ queue) = {v \<in> set nodes. open_edges es (set out) v = 0}
     \<and> (\<forall>v\<in>set nodes. degree rem v = int (open_edges es (set out) v))"

lemma inv_step:
  assumes es: "fst ` set es \<union> snd ` set es \<subseteq> set nodes"
    and succs: "\<And>u. mset (succs u) = mset (successors es u)"
    and inv: "inv es nodes rem (x # q) out"
  shows "inv es nodes (fst (relax enq (succs x) rem q)) (snd (relax enq (succs x) rem q)) (out @ [x])"
proof -
  let ?S = "set out" and ?ns = "succs x"
  let ?W = "{v \<in> set ?ns. degree rem v = int (count_list ?ns v)}"
  have cnt: "count_list ?ns v = count_list (successors es x) v" for v
    using succs [of x] by (metis count_mset)
  have x: "x \<in> set nodes" "x \<notin> ?S" "open_edges es ?S x = 0" and d: "distinct (out @ x # q)"
    and ready: "set (out @ x # q) = {v \<in> set nodes. open_edges es ?S v = 0}"
    and deg: "\<And>v. v \<in> set nodes \<Longrightarrow> degree rem v = int (open_edges es ?S v)"
    and topo: "topological es out"
    using inv unfolding inv_def by auto
  have split: "open_edges es ?S v = open_edges es (insert x ?S) v + count_list ?ns v" for v
    using open_edges_insert [OF x(2)] cnt by simp
  have ns: "set ?ns \<subseteq> set nodes"
    using es mset_eq_setD [OF succs [of x]] by (auto simp: successors_def)
  have q: "mset (snd (relax enq ?ns rem q)) = mset q + mset_set ?W"
    using ns deg split by (intro relax_queue enq_mset) auto
  have W: "?W = {v \<in> set nodes. 0 < open_edges es ?S v \<and> open_edges es (insert x ?S) v = 0}"
  proof (rule set_eqI)
    fix v
    have "0 < count_list ?ns v \<longleftrightarrow> v \<in> set ?ns" using count_list_0_iff [of ?ns v] by auto
    then show "v \<in> ?W \<longleftrightarrow> v \<in> {v \<in> set nodes. 0 < open_edges es ?S v \<and> open_edges es (insert x ?S) v = 0}"
      using ns deg [of v] split [of v] by auto
  qed
  have disj: "?W \<inter> (insert x ?S \<union> set q) = {}"
  proof -
    have "v \<in> insert x ?S \<union> set q \<Longrightarrow> open_edges es ?S v = 0" for v using ready by auto
    then show ?thesis unfolding W by fastforce
  qed
  have "mset_set (set q \<union> ?W) = mset_set (set q) + mset_set ?W"
    using disj by (intro mset_set_Union) auto
  then have "mset (snd (relax enq ?ns rem q)) = mset_set (set q \<union> ?W)"
    using q d by (simp add: mset_set_set)
  from mset_mset_setD [OF this]
  have "distinct (snd (relax enq ?ns rem q))" "set (snd (relax enq ?ns rem q)) = set q \<union> ?W" by simp_all
  moreover have "topological es (out @ [x])"
    using topo x by (simp add: topological_snoc open_edges_0)
  moreover have "insert x ?S \<union> (set q \<union> ?W) = {v \<in> set nodes. open_edges es (insert x ?S) v = 0}"
  proof -
    have "insert x ?S \<union> set q = {v \<in> set nodes. open_edges es ?S v = 0}" using ready by auto
    then show ?thesis unfolding W using split by (auto simp: set_eq_iff)
  qed
  ultimately show ?thesis
    using d disj deg split unfolding inv_def by (auto simp: degree_relax)
qed

lemma inv_length: "inv es nodes rem q out \<Longrightarrow> length out \<le> length nodes"
proof -
  assume "inv es nodes rem q out"
  then have "distinct out" "set out \<subseteq> set nodes" unfolding inv_def by auto
  then have "length out \<le> card (set nodes)" using card_mono [OF finite_set] distinct_card by metis
  then show ?thesis using card_length [of nodes] by simp
qed

lemma loop_inv:
  assumes es: "fst ` set es \<union> snd ` set es \<subseteq> set nodes"
    and succs: "\<And>u. mset (succs u) = mset (successors es u)"
  shows "inv es nodes rem q out \<Longrightarrow> \<exists>rem'. inv es nodes rem' [] (loop succs rem q out)"
proof (induction "length nodes - length out" arbitrary: rem q out rule: less_induct)
  case less
  show ?case
  proof (cases q)
    case Nil
    then show ?thesis using less.prems loop_Nil by auto
  next
    case (Cons x q')
    let ?r = "relax enq (succs x) rem q'"
    have step: "inv es nodes (fst ?r) (snd ?r) (out @ [x])"
      using inv_step [OF es succs] less.prems Cons by simp
    then have "length nodes - length (out @ [x]) < length nodes - length out"
      using inv_length [OF step] by simp
    from less.hyps [OF this step] show ?thesis using Cons by (simp add: loop_Cons case_prod_unfold)
  qed
qed

text \<open>The whole sort, from the degrees of the nodes and the ready ones among them.\<close>

lemma inv_start:
  assumes "distinct nodes" and "mset q = mset (filter (\<lambda>v. degree rem v = 0) nodes)"
    and deg: "\<And>v. v \<in> set nodes \<Longrightarrow> degree rem v = int (open_edges es {} v)"
  shows "inv es nodes rem q []"
proof -
  have "set q = set (filter (\<lambda>v. degree rem v = 0) nodes)" using assms(2) by (rule mset_eq_setD)
  moreover have "distinct q" using assms(1,2) by (metis distinct_filter mset_eq_imp_distinct_iff)
  ultimately show ?thesis using deg by (auto simp: inv_def topological_def)
qed

lemma sort_correct:
  assumes es: "fst ` set es \<union> snd ` set es \<subseteq> set nodes" and "distinct nodes"
    and succs: "\<And>u. mset (succs u) = mset (successors es u)"
    and deg: "\<And>v. v \<in> set nodes \<Longrightarrow> degree rem v = int (open_edges es {} v)"
    and q: "mset q = mset (filter (\<lambda>v. degree rem v = 0) nodes)"
  shows "topological es (loop succs rem q [])" and "set (loop succs rem q []) \<subseteq> set nodes"
    and "length (loop succs rem q []) = length nodes \<longleftrightarrow> acyclic (set es)"
proof -
  let ?out = "loop succs rem q []"
  obtain rem' where inv: "inv es nodes rem' [] ?out"
    using loop_inv [OF es succs inv_start [OF assms(2) q deg]] by blast
  then show topo: "topological es ?out" and sub: "set ?out \<subseteq> set nodes"
    by (auto simp: inv_def)
  have out: "v \<in> set ?out \<longleftrightarrow> v \<in> set nodes \<and> (\<forall>u. (u, v) \<in> set es \<longrightarrow> u \<in> set ?out)" for v
  proof -
    have "set ?out = {v \<in> set nodes. open_edges es (set ?out) v = 0}" using inv by (simp add: inv_def)
    then show ?thesis unfolding open_edges_0 [symmetric] by blast
  qed
  have d: "distinct ?out" using topo by (simp add: topological_def)
  have "set nodes \<subseteq> set ?out" if "acyclic (set es)"
  proof -
    have wf: "wf (set es)" using that by (simp add: finite_acyclic_wf)
    have "v \<in> set nodes \<longrightarrow> v \<in> set ?out" for v
    proof (induction v rule: wf_induct_rule [OF wf])
      case (1 v)
      have "u \<in> set nodes" if "(u, v) \<in> set es" for u using that es by force
      with 1 out show ?case by blast
    qed
    then show ?thesis by blast
  qed
  moreover have "acyclic (set es)" if "set nodes \<subseteq> set ?out"
    using topological_acyclic [OF topo] es that by blast
  moreover have "length ?out = length nodes \<longleftrightarrow> set nodes \<subseteq> set ?out"
    using card_subset_eq [OF finite_set sub] distinct_card [OF d] distinct_card [OF assms(2)] sub by auto
  ultimately show "length ?out = length nodes \<longleftrightarrow> acyclic (set es)" by blast
qed

end

section \<open>First in, first out\<close>

definition fifo_enq :: "'a \<Rightarrow> 'a list \<Rightarrow> 'a list" where
  "fifo_enq x q = q @ [x]"

lemma fifo_decreases:
  "relax fifo_enq ns rem q = (rem', q') \<Longrightarrow> length q' + open_nodes rem' \<le> length q + open_nodes rem"
  using relax_measure [of fifo_enq ns rem q] by (simp add: fifo_enq_def)

function kahn_fifo :: "('a \<Rightarrow> 'a list) \<Rightarrow> ('a \<times> int) list \<Rightarrow> 'a list \<Rightarrow> 'a list \<Rightarrow> 'a list" where
  "kahn_fifo succs rem queue out =
     (case queue of
        [] \<Rightarrow> out
      | current # rest \<Rightarrow>
          (case relax fifo_enq (succs current) rem rest of
             (rem', queue') \<Rightarrow> kahn_fifo succs rem' queue' (out @ [current])))"
  by pat_completeness auto
termination
  by (relation "measure (\<lambda>(succs, rem, queue, out). length queue + open_nodes rem)")
     (auto dest!: fifo_decreases [OF sym])

declare kahn_fifo.simps [simp del]

interpretation fifo: kahn fifo_enq kahn_fifo
  by unfold_locales (simp_all add: fifo_enq_def kahn_fifo.simps [of _ _ "_ # _"] kahn_fifo.simps [of _ _ "[]"])

end
