(* ===== verification/Go_Raw.thy ===== *)
theory Go_Raw
  imports Go_Json
begin

text \<open>
  \<open>json.RawMessage\<close>: a JSON value kept as its text, the empty text standing for the nil message.
  \<open>json.Unmarshal\<close> into a map or a slice of raw messages cuts the texts of the members out of the
  whole, white space inside them included; \<open>json.Marshal\<close> writes raw messages in compact form with
  the HTML characters escaped.  On compact texts both act as the tree of the value does.
\<close>

type_synonym raw = string

section \<open>Cutting a text into its members\<close>

text \<open>Tokens with the white space before them.\<close>

function raw_lex :: "string \<Rightarrow> (string \<times> tok) list option" where
  "raw_lex s =
     (case dropWhile is_space s of
        [] \<Rightarrow> Some []
      | c # cs \<Rightarrow>
          (case next_tok (c # cs) of
             None \<Rightarrow> None
           | Some (t, r) \<Rightarrow> map_option ((#) (takeWhile is_space s, t)) (raw_lex r)))"
  by pat_completeness auto
termination
proof (relation "measure length", goal_cases)
  case (2 s c cs x t r)
  have "length r < length (dropWhile is_space s)"
    using 2 by (auto dest: next_tok_shorter)
  then show ?case using length_dropWhile_le [of is_space s] by simp
qed simp

declare raw_lex.simps [simp del]

text \<open>The members of an open array or object: the token lists between the commas outside every inner
  bracket, up to the bracket that closes it.\<close>

definition opens :: "tok \<Rightarrow> bool" where
  "opens t \<longleftrightarrow> t = TLBrace \<or> t = TLBrack"

definition closes :: "tok \<Rightarrow> bool" where
  "closes t \<longleftrightarrow> t = TRBrace \<or> t = TRBrack"

fun raw_split :: "nat \<Rightarrow> (string \<times> tok) list \<Rightarrow> (string \<times> tok) list \<Rightarrow> (string \<times> tok) list list" where
  "raw_split d acc [] = [rev acc]"
| "raw_split d acc ((w, t) # ts) =
     (if d = 0 \<and> closes t then [rev acc]
      else if d = 0 \<and> t = TComma then rev acc # raw_split d [] ts
      else raw_split (if opens t then Suc d else if closes t then d - 1 else d) ((w, t) # acc) ts)"

definition raw_members :: "(string \<times> tok) list \<Rightarrow> (string \<times> tok) list list" where
  "raw_members ts = filter (\<lambda>m. m \<noteq> []) (raw_split 0 [] (tl ts))"

text \<open>The text of a value, without the white space before it.\<close>

fun raw_text :: "(string \<times> tok) list \<Rightarrow> raw" where
  "raw_text [] = []"
| "raw_text ((w, t) # ts) = tok_text t @ concat (map (\<lambda>(w, t). w @ tok_text t) ts)"

definition raw_tokens :: "raw \<Rightarrow> (string \<times> tok) list" where
  "raw_tokens r = (case raw_lex r of Some ts \<Rightarrow> ts | None \<Rightarrow> [])"

definition member_key :: "(string \<times> tok) list \<Rightarrow> string" where
  "member_key m = (case m of (w, TStr k) # _ \<Rightarrow> unquote k | _ \<Rightarrow> [])"

section \<open>Unmarshalling\<close>

text \<open>Into \<open>map[string]json.RawMessage\<close>, \<open>[]json.RawMessage\<close>, \<open>string\<close> and \<open>any\<close>; \<open>null\<close> leaves
  the zero value.\<close>

definition unmarshal_map :: "raw \<Rightarrow> (string \<times> raw) list option" where
  "unmarshal_map r =
     (case parse_json r of
        Some JNull \<Rightarrow> Some []
      | Some (JObj kvs) \<Rightarrow>
          Some (fold (\<lambda>m d. AList.update (member_key m) (raw_text (drop 2 m)) d) (raw_members (raw_tokens r)) [])
      | _ \<Rightarrow> None)"

definition unmarshal_slice :: "raw \<Rightarrow> raw list option" where
  "unmarshal_slice r =
     (case parse_json r of
        Some JNull \<Rightarrow> Some []
      | Some (JArr js) \<Rightarrow> Some (map raw_text (raw_members (raw_tokens r)))
      | _ \<Rightarrow> None)"

definition unmarshal_string :: "raw \<Rightarrow> string option" where
  "unmarshal_string r =
     (case parse_json r of
        Some JNull \<Rightarrow> Some []
      | Some (JStr s) \<Rightarrow> Some (unquote s)
      | _ \<Rightarrow> None)"

definition unmarshal_any :: "raw \<Rightarrow> goany res" where
  "unmarshal_any r = (case parse_json r of None \<Rightarrow> Inl json_error | Some j \<Rightarrow> jany j)"

section \<open>Marshalling\<close>

text \<open>The HTML characters and the two line separators, escaped wherever they stand in a valid text.\<close>

fun escape_html :: "string \<Rightarrow> string" where
  "escape_html [] = []"
| "escape_html (c # s) =
     (if c = CHR ''<'' then [CHR 0x5C] @ ''u003c'' @ escape_html s
      else if c = CHR ''>'' then [CHR 0x5C] @ ''u003e'' @ escape_html s
      else if c = CHR ''&'' then [CHR 0x5C] @ ''u0026'' @ escape_html s
      else if c = CHR 0xE2 \<and> take 2 s = [CHR 0x80, CHR 0xA8] then [CHR 0x5C] @ ''u2028'' @ escape_html (drop 2 s)
      else if c = CHR 0xE2 \<and> take 2 s = [CHR 0x80, CHR 0xA9] then [CHR 0x5C] @ ''u2029'' @ escape_html (drop 2 s)
      else c # escape_html s)"

definition marshal_raw :: "raw \<Rightarrow> raw res" where
  "marshal_raw r =
     (if r = [] then Inr ''null''
      else case parse_json r of
        None \<Rightarrow> Inl json_error
      | Some j \<Rightarrow> Inr (escape_html (json_text j)))"

definition marshal_map :: "(string \<times> raw) list \<Rightarrow> raw res" where
  "marshal_map d =
     bindr (all_res (map (\<lambda>(k, r). bindr (marshal_raw r) (\<lambda>t. Inr ([CHR 0x22] @ json_quote k @ [CHR 0x22] @ '':'' @ t)))
              (sort_key fst d)))
       (\<lambda>ms. Inr (''{'' @ join_with '','' ms @ ''}''))"

definition marshal_slice :: "raw list \<Rightarrow> raw res" where
  "marshal_slice rs = bindr (all_res (map marshal_raw rs)) (\<lambda>ms. Inr (''['' @ join_with '','' ms @ '']''))"

text \<open>Where the code drops the error, a failed \<open>json.Marshal\<close> leaves the nil message.\<close>

definition or_nil :: "raw res \<Rightarrow> raw" where
  "or_nil r = (case r of Inr t \<Rightarrow> t | Inl e \<Rightarrow> [])"

section \<open>Compact texts\<close>

abbreviation pad :: "tok list \<Rightarrow> (string \<times> tok) list" where
  "pad ts \<equiv> map (Pair []) ts"

lemma raw_lex_toks: "list_all tok_ok ts \<Longrightarrow> sep_ok ts \<Longrightarrow> raw_lex (concat (map tok_text ts)) = Some (pad ts)"
proof (induction ts)
  case (Cons t ts)
  have n: "next_tok (tok_text t @ concat (map tok_text ts)) = Some (t, concat (map tok_text ts))"
    using Cons.prems by (intro next_tok_text) (auto intro: punct_stops)
  obtain c r where "tok_text t = c # r" "\<not> is_space c" using tok_text_hd [of t] Cons.prems by auto
  then show ?case using n Cons by (subst raw_lex.simps) simp
qed (simp add: raw_lex.simps)

lemma raw_tokens_text: "json_ok d j \<Longrightarrow> raw_tokens (json_text j) = pad (toks j)"
  using raw_lex_toks [OF tok_ok_toks] sep_ok_toks [of "[]" j]
  by (simp add: raw_tokens_def json_text_def punct_def)

lemma raw_text_pad: "raw_text (pad ts) = concat (map tok_text ts)"
  by (cases ts) (simp_all add: comp_def)

lemma raw_split_inner:
  assumes "\<And>x acc us. x \<in> set xs \<Longrightarrow> raw_split (Suc d) acc (pad x @ us) = raw_split (Suc d) (rev (pad x) @ acc) us"
  shows "raw_split (Suc d) acc (pad (sep_by xs) @ us) = raw_split (Suc d) (rev (pad (sep_by xs)) @ acc) us"
proof -
  have "raw_split (Suc d) acc (pad (concat (map ((#) TComma) ys)) @ us)
      = raw_split (Suc d) (rev (pad (concat (map ((#) TComma) ys))) @ acc) us" if "set ys \<subseteq> set xs" for acc ys
    using that
    by (induction ys arbitrary: acc) (simp_all add: assms opens_def closes_def)
  then show ?thesis by (cases xs) (auto simp: sep_by_def assms)
qed

lemma raw_split_toks: "raw_split d acc (pad (toks j) @ us) = raw_split d (rev (pad (toks j)) @ acc) us"
proof (induction j arbitrary: d acc us rule: toks.induct)
  case (5 js)
  then have "raw_split (Suc d) a (pad (sep_by (map toks js)) @ vs)
      = raw_split (Suc d) (rev (pad (sep_by (map toks js))) @ a) vs" for a vs
    by (intro raw_split_inner) auto
  then show ?case by (simp add: opens_def closes_def)
next
  case (6 kvs)
  have "raw_split (Suc d) acc (pad (TStr k # TColon # toks j) @ us)
      = raw_split (Suc d) (rev (pad (TStr k # TColon # toks j)) @ acc) us" if "(k, j) \<in> set kvs" for k j acc us
    using "6.IH" that by (fastforce simp: opens_def closes_def)
  then have "raw_split (Suc d) a (pad (sep_by (map (\<lambda>(k, j). TStr k # TColon # toks j) kvs)) @ vs)
      = raw_split (Suc d) (rev (pad (sep_by (map (\<lambda>(k, j). TStr k # TColon # toks j) kvs))) @ a) vs" for a vs
    by (intro raw_split_inner) auto
  then show ?case by (simp add: opens_def closes_def)
qed (auto simp: opens_def closes_def)

lemma raw_split_members:
  assumes "\<And>x acc us. x \<in> set xs \<Longrightarrow> raw_split 0 acc (pad x @ us) = raw_split 0 (rev (pad x) @ acc) us"
    and "[] \<notin> set xs" and "closes t"
  shows "filter (\<lambda>m. m \<noteq> []) (raw_split 0 [] (pad (sep_by xs @ [t]))) = map pad xs"
proof (cases xs)
  case (Cons x ys)
  have "raw_split 0 (rev (pad x)) (pad (concat (map ((#) TComma) ys) @ [t])) = map pad (x # ys)"
    if "set ys \<subseteq> set xs" for x ys
    using that assms
  proof (induction ys arbitrary: x)
    case (Cons y ys)
    have "raw_split 0 [] (pad y @ pad (concat (map ((#) TComma) ys) @ [t]))
        = raw_split 0 (rev (pad y)) (pad (concat (map ((#) TComma) ys) @ [t]))"
      using Cons.prems by simp
    then show ?case using Cons.IH [of y] Cons.prems by (simp add: closes_def)
  qed simp
  from this [of ys x] have "raw_split 0 [] (pad (sep_by xs @ [t])) = map pad xs"
    using assms(1) [of x "[]"] Cons by (auto simp: sep_by_def)
  moreover have "filter (\<lambda>m. m \<noteq> []) (map pad xs) = map pad xs"
    using assms(2) by (intro filter_True) auto
  ultimately show ?thesis by simp
qed (use assms(3) in \<open>simp add: sep_by_def\<close>)

lemma toks_ne [simp]: "toks j \<noteq> []"
  by (cases j) simp_all

lemma raw_members_arr: "raw_members (pad (toks (JArr js))) = map (\<lambda>j. pad (toks j)) js"
proof -
  have "filter (\<lambda>m. m \<noteq> []) (raw_split 0 [] (pad (sep_by (map toks js) @ [TRBrack]))) = map pad (map toks js)"
    by (intro raw_split_members) (auto simp: closes_def raw_split_toks dest: sym [of "[]"])
  then show ?thesis by (simp add: raw_members_def comp_def)
qed

lemma raw_members_obj:
  "raw_members (pad (toks (JObj kvs))) = map (\<lambda>(k, j). pad (TStr k # TColon # toks j)) kvs"
proof -
  have "raw_split 0 acc (pad (TStr k # TColon # toks j) @ us)
      = raw_split 0 (rev (pad (TStr k # TColon # toks j)) @ acc) us" for acc us k j
    using raw_split_toks [of 0 _ j] by (simp add: opens_def closes_def)
  then have "filter (\<lambda>m. m \<noteq> []) (raw_split 0 [] (pad (sep_by (map (\<lambda>(k, j). TStr k # TColon # toks j) kvs) @ [TRBrace])))
      = map pad (map (\<lambda>(k, j). TStr k # TColon # toks j) kvs)"
    by (intro raw_split_members) (auto simp: closes_def)
  then show ?thesis by (simp add: raw_members_def case_prod_unfold comp_def)
qed

text \<open>The members of a compact object are the compact texts of its members; of equal keys the last
  one stays.\<close>

definition obj_texts :: "(string \<times> json) list \<Rightarrow> (string \<times> raw) list" where
  "obj_texts kvs = fold (\<lambda>(k, j) d. AList.update (unquote k) (json_text j) d) kvs []"

lemma unmarshal_map_text:
  assumes "json_ok 10000 (JObj kvs)"
  shows "unmarshal_map (json_text (JObj kvs)) = Some (obj_texts kvs)"
  using parse_json_text [OF assms] raw_tokens_text [OF assms]
  by (simp add: unmarshal_map_def obj_texts_def raw_members_obj fold_map comp_def case_prod_unfold
      member_key_def raw_text_pad json_text_def del: toks.simps)

lemma unmarshal_slice_text:
  assumes "json_ok 10000 (JArr js)"
  shows "unmarshal_slice (json_text (JArr js)) = Some (map json_text js)"
  using parse_json_text [OF assms] raw_tokens_text [OF assms]
  by (simp add: unmarshal_slice_def raw_members_arr comp_def raw_text_pad json_text_def del: toks.simps)

lemma map_of_obj_texts: "map_of (obj_texts kvs) k = map_option json_text (map_of (map (\<lambda>(k, j). (unquote k, j)) (rev kvs)) k)"
proof -
  have "map_of (fold (\<lambda>(k, j) d. AList.update (unquote k) (json_text j) d) kvs acc) k
      = (case map_of (map (\<lambda>(k, j). (unquote k, j)) (rev kvs)) k of Some j \<Rightarrow> Some (json_text j) | None \<Rightarrow> map_of acc k)" for acc
    by (induction kvs arbitrary: acc) (auto simp: update_conv' map_add_def split: option.splits)
  from this [of "[]"] show ?thesis
    by (cases "map_of (map (\<lambda>(k, j). (unquote k, j)) (rev kvs)) k") (simp_all add: obj_texts_def)
qed

lemma distinct_obj_texts: "distinct (map fst (obj_texts kvs))"
proof -
  have "distinct (map fst acc) \<Longrightarrow> distinct (map fst (fold (\<lambda>(k, j) d. AList.update (unquote k) (json_text j) d) kvs acc))" for acc
    by (induction kvs arbitrary: acc) (auto simp: distinct_update)
  then show ?thesis by (simp add: obj_texts_def)
qed

end
