(* ===== verification/Nop_Dag.thy ===== *)
theory Nop_Dag
  imports Kahn Go_Raw
begin

text \<open>
  Task graphs of NOP: their data types and policies (\<open>nop/models.go\<close>) and their validation
  (\<open>nop/dag_validator.go\<close>), which sorts the nodes topologically.  A raw JSON message is its text.
\<close>

section \<open>Models\<close>

record RetryPolicy =
  rpMaxRetries :: u32
  rpBackoff :: string
  rpInitialDelayMs :: u64
  rpMaxDelayMs :: u64
  rpRetryOn :: "string list"

record DagNode =
  dnID :: string
  dnAction :: string
  dnAgent :: string
  dnInputFrom :: "string list"
  dnInputMapping :: "(string \<times> raw) list"
  dnTimeoutMs :: "u64 option"
  dnRetryPolicy :: "RetryPolicy option"
  dnCondition :: string
  dnMinRequired :: u64
  dnCompensateAction :: string
  dnCompensateParamsMapping :: "(string \<times> raw) list"

record DagEdge =
  deFrom :: string
  deTo :: string

record TaskDag =
  tdNodes :: "DagNode list"
  tdEdges :: "DagEdge list"

definition CompensationRunsOnFailure :: "string \<Rightarrow> bool" where
  "CompensationRunsOnFailure policy \<longleftrightarrow> policy \<in> {''best_effort'', ''strict'', ''on_failure'', ''always''}"

definition CompensationRunsOnSuccess :: "string \<Rightarrow> bool" where
  "CompensationRunsOnSuccess policy \<longleftrightarrow> policy = ''always''"

definition CompensationIsStrict :: "string \<Rightarrow> bool" where
  "CompensationIsStrict policy \<longleftrightarrow> policy = ''strict''"

datatype TaskState = TaskStatePending | TaskStatePreflight | TaskStateRunning | TaskStateWaitingSync
  | TaskStateCompleted | TaskStateFailed | TaskStateCancelled | TaskStateSkipped
  | TaskStateCompensating | TaskStateCompensated

definition task_states :: "(string \<times> TaskState) list" where
  "task_states = [(''pending'', TaskStatePending), (''preflight'', TaskStatePreflight),
     (''running'', TaskStateRunning), (''waiting_sync'', TaskStateWaitingSync),
     (''completed'', TaskStateCompleted), (''failed'', TaskStateFailed),
     (''cancelled'', TaskStateCancelled), (''skipped'', TaskStateSkipped),
     (''compensating'', TaskStateCompensating), (''compensated'', TaskStateCompensated)]"

definition TaskStateFromString :: "string \<Rightarrow> TaskState res" where
  "TaskStateFromString s =
     (case map_of task_states s of
        Some st \<Rightarrow> Inr st | None \<Rightarrow> Inl (ErrPlain (''unknown task state: '' @ s)))"

definition IsTerminal :: "TaskState \<Rightarrow> bool" where
  "IsTerminal s \<longleftrightarrow> s = TaskStateCompleted \<or> s = TaskStateFailed \<or> s = TaskStateCancelled"

text \<open>The legacy delay helper, on signed 64-bit milliseconds.\<close>

datatype BackoffStrategy = BackoffFixed | BackoffLinear | BackoffExponential

definition ComputeDelayMs :: "BackoffStrategy \<Rightarrow> int \<Rightarrow> int \<Rightarrow> nat \<Rightarrow> int" where
  "ComputeDelayMs strategy baseMs maxMs attempt =
     (let raw = (case strategy of
                   BackoffFixed \<Rightarrow> baseMs
                 | BackoffLinear \<Rightarrow> wrap64 (baseMs * int (attempt + 1))
                 | BackoffExponential \<Rightarrow> wrap64 (baseMs * 2 ^ attempt))
      in if raw > maxMs then maxMs else raw)"

section \<open>Validation\<close>

record DagValidationResult =
  dvIsValid :: bool
  dvErrorCode :: string
  dvErrorMessage :: string
  dvTopologicalOrder :: "string list"

definition dagSuccess :: "string list \<Rightarrow> DagValidationResult" where
  "dagSuccess order = \<lparr>dvIsValid = True, dvErrorCode = [], dvErrorMessage = [], dvTopologicalOrder = order\<rparr>"

definition dagFailure :: "string \<Rightarrow> string \<Rightarrow> DagValidationResult" where
  "dagFailure ec msg = \<lparr>dvIsValid = False, dvErrorCode = ec, dvErrorMessage = msg, dvTopologicalOrder = []\<rparr>"

definition MaxDagNodes :: int where
  "MaxDagNodes = 32"

definition MaxConditionLength :: int where
  "MaxConditionLength = 512"

definition quoted_id :: "string \<Rightarrow> string" where
  "quoted_id s = [CHR 0x27] @ s @ [CHR 0x27]"

text \<open>The checks in the order of the code, each with the first offender's message.\<close>

fun check_ids :: "DagNode list \<Rightarrow> string list \<Rightarrow> string option" where
  "check_ids [] nodeIDs = None"
| "check_ids (node # ns) nodeIDs =
     (if dnID node \<in> set nodeIDs then Some (''Duplicate node ID: '' @ quoted_id (dnID node) @ ''.'')
      else check_ids ns (dnID node # nodeIDs))"

fun dag_check_edges :: "DagEdge list \<Rightarrow> string list \<Rightarrow> string option" where
  "dag_check_edges [] nodeIDs = None"
| "dag_check_edges (edge # es) nodeIDs =
     (if deFrom edge \<notin> set nodeIDs
      then Some (''Edge references unknown source node: '' @ quoted_id (deFrom edge) @ ''.'')
      else if deTo edge \<notin> set nodeIDs
      then Some (''Edge references unknown target node: '' @ quoted_id (deTo edge) @ ''.'')
      else dag_check_edges es nodeIDs)"

fun check_inputs :: "DagNode list \<Rightarrow> string list \<Rightarrow> string option" where
  "check_inputs [] nodeIDs = None"
| "check_inputs (node # ns) nodeIDs =
     (case find (\<lambda>upstream. upstream \<notin> set nodeIDs) (dnInputFrom node) of
        Some upstream \<Rightarrow> Some (''Node '' @ quoted_id (dnID node) @ '' references unknown upstream node ''
                               @ quoted_id upstream @ '' in input_from.'')
      | None \<Rightarrow> check_inputs ns nodeIDs)"

definition edge_list :: "DagEdge list \<Rightarrow> (string \<times> string) list" where
  "edge_list es = map (\<lambda>e. (deFrom e, deTo e)) es"

definition adjacency :: "DagEdge list \<Rightarrow> string \<Rightarrow> string list" where
  "adjacency es nid = successors (edge_list es) nid"

definition inDegree :: "DagEdge list \<Rightarrow> string \<Rightarrow> int" where
  "inDegree es nid = int (length (filter (\<lambda>e. deTo e = nid) es))"

definition kahn_sort :: "TaskDag \<Rightarrow> string list" where
  "kahn_sort dag =
     (let ids = map dnID (tdNodes dag);
          remaining = map (\<lambda>id. (id, inDegree (tdEdges dag) id)) ids;
          queue = filter (\<lambda>id. degree remaining id = 0) ids
      in kahn_fifo (adjacency (tdEdges dag)) remaining queue [])"

text \<open>The checks of the validator in their order; the first one that fails is reported.\<close>

fun first_error :: "'e option list \<Rightarrow> 'e option" where
  "first_error [] = None"
| "first_error (Some e # cs) = Some e"
| "first_error (None # cs) = first_error cs"

definition fails :: "bool \<Rightarrow> string \<Rightarrow> string \<Rightarrow> (string \<times> string) option" where
  "fails c ec msg = (if c then Some (ec, msg) else None)"

definition dag_checks :: "TaskDag \<Rightarrow> (string \<times> string) option list" where
  "dag_checks dag =
     (let nodes = tdNodes dag; edges = tdEdges dag; ids = map dnID nodes
      in [fails (nodes = []) ''NOP-TASK-DAG-INVALID'' ''DAG must contain at least one node.'',
          fails (int (length nodes) > MaxDagNodes) ''NOP-TASK-DAG-TOO-LARGE''
            (''DAG contains '' @ dec_int (int (length nodes)) @ '' nodes, exceeding the maximum of ''
             @ dec_int MaxDagNodes @ ''.''),
          map_option (Pair ''NOP-TASK-DAG-INVALID'') (check_ids nodes []),
          map_option (Pair ''NOP-TASK-DAG-INVALID'') (dag_check_edges edges ids),
          map_option (Pair ''NOP-TASK-DAG-INVALID'') (check_inputs nodes ids),
          fails (\<not> list_ex (\<lambda>id. inDegree edges id = 0) ids) ''NOP-TASK-DAG-INVALID''
            ''DAG must have at least one start node (no incoming edges).'',
          fails (\<not> list_ex (\<lambda>id. adjacency edges id = []) ids) ''NOP-TASK-DAG-INVALID''
            ''DAG must have at least one end node (no outgoing edges).'',
          map_option (\<lambda>n. (''NOP-CONDITION-EVAL-ERROR'',
              ''Node '' @ quoted_id (dnID n) @ '' condition expression exceeds ''
              @ dec_int MaxConditionLength @ '' characters.''))
            (find (\<lambda>n. int (length (dnCondition n)) > MaxConditionLength) nodes),
          fails (length (kahn_sort dag) \<noteq> length ids) ''NOP-TASK-DAG-CYCLE'' ''DAG contains a cycle.''])"

definition ValidateDag :: "TaskDag option \<Rightarrow> DagValidationResult" where
  "ValidateDag d =
     (case d of
        None \<Rightarrow> dagFailure ''NOP-TASK-DAG-INVALID'' ''DAG must contain at least one node.''
      | Some dag \<Rightarrow>
          (case first_error (dag_checks dag) of
             Some (ec, msg) \<Rightarrow> dagFailure ec msg
           | None \<Rightarrow> dagSuccess (kahn_sort dag)))"

section \<open>What validation guarantees\<close>

lemma first_error_None: "first_error cs = None \<longleftrightarrow> list_all (\<lambda>c. c = None) cs"
  by (induction cs rule: first_error.induct) auto

lemma first_error_Some: "first_error cs = Some e \<Longrightarrow> Some e \<in> set cs"
  by (induction cs rule: first_error.induct) auto

lemma fails_None: "fails c ec m = None \<longleftrightarrow> \<not> c"
  by (simp add: fails_def)

lemma pred_fails: "pred_option P (fails c ec m) \<longleftrightarrow> (c \<longrightarrow> P (ec, m))"
  by (simp add: fails_def)

lemma check_ids_None: "check_ids ns ids = None \<longleftrightarrow> distinct (map dnID ns) \<and> set ids \<inter> dnID ` set ns = {}"
  by (induction ns arbitrary: ids) auto

lemma dag_check_edges_None:
  "dag_check_edges es ids = None \<longleftrightarrow> fst ` set (edge_list es) \<union> snd ` set (edge_list es) \<subseteq> set ids"
  by (induction es) (auto simp: edge_list_def)

lemma find_case_None:
  "(case find P xs of Some x \<Rightarrow> Some (f x) | None \<Rightarrow> r) = None \<longleftrightarrow> (\<forall>x\<in>set xs. \<not> P x) \<and> r = None"
  by (induction xs) auto

lemma check_inputs_None: "check_inputs ns ids = None \<longleftrightarrow> (\<Union>n\<in>set ns. set (dnInputFrom n)) \<subseteq> set ids"
  by (induction ns) (auto simp: find_case_None)

lemma inDegree_open: "inDegree es v = int (open_edges (edge_list es) {} v)"
  by (simp add: inDegree_def open_edges_def edge_list_def filter_map comp_def)

lemma degree_remaining: "v \<in> set ids \<Longrightarrow> degree (map (\<lambda>id. (id, inDegree es id)) ids) v = inDegree es v"
  by (induction ids) (auto simp: degree_def)

lemma kahn_sort_correct:
  assumes "distinct (map dnID (tdNodes dag))" and "dag_check_edges (tdEdges dag) (map dnID (tdNodes dag)) = None"
  shows "topological (edge_list (tdEdges dag)) (kahn_sort dag)"
    and "set (kahn_sort dag) \<subseteq> dnID ` set (tdNodes dag)"
    and "length (kahn_sort dag) = length (tdNodes dag) \<longleftrightarrow> acyclic (set (edge_list (tdEdges dag)))"
proof -
  let ?es = "edge_list (tdEdges dag)" and ?ids = "map dnID (tdNodes dag)"
  let ?rem = "map (\<lambda>id. (id, inDegree (tdEdges dag) id)) ?ids"
  have "fst ` set ?es \<union> snd ` set ?es \<subseteq> set ?ids" using assms(2) by (simp add: dag_check_edges_None)
  moreover have "mset (adjacency (tdEdges dag) u) = mset (successors ?es u)" for u by (simp add: adjacency_def)
  moreover have "degree ?rem v = int (open_edges ?es {} v)" if "v \<in> set ?ids" for v
    using degree_remaining [OF that] inDegree_open by simp
  ultimately show "topological ?es (kahn_sort dag)" "set (kahn_sort dag) \<subseteq> dnID ` set (tdNodes dag)"
    "length (kahn_sort dag) = length (tdNodes dag) \<longleftrightarrow> acyclic (set ?es)"
    using fifo.sort_correct [of ?es ?ids "adjacency (tdEdges dag)" ?rem] assms(1)
    by (simp_all add: kahn_sort_def Let_def)
qed

text \<open>A finite acyclic graph with a node has a node without predecessor and one without successor.\<close>

lemma acyclic_has_source:
  assumes "acyclic (set es)" and "S \<noteq> {}" and "fst ` set es \<subseteq> S"
  shows "\<exists>v\<in>S. \<forall>u. (u, v) \<notin> set es"
proof -
  have "wf (set es)" using assms(1) by (simp add: finite_acyclic_wf)
  then obtain v where "v \<in> S" "\<And>u. (u, v) \<in> set es \<Longrightarrow> u \<notin> S" using assms(2) by (metis ex_in_conv wfE_min)
  then show ?thesis using assms(3) by force
qed

lemma acyclic_has_sink:
  assumes "acyclic (set es)" and "S \<noteq> {}" and "snd ` set es \<subseteq> S"
  shows "\<exists>v\<in>S. \<forall>u. (v, u) \<notin> set es"
proof -
  have "wf ((set es)\<inverse>)" using assms(1) by (simp add: finite_acyclic_wf_converse)
  then obtain v where "v \<in> S" "\<And>u. (v, u) \<in> set es \<Longrightarrow> u \<notin> S"
    using assms(2) by (metis ex_in_conv wfE_min converse_iff)
  then show ?thesis using assms(3) by force
qed

lemma ValidateDag_facts:
  "dvIsValid (ValidateDag (Some dag)) \<longleftrightarrow> tdNodes dag \<noteq> [] \<and> int (length (tdNodes dag)) \<le> MaxDagNodes
     \<and> check_ids (tdNodes dag) [] = None \<and> dag_check_edges (tdEdges dag) (map dnID (tdNodes dag)) = None
     \<and> check_inputs (tdNodes dag) (map dnID (tdNodes dag)) = None
     \<and> list_ex (\<lambda>id. inDegree (tdEdges dag) id = 0) (map dnID (tdNodes dag))
     \<and> list_ex (\<lambda>id. adjacency (tdEdges dag) id = []) (map dnID (tdNodes dag))
     \<and> find (\<lambda>n. int (length (dnCondition n)) > MaxConditionLength) (tdNodes dag) = None
     \<and> length (kahn_sort dag) = length (tdNodes dag)"
  "dvIsValid (ValidateDag (Some dag)) \<Longrightarrow> dvTopologicalOrder (ValidateDag (Some dag)) = kahn_sort dag"
  "dvIsValid (ValidateDag (Some dag)) \<or> dvErrorCode (ValidateDag (Some dag))
     \<in> {''NOP-TASK-DAG-INVALID'', ''NOP-TASK-DAG-TOO-LARGE'', ''NOP-CONDITION-EVAL-ERROR'', ''NOP-TASK-DAG-CYCLE''}"
proof -
  let ?e = "first_error (dag_checks dag)"
  have valid: "dvIsValid (ValidateDag (Some dag)) \<longleftrightarrow> ?e = None"
    by (auto simp: ValidateDag_def dagFailure_def dagSuccess_def split: option.splits)
  show "dvIsValid (ValidateDag (Some dag)) \<longleftrightarrow> tdNodes dag \<noteq> [] \<and> int (length (tdNodes dag)) \<le> MaxDagNodes
     \<and> check_ids (tdNodes dag) [] = None \<and> dag_check_edges (tdEdges dag) (map dnID (tdNodes dag)) = None
     \<and> check_inputs (tdNodes dag) (map dnID (tdNodes dag)) = None
     \<and> list_ex (\<lambda>id. inDegree (tdEdges dag) id = 0) (map dnID (tdNodes dag))
     \<and> list_ex (\<lambda>id. adjacency (tdEdges dag) id = []) (map dnID (tdNodes dag))
     \<and> find (\<lambda>n. int (length (dnCondition n)) > MaxConditionLength) (tdNodes dag) = None
     \<and> length (kahn_sort dag) = length (tdNodes dag)"
    unfolding valid first_error_None dag_checks_def Let_def
    by (simp add: fails_None not_less)
  show "dvIsValid (ValidateDag (Some dag)) \<Longrightarrow> dvTopologicalOrder (ValidateDag (Some dag)) = kahn_sort dag"
    unfolding valid by (simp add: ValidateDag_def dagSuccess_def)
  have "list_all (pred_option (\<lambda>e. fst e \<in> {''NOP-TASK-DAG-INVALID'', ''NOP-TASK-DAG-TOO-LARGE'',
      ''NOP-CONDITION-EVAL-ERROR'', ''NOP-TASK-DAG-CYCLE''})) (dag_checks dag)"
    by (simp add: dag_checks_def Let_def pred_fails option.pred_map comp_def option.pred_True)
  then show "dvIsValid (ValidateDag (Some dag)) \<or> dvErrorCode (ValidateDag (Some dag))
     \<in> {''NOP-TASK-DAG-INVALID'', ''NOP-TASK-DAG-TOO-LARGE'', ''NOP-CONDITION-EVAL-ERROR'', ''NOP-TASK-DAG-CYCLE''}"
    unfolding valid using first_error_Some [of "dag_checks dag"]
    by (cases ?e) (fastforce simp: ValidateDag_def dagFailure_def list_all_iff)+
qed

lemma acyclic_start_end:
  assumes "acyclic (set (edge_list (tdEdges dag)))" and "tdNodes dag \<noteq> []"
    and "dag_check_edges (tdEdges dag) (map dnID (tdNodes dag)) = None"
  shows "list_ex (\<lambda>id. inDegree (tdEdges dag) id = 0) (map dnID (tdNodes dag))"
    and "list_ex (\<lambda>id. adjacency (tdEdges dag) id = []) (map dnID (tdNodes dag))"
proof -
  let ?es = "edge_list (tdEdges dag)" and ?ids = "map dnID (tdNodes dag)"
  have es: "fst ` set ?es \<subseteq> set ?ids" "snd ` set ?es \<subseteq> set ?ids" "set ?ids \<noteq> {}"
    using assms(2,3) by (simp_all add: dag_check_edges_None)
  show "list_ex (\<lambda>id. inDegree (tdEdges dag) id = 0) ?ids"
    using acyclic_has_source [OF assms(1) es(3,1)]
    by (force simp: list_ex_iff inDegree_open open_edges_0)
  show "list_ex (\<lambda>id. adjacency (tdEdges dag) id = []) ?ids"
    using acyclic_has_sink [OF assms(1) es(3,2)]
    by (force simp: list_ex_iff adjacency_def successors_def filter_empty_conv)
qed

lemma dag_valid_iff:
  "dvIsValid (ValidateDag (Some dag)) \<longleftrightarrow>
     tdNodes dag \<noteq> [] \<and> length (tdNodes dag) \<le> 32 \<and> distinct (map dnID (tdNodes dag))
   \<and> dag_check_edges (tdEdges dag) (map dnID (tdNodes dag)) = None
   \<and> check_inputs (tdNodes dag) (map dnID (tdNodes dag)) = None
   \<and> find (\<lambda>n. int (length (dnCondition n)) > MaxConditionLength) (tdNodes dag) = None
   \<and> acyclic (set (edge_list (tdEdges dag)))" (is "?valid \<longleftrightarrow> ?ok")
proof
  assume ?valid
  then show ?ok
    using kahn_sort_correct(3) [of dag]
    unfolding ValidateDag_facts(1) by (simp add: check_ids_None MaxDagNodes_def)
next
  assume ?ok
  then show ?valid
    using acyclic_start_end [of dag] kahn_sort_correct(3) [of dag]
    unfolding ValidateDag_facts(1) by (simp add: check_ids_None MaxDagNodes_def)
qed

lemma dag_order:
  assumes "dvIsValid (ValidateDag (Some dag))"
  shows "mset (dvTopologicalOrder (ValidateDag (Some dag))) = mset (map dnID (tdNodes dag))"
    and "topological (edge_list (tdEdges dag)) (dvTopologicalOrder (ValidateDag (Some dag)))"
proof -
  let ?ids = "map dnID (tdNodes dag)"
  have d: "distinct ?ids" "dag_check_edges (tdEdges dag) ?ids = None" "length (kahn_sort dag) = length (tdNodes dag)"
    using assms ValidateDag_facts(1) [of dag] by (auto simp: check_ids_None)
  note k = kahn_sort_correct [OF d(1,2)]
  have dk: "distinct (kahn_sort dag)" using k(1) by (simp add: topological_def)
  have "set (kahn_sort dag) = set ?ids"
  proof (rule card_subset_eq)
    show "card (set (kahn_sort dag)) = card (set ?ids)"
      using distinct_card [OF dk] distinct_card [OF d(1)] d(3) by simp
  qed (use k(2) in simp_all)
  then have "mset (kahn_sort dag) = mset ?ids" using d(1) dk set_eq_iff_mset_eq_distinct by blast
  then show "mset (dvTopologicalOrder (ValidateDag (Some dag))) = mset ?ids"
    and "topological (edge_list (tdEdges dag)) (dvTopologicalOrder (ValidateDag (Some dag)))"
    using ValidateDag_facts(2) [OF assms] k(1) by simp_all
qed

text \<open>C1: Which task graphs are accepted, and in what order.  A graph is valid exactly when it has
  between 1 and 32 nodes with different identifiers, its edges and inputs name nodes of the graph, no
  condition is longer than 512 bytes and the edges have no cycle.  The order returned for a valid
  graph lists every node once, each after all its predecessors.  A graph that fails only by a cycle is
  reported as cyclic, unless the cycles leave no node without incoming or without outgoing edges.\<close>

theorem dag_validation:
  "(dvIsValid (ValidateDag (Some dag)) \<longleftrightarrow>
      0 < length (tdNodes dag) \<and> length (tdNodes dag) \<le> 32 \<and> distinct (map dnID (tdNodes dag))
    \<and> (\<lambda>e. deFrom e) ` set (tdEdges dag) \<union> (\<lambda>e. deTo e) ` set (tdEdges dag) \<subseteq> dnID ` set (tdNodes dag)
    \<and> (\<Union>n\<in>set (tdNodes dag). set (dnInputFrom n)) \<subseteq> dnID ` set (tdNodes dag)
    \<and> (\<lambda>n. length (dnCondition n)) ` set (tdNodes dag) \<subseteq> {..512}
    \<and> acyclic (set (edge_list (tdEdges dag))))
   \<and> (if dvIsValid (ValidateDag (Some dag))
      then mset (dvTopologicalOrder (ValidateDag (Some dag))) = mset (map dnID (tdNodes dag))
         \<and> topological (edge_list (tdEdges dag)) (dvTopologicalOrder (ValidateDag (Some dag)))
      else dvErrorCode (ValidateDag (Some dag))
         \<in> {''NOP-TASK-DAG-INVALID'', ''NOP-TASK-DAG-TOO-LARGE'', ''NOP-CONDITION-EVAL-ERROR'', ''NOP-TASK-DAG-CYCLE''})"
proof (rule conjI)
  have "(\<lambda>e. deFrom e) ` set (tdEdges dag) \<union> (\<lambda>e. deTo e) ` set (tdEdges dag) \<subseteq> dnID ` set (tdNodes dag)
      \<longleftrightarrow> dag_check_edges (tdEdges dag) (map dnID (tdNodes dag)) = None"
    by (simp add: dag_check_edges_None edge_list_def image_comp comp_def)
  moreover have "(\<lambda>n. length (dnCondition n)) ` set (tdNodes dag) \<subseteq> {..512}
      \<longleftrightarrow> find (\<lambda>n. int (length (dnCondition n)) > MaxConditionLength) (tdNodes dag) = None"
    by (auto simp: find_None_iff MaxConditionLength_def not_less)
  ultimately show "dvIsValid (ValidateDag (Some dag)) \<longleftrightarrow>
      0 < length (tdNodes dag) \<and> length (tdNodes dag) \<le> 32 \<and> distinct (map dnID (tdNodes dag))
    \<and> (\<lambda>e. deFrom e) ` set (tdEdges dag) \<union> (\<lambda>e. deTo e) ` set (tdEdges dag) \<subseteq> dnID ` set (tdNodes dag)
    \<and> (\<Union>n\<in>set (tdNodes dag). set (dnInputFrom n)) \<subseteq> dnID ` set (tdNodes dag)
    \<and> (\<lambda>n. length (dnCondition n)) ` set (tdNodes dag) \<subseteq> {..512}
    \<and> acyclic (set (edge_list (tdEdges dag)))"
    by (simp only: dag_valid_iff check_inputs_None set_map length_greater_0_conv)
next
  show "if dvIsValid (ValidateDag (Some dag))
      then mset (dvTopologicalOrder (ValidateDag (Some dag))) = mset (map dnID (tdNodes dag))
         \<and> topological (edge_list (tdEdges dag)) (dvTopologicalOrder (ValidateDag (Some dag)))
      else dvErrorCode (ValidateDag (Some dag))
         \<in> {''NOP-TASK-DAG-INVALID'', ''NOP-TASK-DAG-TOO-LARGE'', ''NOP-CONDITION-EVAL-ERROR'', ''NOP-TASK-DAG-CYCLE''}"
    using dag_order [of dag] ValidateDag_facts(3) [of dag] by (cases "dvIsValid (ValidateDag (Some dag))") simp_all
qed

text \<open>The legacy retry delay.  As long as the product does not overflow, the delay is the base, its
  multiple by the attempt or by the power of two, capped at the maximum.  Past that it is not: the
  product wraps around, and a large attempt gets no delay, or a negative one, instead of the maximum.\<close>

theorem retry_delay:
  "(\<bar>baseMs * 2 ^ attempt\<bar> < 2 ^ 63 \<longrightarrow>
      ComputeDelayMs BackoffExponential baseMs maxMs attempt = min (baseMs * 2 ^ attempt) maxMs)
   \<and> (\<bar>baseMs * int (attempt + 1)\<bar> < 2 ^ 63 \<longrightarrow>
      ComputeDelayMs BackoffLinear baseMs maxMs attempt = min (baseMs * int (attempt + 1)) maxMs)
   \<and> ComputeDelayMs BackoffFixed baseMs maxMs attempt = min baseMs maxMs
   \<and> ComputeDelayMs BackoffExponential 1000 30000 64 = 0
   \<and> ComputeDelayMs BackoffExponential 1000 30000 60 < 0"
proof -
  have "wrap64 i = i" if "\<bar>i\<bar> < 2 ^ 63" for i using that by (intro wrap64_id) auto
  moreover have "ComputeDelayMs BackoffExponential 1000 30000 64 = 0"
    "ComputeDelayMs BackoffExponential 1000 30000 60 < 0"
    by code_simp+
  ultimately show ?thesis by (auto simp: ComputeDelayMs_def Let_def min_def)
qed

theorem retry_delay_witness:
  "ComputeDelayMs BackoffExponential 1000 30000 3 = 8000 \<and> ComputeDelayMs BackoffLinear 1000 30000 3 = 4000"
  using retry_delay [of 1000 3 30000] by simp

end
