(* ===== verification/Nop_Input.thy ===== *)
theory Nop_Input
  imports Go_Raw
begin

text \<open>
  Parameters and results of a task graph: resolving paths into the results of upstream nodes and
  building the parameters of a node from them (\<open>nop/input_mapper.go\<close>), and combining the results
  of the end nodes (\<open>nop/result_aggregator.go\<close>).  A context maps node identifiers to raw messages.
  The mapping of a node is a Go map, whose entries the code visits in no fixed order; here they are
  visited in the order of the list, which decides only which of several errors is reported.
\<close>

type_synonym context_map = "(string \<times> raw) list"

section \<open>Input mapping\<close>

definition MaxInputMappingDepth :: int where
  "MaxInputMappingDepth = 8"

definition newMappingError :: "string \<Rightarrow> nps_error" where
  "newMappingError msg = ErrCode ''NOP-INPUT-MAPPING-ERROR'' msg"

definition path_parts :: "string \<Rightarrow> string list" where
  "path_parts path = filter (\<lambda>p. p \<noteq> []) (split_on (CHR ''.'') path)"

fun descend :: "raw \<Rightarrow> string list \<Rightarrow> raw" where
  "descend current [] = current"
| "descend current (p # ps) =
     (case unmarshal_map current of
        None \<Rightarrow> []
      | Some obj \<Rightarrow> (case map_of obj p of None \<Rightarrow> [] | Some nxt \<Rightarrow> descend nxt ps))"

definition ResolvePath :: "string \<Rightarrow> context_map \<Rightarrow> raw res" where
  "ResolvePath path context =
     (if TrimSpace path = [] then Inl (newMappingError ''Input mapping path must not be empty.'')
      else if \<not> has_prefix path ''$.''
      then Inl (newMappingError (''Input mapping path must start with '' @ [CHR 0x27] @ ''$.'' @ [CHR 0x27] @ '' ''
                 @ [CHR 0xE2, CHR 0x80, CHR 0x94] @ '' got: '' @ path))
      else let parts = path_parts path; n = int (length parts)
           in if n > MaxInputMappingDepth + 1
              then Inl (newMappingError (''Input mapping path depth '' @ dec_int (n - 1) @ '' exceeds maximum ''
                         @ dec_int MaxInputMappingDepth @ '': '' @ path))
              else case parts of
                _ # nodeID # rest \<Rightarrow>
                  (case map_of context nodeID of None \<Rightarrow> Inr [] | Some nodeResult \<Rightarrow> Inr (descend nodeResult rest))
              | _ \<Rightarrow>
                  (case marshal_map context of
                     Inl e \<Rightarrow> Inl (newMappingError ''failed to serialize context: json'')
                   | Inr out \<Rightarrow> Inr out))"

definition jsonOrNull :: "raw \<Rightarrow> raw" where
  "jsonOrNull r = (if r = [] then ''null'' else r)"

text \<open>One entry of a mapping: a path, an array of paths and literals, or a literal.\<close>

definition resolve_item :: "context_map \<Rightarrow> raw \<Rightarrow> raw res" where
  "resolve_item context p =
     (case unmarshal_string p of
        Some ps \<Rightarrow> bindr (ResolvePath ps context) (\<lambda>r. Inr (jsonOrNull r))
      | None \<Rightarrow> Inr p)"

definition resolve_entry :: "context_map \<Rightarrow> raw \<Rightarrow> raw res" where
  "resolve_entry context pathElement =
     (case unmarshal_string pathElement of
        Some s \<Rightarrow> bindr (ResolvePath s context) (\<lambda>r. Inr (jsonOrNull r))
      | None \<Rightarrow>
          (case unmarshal_slice pathElement of
             Some arr \<Rightarrow> bindr (all_res (map (resolve_item context) arr)) (\<lambda>list. Inr (or_nil (marshal_slice list)))
           | None \<Rightarrow> Inr pathElement))"

definition BuildParams :: "(string \<times> raw) list \<Rightarrow> context_map \<Rightarrow> raw res" where
  "BuildParams inputMapping context =
     (if inputMapping = [] then Inr ''{}''
      else bindr (all_res (map (\<lambda>(paramName, pathElement).
                    bindr (resolve_entry context pathElement) (\<lambda>r. Inr (paramName, r))) inputMapping))
             (\<lambda>result.
               case marshal_map result of
                 Inl e \<Rightarrow> Inl (newMappingError ''failed to encode params: json'')
               | Inr out \<Rightarrow> Inr out))"

section \<open>Aggregation\<close>

text \<open>Errors of \<open>json.Marshal\<close> are dropped, as in the code; the result is then the nil message.\<close>

fun merge_from :: "int \<Rightarrow> raw list \<Rightarrow> (string \<times> raw) list \<Rightarrow> (string \<times> raw) list" where
  "merge_from i [] merged = merged"
| "merge_from i (r # rs) merged =
     merge_from (i + 1) rs
       (case unmarshal_map r of
          Some obj \<Rightarrow> fold (\<lambda>(k, v) m. AList.update k v m) obj merged
        | None \<Rightarrow> AList.update (''_result_'' @ dec_int i) r merged)"

definition mergeResults :: "raw list \<Rightarrow> raw" where
  "mergeResults results = or_nil (marshal_map (merge_from 0 results []))"

definition buildArray :: "raw list \<Rightarrow> raw" where
  "buildArray results = or_nil (marshal_slice results)"

definition Aggregate :: "string \<Rightarrow> raw list \<Rightarrow> int \<Rightarrow> raw" where
  "Aggregate strategy results minRequired =
     (if results = [] then ''{}''
      else if strategy = ''first'' then hd results
      else if strategy = ''all'' then buildArray results
      else if strategy = ''fastest_k''
      then (let n = int (length results); k = (if minRequired \<le> 0 \<or> minRequired > n then n else minRequired)
            in buildArray (take (nat k) results))
      else mergeResults results)"

definition AggregateEndNodes :: "string list \<Rightarrow> context_map \<Rightarrow> string \<Rightarrow> raw" where
  "AggregateEndNodes endNodeIDs allResults strategy =
     Aggregate strategy (List.map_filter (map_of allResults) endNodeIDs) 0"

section \<open>Paths and trees\<close>

fun jpath :: "json \<Rightarrow> string list \<Rightarrow> json option" where
  "jpath j [] = Some j"
| "jpath (JObj kvs) (p # ps) =
     (case map_of (map (\<lambda>(k, j). (unquote k, j)) (rev kvs)) p of None \<Rightarrow> None | Some j \<Rightarrow> jpath j ps)"
| "jpath _ (p # ps) = None"

lemma json_ok_member: "json_ok d (JObj kvs) \<Longrightarrow> (k, j) \<in> set kvs \<Longrightarrow> json_ok d j"
  by (fastforce simp: list_all_iff intro: json_ok_mono [of "d - 1"])

lemma unmarshal_map_not_obj:
  "json_ok 10000 j \<Longrightarrow> (\<And>kvs. j \<noteq> JObj kvs) \<Longrightarrow> unmarshal_map (json_text j) \<in> {None, Some []}"
  by (cases j) (auto simp: unmarshal_map_def parse_json_text)

lemma descend_text:
  "json_ok 10000 j \<Longrightarrow> descend (json_text j) ps = (case jpath j ps of None \<Rightarrow> [] | Some j' \<Rightarrow> json_text j')"
proof (induction j ps rule: jpath.induct)
  case (2 kvs p ps)
  show ?case
  proof (cases "map_of (map (\<lambda>(k, j). (unquote k, j)) (rev kvs)) p")
    case (Some j)
    then obtain k where "(k, j) \<in> set kvs" by (auto dest!: map_of_SomeD)
    then have "json_ok 10000 j" using json_ok_member 2 by blast
    then show ?thesis using Some 2 by (simp add: unmarshal_map_text map_of_obj_texts del: json_ok.simps)
  qed (use 2 in \<open>simp add: unmarshal_map_text map_of_obj_texts del: json_ok.simps\<close>)
qed (use unmarshal_map_not_obj in \<open>force simp del: json_ok.simps\<close>)+

lemma split_on_join:
  "ps \<noteq> [] \<Longrightarrow> list_all (\<lambda>p. c \<notin> set p) ps \<Longrightarrow> split_on c (join_with [c] ps) = ps"
proof (induction ps rule: induct_list012)
  case (3 p q ps)
  then show ?case by (simp add: split_on_append split_on_fresh)
qed (simp_all add: split_on_fresh)

lemma trim_left_keeps: "c \<in> set s \<Longrightarrow> list_all (\<lambda>p. c \<notin> set p) ps \<Longrightarrow> c \<in> set (trim_left_by ps s)"
proof (induction ps s rule: trim_left_by.induct)
  case (1 ps s)
  have "c \<notin> set (take (space_len ps s) s)" using 1(3)
    by (induction ps) (auto simp: has_prefix_def)
  then have "c \<in> set (drop (space_len ps s) s)"
    using 1(2) by (metis Un_iff append_take_drop_id set_append)
  then show ?case using 1 by (subst trim_left_by.simps) auto
qed

lemma TrimSpace_dollar: "TrimSpace (CHR ''$'' # s) \<noteq> []"
proof -
  have "list_all (\<lambda>p. CHR ''$'' \<notin> set p) utf8_spaces" "list_all (\<lambda>p. CHR ''$'' \<notin> set p) (map rev utf8_spaces)"
    by code_simp+
  then have "CHR ''$'' \<in> set (TrimSpace (CHR ''$'' # s))"
    unfolding TrimSpace_def by (simp add: trim_left_keeps)
  then show ?thesis by auto
qed

definition path_of :: "string list \<Rightarrow> string" where
  "path_of names = ''$.'' @ join_with ''.'' names"

definition path_name :: "string \<Rightarrow> bool" where
  "path_name p \<longleftrightarrow> p \<noteq> [] \<and> CHR ''.'' \<notin> set p"

definition texts :: "(string \<times> json) list \<Rightarrow> context_map" where
  "texts results = map (\<lambda>(k, j). (k, json_text j)) results"

lemma path_parts_of: "names \<noteq> [] \<Longrightarrow> list_all path_name names \<Longrightarrow> path_parts (path_of names) = ''$'' # names"
proof -
  assume n: "names \<noteq> []" "list_all path_name names"
  have "split_on (CHR ''.'') (path_of names) = ''$'' # split_on (CHR ''.'') (join_with ''.'' names)"
    using split_on_append [of "CHR ''.''" "''$''"] by (simp add: path_of_def)
  also have "split_on (CHR ''.'') (join_with ''.'' names) = names"
    using n by (intro split_on_join) (auto simp: path_name_def list_all_iff)
  finally show ?thesis using n by (auto simp: path_parts_def path_name_def list_all_iff)
qed

lemma map_of_texts: "map_of (texts results) k = map_option json_text (map_of results k)"
  by (induction results) (auto simp: texts_def)

text \<open>Resolving a path.  Against results in compact JSON form, the path \<open>$.node.f1.f2\<close> is the text of
  the value that the members \<open>f1\<close>, \<open>f2\<close> lead to in the tree of that node's result, and the nil
  message where a member is missing or the value is no object; a path of more than eight names is
  refused, whatever the results are.\<close>

theorem resolve_path_navigates:
  assumes "list_all (\<lambda>(k, j). json_ok 10000 j) results" and "list_all path_name (nodeID # members)"
  shows "ResolvePath (path_of (nodeID # members)) (texts results) =
     (if length members < 8
      then Inr (case map_of results nodeID of
                  None \<Rightarrow> []
                | Some j \<Rightarrow> (case jpath j members of None \<Rightarrow> [] | Some j' \<Rightarrow> json_text j'))
      else Inl (ErrCode ''NOP-INPUT-MAPPING-ERROR''
             (''Input mapping path depth '' @ dec_int (int (length members) + 1) @ '' exceeds maximum 8: ''
              @ path_of (nodeID # members))))"
proof -
  have "TrimSpace (path_of (nodeID # members)) \<noteq> []" "has_prefix (path_of (nodeID # members)) ''$.''"
    by (simp_all add: path_of_def TrimSpace_dollar has_prefix_def)
  moreover have "json_ok 10000 j" if "map_of results nodeID = Some j" for j
    using assms(1) map_of_SomeD [OF that] by (auto simp: list_all_iff)
  moreover have "dec_int 8 = ''8''" by code_simp
  ultimately show ?thesis
    using path_parts_of [of "nodeID # members"] assms(2)
    by (auto simp: ResolvePath_def MaxInputMappingDepth_def map_of_texts descend_text newMappingError_def
        add.commute [of 1] split: option.splits)
qed

theorem resolve_path_navigates_witness:
  "ResolvePath ''$.a.x'' [(''a'', [CHR ''{'', CHR 0x22, CHR ''x'', CHR 0x22, CHR '':'', CHR ''1'', CHR ''}''])] = Inr ''1''"
  using resolve_path_navigates [of "[(''a'', JObj [(''x'', JNum ''1'')])]" "''a''" "[''x'']"]
  by (simp add: path_of_def path_name_def texts_def json_text_def sep_by_def str_lit_def num_lit_def unquote.simps
      scan_num_def scan_sign_def scan_int_def scan_frac_def scan_exp_def is_digit_def)

end
