(* ===== verification/Nop_Condition.thy ===== *)
theory Nop_Condition
  imports Nop_Input
begin

text \<open>
  The condition language of task nodes (\<open>nop/condition_evaluator.go\<close>): its tokenizer, the recursive
  descent parser that evaluates while it parses, and the comparison of values.  A panic of the code,
  which \<open>EvaluateCondition\<close> recovers, is an error value.  The parser's calls are bounded by fuel;
  \<open>parse_total\<close> shows that six units per token and five more are enough for every input.
\<close>

section \<open>Tokens\<close>

datatype condition_error = ConditionError string string

definition condition_error_text :: "condition_error \<Rightarrow> string" where
  "condition_error_text e =
     (case e of ConditionError msg expr \<Rightarrow>
        msg @ ''  Expression: '' @ [CHR 0xC2, CHR 0xAB] @ expr @ [CHR 0xC2, CHR 0xBB])"

datatype tokenKind = tkDollarPath | tkNumber | tkString | tkTrue | tkFalse | tkNull
  | tkGt | tkGte | tkLt | tkLte | tkEq | tkNeq | tkAnd | tkOr | tkNot | tkLParen | tkRParen | tkEof

type_synonym condToken = "tokenKind \<times> string"

definition isAlnum :: "char \<Rightarrow> bool" where
  "isAlnum c \<longleftrightarrow> is_digit c \<or> in_range 97 122 c \<or> in_range 65 90 c"

text \<open>\<open>unicode.IsSpace\<close> and \<open>unicode.IsLetter\<close> on one byte, read as a Latin-1 rune.\<close>

definition latin1_space :: "char \<Rightarrow> bool" where
  "latin1_space c \<longleftrightarrow> in_range 0x09 0x0D c \<or> c = CHR 0x20 \<or> c = CHR 0x85 \<or> c = CHR 0xA0"

definition latin1_letter :: "char \<Rightarrow> bool" where
  "latin1_letter c \<longleftrightarrow> in_range 97 122 c \<or> in_range 65 90 c \<or> c = CHR 0xAA \<or> c = CHR 0xB5 \<or> c = CHR 0xBA
     \<or> (in_range 0xC0 0xFF c \<and> c \<noteq> CHR 0xD7 \<and> c \<noteq> CHR 0xF7)"

definition path_char :: "char \<Rightarrow> bool" where
  "path_char c \<longleftrightarrow> isAlnum c \<or> c = CHR ''_'' \<or> c = CHR ''.'' \<or> c = CHR ''$''"

definition number_char :: "char \<Rightarrow> bool" where
  "number_char c \<longleftrightarrow> is_digit c \<or> c = CHR ''.''"

definition next_is :: "char \<Rightarrow> string \<Rightarrow> bool" where
  "next_is c s \<longleftrightarrow> (case s of x # _ \<Rightarrow> x = c | [] \<Rightarrow> False)"

definition operator2 :: "char \<Rightarrow> string \<Rightarrow> condToken option" where
  "operator2 c r =
     (if c = CHR ''>'' \<and> next_is (CHR ''='') r then Some (tkGte, ''>='')
      else if c = CHR ''<'' \<and> next_is (CHR ''='') r then Some (tkLte, ''<='')
      else if c = CHR ''='' \<and> next_is (CHR ''='') r then Some (tkEq, ''=='')
      else if c = CHR ''!'' \<and> next_is (CHR ''='') r then Some (tkNeq, ''!='')
      else if c = CHR ''&'' \<and> next_is (CHR ''&'') r then Some (tkAnd, ''&&'')
      else if c = CHR ''|'' \<and> next_is (CHR ''|'') r then Some (tkOr, ''||'')
      else None)"

definition operator1 :: "char \<Rightarrow> condToken option" where
  "operator1 c =
     (if c = CHR ''>'' then Some (tkGt, ''>'')
      else if c = CHR ''<'' then Some (tkLt, ''<'')
      else if c = CHR ''!'' then Some (tkNot, ''!'')
      else if c = CHR ''('' then Some (tkLParen, ''('')
      else if c = CHR '')'' then Some (tkRParen, '')'')
      else None)"

definition keyword :: "string \<Rightarrow> condToken option" where
  "keyword kw =
     (if kw = ''true'' then Some (tkTrue, kw) else if kw = ''false'' then Some (tkFalse, kw)
      else if kw = ''null'' then Some (tkNull, kw) else None)"

definition emit :: "condToken \<Rightarrow> condition_error + condToken list \<Rightarrow> condition_error + condToken list" where
  "emit t r = (case r of Inl e \<Rightarrow> Inl e | Inr ts \<Rightarrow> Inr (t # ts))"

text \<open>One token from a non-empty text: the token (none for white space) and the rest.\<close>

definition number_lexeme :: "string \<Rightarrow> string \<times> string" where
  "number_lexeme s =
     (case s of
        c # r \<Rightarrow> if c = CHR ''-'' then (c # takeWhile number_char r, dropWhile number_char r)
                 else (takeWhile number_char s, dropWhile number_char s)
      | [] \<Rightarrow> ([], []))"

definition cond_next :: "string \<Rightarrow> string \<Rightarrow> condition_error + condToken option \<times> string" where
  "cond_next input s =
     (let c = hd s; r = tl s
      in if latin1_space c then Inr (None, r)
         else if c = CHR ''$'' \<and> next_is (CHR ''.'') r
         then Inr (Some (tkDollarPath, takeWhile path_char s), dropWhile path_char s)
         else if c = CHR 0x22
         then Inr (Some (tkString, takeWhile (\<lambda>x. x \<noteq> CHR 0x22) r), drop 1 (dropWhile (\<lambda>x. x \<noteq> CHR 0x22) r))
         else if is_digit c \<or> (c = CHR ''-'' \<and> r \<noteq> [] \<and> is_digit (hd r))
         then Inr (Some (tkNumber, fst (number_lexeme s)), snd (number_lexeme s))
         else case operator2 c r of
           Some t \<Rightarrow> Inr (Some t, drop 2 s)
         | None \<Rightarrow>
             (case operator1 c of
                Some t \<Rightarrow> Inr (Some t, r)
              | None \<Rightarrow>
                  if latin1_letter c then
                    (case keyword (takeWhile isAlnum s) of
                       Some t \<Rightarrow> Inr (Some t, dropWhile isAlnum s)
                     | None \<Rightarrow> Inl (ConditionError (''Unknown token '' @ [CHR 0x27] @ takeWhile isAlnum s @ [CHR 0x27] @ ''.'') input))
                  else Inl (ConditionError
                         (''Unexpected character '' @ [CHR 0x27] @ utf8_encode (code c) @ [CHR 0x27] @ '' at position ''
                          @ dec_int (int (length input) - int (length s)) @ ''.'') input)))"

lemma keyword_ne: "keyword kw = Some t \<Longrightarrow> kw \<noteq> []"
  by (auto simp: keyword_def split: if_splits)

lemma cond_next_shorter:
  assumes "s \<noteq> []" and "cond_next input s = Inr (t, r)"
  shows "length r < length s"
proof -
  obtain c s' where s: "s = c # s'" using assms(1) by (cases s) auto
  have le: "length (dropWhile p s') < length s" for p using length_dropWhile_le [of p s'] by (simp add: s)
  have path: "length (dropWhile path_char s) < length s" if "c = CHR ''$''"
    using le [of path_char] that by (simp add: s path_char_def)
  have num: "length (snd (number_lexeme s)) < length s" if "is_digit c \<or> c = CHR ''-''"
    using le [of number_char] that by (auto simp: s number_lexeme_def number_char_def)
  have kw: "length (dropWhile isAlnum s) < length s" if "keyword (takeWhile isAlnum s) = Some t" for t
    using keyword_ne [OF that] le [of isAlnum] by (cases "isAlnum c") (simp_all add: s)
  show ?thesis
    using assms(2) path num kw le [of "\<lambda>x. x \<noteq> CHR 0x22"]
    by (auto simp: cond_next_def Let_def s split: if_splits option.splits)
qed

function tokenize_from :: "string \<Rightarrow> string \<Rightarrow> condition_error + condToken list" where
  "tokenize_from input s =
     (if s = [] then Inr [(tkEof, [])]
      else case cond_next input s of
        Inl e \<Rightarrow> Inl e
      | Inr (t, r) \<Rightarrow> (case t of None \<Rightarrow> tokenize_from input r | Some t \<Rightarrow> emit t (tokenize_from input r)))"
  by pat_completeness auto
termination
  by (relation "measure (\<lambda>(input, s). length s)") (auto dest: cond_next_shorter)

declare tokenize_from.simps [simp del]

definition tokenizeCondition :: "string \<Rightarrow> condition_error + condToken list" where
  "tokenizeCondition input = tokenize_from input input"

section \<open>Values\<close>

datatype condValue = VNil | VBool bool | VNum f64 | VStr string

text \<open>\<open>strconv.ParseFloat\<close> on a number token, which is made of digits and dots after an optional sign.\<close>

definition parse_number :: "string \<Rightarrow> f64 option" where
  "parse_number raw =
     (case scan_sign raw of (g, s) \<Rightarrow>
      let i = takeWhile is_digit s; r = dropWhile is_digit s; f = drop 1 r
      in if i @ f = [] \<or> (r \<noteq> [] \<and> hd r \<noteq> CHR ''.'') \<or> \<not> list_all is_digit f then None
         else let x = f64_of_ratio (g \<noteq> []) (int_digits 0 (i @ f)) (10 ^ length f)
              in if f64_isinf x then None else Some x)"

definition nps_error_text :: "nps_error \<Rightarrow> string" where
  "nps_error_text e = (case e of ErrCode ec msg \<Rightarrow> msg | ErrPlain msg \<Rightarrow> msg | _ \<Rightarrow> [])"

definition cond_resolvePath :: "context_map \<Rightarrow> string \<Rightarrow> condition_error + condValue" where
  "cond_resolvePath context path =
     (case ResolvePath path context of
        Inl e \<Rightarrow> Inl (ConditionError (nps_error_text e) path)
      | Inr raw \<Rightarrow>
          Inr (if raw = [] then VNil
               else case unmarshal_any raw of
                 Inl e \<Rightarrow> VStr raw
               | Inr GNil \<Rightarrow> VNil
               | Inr (GBool t) \<Rightarrow> VBool t
               | Inr (GF64 t) \<Rightarrow> VNum t
               | Inr (GStr t) \<Rightarrow> VStr t
               | Inr _ \<Rightarrow> VStr raw))"

fun asTruthy :: "condValue \<Rightarrow> bool" where
  "asTruthy (VBool t) = t"
| "asTruthy (VNum t) = (\<not> f64_eq t 0)"
| "asTruthy (VStr t) = (t \<noteq> [])"
| "asTruthy VNil = False"

fun valuesEqual :: "condValue \<Rightarrow> condValue \<Rightarrow> bool" where
  "valuesEqual VNil VNil = True"
| "valuesEqual (VBool a) (VBool b) = (a = b)"
| "valuesEqual (VNum a) (VNum b) = f64_eq a b"
| "valuesEqual (VStr a) (VStr b) = (a = b)"
| "valuesEqual _ _ = False"

definition compareValues :: "condValue \<Rightarrow> tokenKind \<Rightarrow> condValue \<Rightarrow> bool" where
  "compareValues lhs opk rhs =
     (if opk = tkEq then valuesEqual lhs rhs
      else if opk = tkNeq then \<not> valuesEqual lhs rhs
      else case (lhs, rhs) of
        (VNum ld, VNum rd) \<Rightarrow>
          (case opk of tkGt \<Rightarrow> f64_less rd ld | tkGte \<Rightarrow> f64_le rd ld | tkLt \<Rightarrow> f64_less ld rd
           | tkLte \<Rightarrow> f64_le ld rd | _ \<Rightarrow> False)
      | (VStr ls, VStr rs) \<Rightarrow>
          (case opk of tkGt \<Rightarrow> rs < ls | tkGte \<Rightarrow> rs \<le> ls | tkLt \<Rightarrow> ls < rs | tkLte \<Rightarrow> ls \<le> rs | _ \<Rightarrow> False)
      | _ \<Rightarrow> False)"

definition isComparisonOp :: "tokenKind \<Rightarrow> bool" where
  "isComparisonOp k \<longleftrightarrow> k \<in> {tkGt, tkGte, tkLt, tkLte, tkEq, tkNeq}"

section \<open>The parser\<close>

text \<open>Every operation returns its value and the tokens left, or the error of a panic; without fuel it
  returns nothing.  The token list ends with \<open>tkEof\<close>, which no operation passes without an error, so
  that reading past the end is the same as reading \<open>tkEof\<close>.\<close>

type_synonym 'a parse = "(condition_error + 'a \<times> condToken list) option"

definition pbind :: "'a parse \<Rightarrow> ('a \<Rightarrow> condToken list \<Rightarrow> 'b parse) \<Rightarrow> 'b parse" where
  "pbind m k = (case m of None \<Rightarrow> None | Some (Inl e) \<Rightarrow> Some (Inl e) | Some (Inr (x, ts)) \<Rightarrow> k x ts)"

abbreviation preturn :: "'a \<Rightarrow> condToken list \<Rightarrow> 'a parse" where
  "preturn x ts \<equiv> Some (Inr (x, ts))"

definition current :: "condToken list \<Rightarrow> condToken" where
  "current ts = (case ts of t # _ \<Rightarrow> t | [] \<Rightarrow> (tkEof, []))"

definition token_value :: "context_map \<Rightarrow> condToken \<Rightarrow> condition_error + condValue" where
  "token_value context t =
     (case t of (k, raw) \<Rightarrow>
        (case k of
           tkDollarPath \<Rightarrow> cond_resolvePath context raw
         | tkNumber \<Rightarrow>
             (case parse_number raw of
                None \<Rightarrow> Inl (ConditionError (''Invalid number '' @ [CHR 0x27] @ raw @ [CHR 0x27] @ ''.'') [])
              | Some f \<Rightarrow> Inr (VNum f))
         | tkString \<Rightarrow> Inr (VStr raw)
         | tkTrue \<Rightarrow> Inr (VBool True)
         | tkFalse \<Rightarrow> Inr (VBool False)
         | tkNull \<Rightarrow> Inr VNil
         | _ \<Rightarrow> Inl (ConditionError (''Expected a value, got '' @ [CHR 0x27] @ raw @ [CHR 0x27] @ ''.'') [])))"

definition parseValue :: "context_map \<Rightarrow> condToken list \<Rightarrow> condValue parse" where
  "parseValue context ts =
     (case token_value context (current ts) of Inl e \<Rightarrow> Some (Inl e) | Inr v \<Rightarrow> preturn v (tl ts))"

text \<open>The operations call each other through \<open>self\<close>, which \<open>run_parser\<close> ties with one unit of fuel
  less; the two loops carry the value so far.\<close>

datatype parse_op = ParseOr | OrLoop bool | ParseAnd | AndLoop bool | ParseNot | ParseComparison

type_synonym parse_self = "parse_op \<Rightarrow> condToken list \<Rightarrow> bool parse"

definition parseOrExpr :: "parse_self \<Rightarrow> condToken list \<Rightarrow> bool parse" where
  "parseOrExpr self ts = pbind (self ParseAnd ts) (\<lambda>left ts. self (OrLoop left) ts)"

definition orLoop :: "parse_self \<Rightarrow> bool \<Rightarrow> condToken list \<Rightarrow> bool parse" where
  "orLoop self left ts =
     (if fst (current ts) = tkOr
      then pbind (self ParseAnd (tl ts)) (\<lambda>right ts. self (OrLoop (left \<or> right)) ts)
      else preturn left ts)"

definition parseAndExpr :: "parse_self \<Rightarrow> condToken list \<Rightarrow> bool parse" where
  "parseAndExpr self ts = pbind (self ParseNot ts) (\<lambda>left ts. self (AndLoop left) ts)"

definition andLoop :: "parse_self \<Rightarrow> bool \<Rightarrow> condToken list \<Rightarrow> bool parse" where
  "andLoop self left ts =
     (if fst (current ts) = tkAnd
      then pbind (self ParseNot (tl ts)) (\<lambda>right ts. self (AndLoop (left \<and> right)) ts)
      else preturn left ts)"

definition parseNotExpr :: "parse_self \<Rightarrow> condToken list \<Rightarrow> bool parse" where
  "parseNotExpr self ts =
     (if fst (current ts) = tkNot then pbind (self ParseNot (tl ts)) (\<lambda>v ts. preturn (\<not> v) ts)
      else self ParseComparison ts)"

definition parseGroup :: "parse_self \<Rightarrow> condToken list \<Rightarrow> bool parse" where
  "parseGroup self ts =
     pbind (self ParseOr (tl ts)) (\<lambda>inner ts.
       if fst (current ts) \<noteq> tkRParen
       then Some (Inl (ConditionError (''Expected '' @ [CHR 0x27] @ '')'' @ [CHR 0x27] @ ''.'') []))
       else preturn inner (tl ts))"

definition parseOperands :: "context_map \<Rightarrow> condToken list \<Rightarrow> bool parse" where
  "parseOperands context ts =
     pbind (parseValue context ts) (\<lambda>lhs ts.
       let opKind = fst (current ts)
       in if \<not> isComparisonOp opKind then preturn (asTruthy lhs) ts
          else pbind (parseValue context (tl ts)) (\<lambda>rhs ts. preturn (compareValues lhs opKind rhs) ts))"

definition parseComparison :: "context_map \<Rightarrow> parse_self \<Rightarrow> condToken list \<Rightarrow> bool parse" where
  "parseComparison context self ts =
     (if fst (current ts) = tkLParen then parseGroup self ts
      else if fst (current ts) = tkTrue then preturn True (tl ts)
      else if fst (current ts) = tkFalse then preturn False (tl ts)
      else parseOperands context ts)"

primrec run_parser :: "context_map \<Rightarrow> nat \<Rightarrow> parse_self" where
  "run_parser context 0 = (\<lambda>p ts. None)"
| "run_parser context (Suc n) = (\<lambda>p ts.
     case p of
       ParseOr \<Rightarrow> parseOrExpr (run_parser context n) ts
     | OrLoop left \<Rightarrow> orLoop (run_parser context n) left ts
     | ParseAnd \<Rightarrow> parseAndExpr (run_parser context n) ts
     | AndLoop left \<Rightarrow> andLoop (run_parser context n) left ts
     | ParseNot \<Rightarrow> parseNotExpr (run_parser context n) ts
     | ParseComparison \<Rightarrow> parseComparison context (run_parser context n) ts)"

definition EvaluateCondition :: "string \<Rightarrow> context_map \<Rightarrow> (condition_error + bool) option" where
  "EvaluateCondition condition context =
     (if TrimSpace condition = [] then Some (Inr True)
      else case tokenizeCondition (TrimSpace condition) of
        Inl e \<Rightarrow> Some (Inl e)
      | Inr tokens \<Rightarrow>
          (case run_parser context (6 * length tokens + 5) ParseOr tokens of
             None \<Rightarrow> None
           | Some (Inl e) \<Rightarrow> Some (Inl e)
           | Some (Inr (v, ts)) \<Rightarrow> Some (Inr v)))"

section \<open>The parser returns\<close>

definition progress :: "nat \<Rightarrow> 'a parse \<Rightarrow> bool" where
  "progress k m \<longleftrightarrow> m \<noteq> None \<and> (\<forall>x ts. m = preturn x ts \<longrightarrow> length ts < k)"

lemma progressI: "progress k (Some (Inl e))" "length ts < k \<Longrightarrow> progress k (preturn x ts)"
  by (simp_all add: progress_def)

lemma progress_bind:
  "progress k m \<Longrightarrow> (\<And>x ts. length ts < k \<Longrightarrow> progress l (f x ts)) \<Longrightarrow> progress l (pbind m f)"
  by (auto simp: progress_def pbind_def split: option.splits sum.splits prod.splits)

lemma current_ne: "fst (current ts) \<noteq> tkEof \<Longrightarrow> ts \<noteq> []"
  by (auto simp: current_def)

lemma parseValue_progress: "progress (length ts) (parseValue context ts)"
  by (cases ts) (auto simp: parseValue_def token_value_def current_def progress_def split: sum.splits)

lemma progress_mono: "progress k m \<Longrightarrow> k \<le> l \<Longrightarrow> progress l m"
  by (auto simp: progress_def)

text \<open>The fuel an operation needs, and what it leaves of the tokens.\<close>

fun fuel_for :: "parse_op \<Rightarrow> nat" where
  "fuel_for ParseOr = 5"
| "fuel_for (OrLoop l) = 6"
| "fuel_for ParseAnd = 4"
| "fuel_for (AndLoop l) = 6"
| "fuel_for ParseNot = 2"
| "fuel_for ParseComparison = 1"

fun leaves :: "parse_op \<Rightarrow> nat \<Rightarrow> nat" where
  "leaves (OrLoop l) k = Suc k"
| "leaves (AndLoop l) k = Suc k"
| "leaves p k = k"

lemma parseOperands_progress: "progress (length ts) (parseOperands context ts)"
  unfolding parseOperands_def
  by (rule progress_bind [OF parseValue_progress])
     (auto simp: Let_def intro!: progressI progress_bind [OF parseValue_progress])

lemma parse_total:
  "6 * length ts + fuel_for p \<le> n \<Longrightarrow> progress (leaves p (length ts)) (run_parser c n p ts)"
proof (induction n arbitrary: ts p)
  case 0
  then show ?case by (cases p) auto
next
  case (Suc n)
  have IH: "6 * length us + fuel_for q \<le> n \<Longrightarrow> leaves q (length us) \<le> k \<Longrightarrow> progress k (run_parser c n q us)" for us q k
    using Suc.IH progress_mono by blast
  have tl: "0 < length ts" if "fst (current ts) \<noteq> tkEof" using current_ne [OF that] by simp
  show ?case
  proof (cases p)
    case ParseComparison
    have "progress (length ts) (parseGroup (run_parser c n) ts)" if "fst (current ts) = tkLParen"
      unfolding parseGroup_def using tl that Suc.prems ParseComparison
      by (cases ts, simp, intro progress_bind [of "length (tl ts)"]) (auto intro!: IH progressI)
    then show ?thesis using ParseComparison tl parseOperands_progress
      by (auto simp: parseComparison_def intro!: progressI)
  next
    case ParseOr
    then show ?thesis using Suc.prems
      by (auto simp: parseOrExpr_def intro!: progress_bind [of "length ts"] IH)
  next
    case ParseAnd
    then show ?thesis using Suc.prems
      by (auto simp: parseAndExpr_def intro!: progress_bind [of "length ts"] IH)
  next
    case ParseNot
    then show ?thesis using Suc.prems tl
      by (cases ts) (auto simp: parseNotExpr_def intro!: progress_bind [of "length (tl ts)"] IH progressI)
  next
    case (OrLoop l)
    then show ?thesis using Suc.prems tl
      by (cases ts) (auto simp: orLoop_def intro!: progress_bind [of "length (tl ts)"] IH progressI)
  next
    case (AndLoop l)
    then show ?thesis using Suc.prems tl
      by (cases ts) (auto simp: andLoop_def intro!: progress_bind [of "length (tl ts)"] IH progressI)
  qed
qed

lemma EvaluateCondition_returns: "EvaluateCondition condition context \<noteq> None"
proof (cases "tokenizeCondition (TrimSpace condition)")
  case (Inr tokens)
  obtain y where "run_parser context (6 * length tokens + 5) ParseOr tokens = Some y"
    using parse_total [of tokens ParseOr "6 * length tokens + 5" "context"] by (auto simp: progress_def)
  then show ?thesis using Inr by (auto simp: EvaluateCondition_def split: sum.splits)
qed (simp add: EvaluateCondition_def)

section \<open>The parser without fuel\<close>

lemma pbind_mono:
  assumes "pbind m k = Some r" and "\<And>x. m = Some x \<Longrightarrow> m' = Some x"
    and "\<And>x us y. m = preturn x us \<Longrightarrow> k x us = Some y \<Longrightarrow> k' x us = Some y"
  shows "pbind m' k' = Some r"
  using assms by (auto simp: pbind_def split: option.splits sum.splits prod.splits)

lemma run_Suc: "run_parser c n p ts = Some r \<Longrightarrow> run_parser c (Suc n) p ts = Some r"
proof (induction n arbitrary: p ts r)
  case (Suc n)
  have eq: "run_parser c (Suc m) p ts = (case p of
       ParseOr \<Rightarrow> parseOrExpr (run_parser c m) ts
     | OrLoop left \<Rightarrow> orLoop (run_parser c m) left ts
     | ParseAnd \<Rightarrow> parseAndExpr (run_parser c m) ts
     | AndLoop left \<Rightarrow> andLoop (run_parser c m) left ts
     | ParseNot \<Rightarrow> parseNotExpr (run_parser c m) ts
     | ParseComparison \<Rightarrow> parseComparison c (run_parser c m) ts)" for m by simp
  note defs = parseOrExpr_def orLoop_def parseAndExpr_def andLoop_def parseNotExpr_def parseComparison_def parseGroup_def
  have IH: "run_parser c n q us = Some y \<Longrightarrow> run_parser c (Suc n) q us = Some y" for q us y by (rule Suc.IH)
  show ?case
    using Suc.prems unfolding eq [of n] eq [of "Suc n"]
    by (cases p) (auto simp: defs simp del: run_parser.simps split: if_splits elim!: pbind_mono intro: IH)
qed simp

lemma run_mono: "n \<le> m \<Longrightarrow> run_parser c n p ts = Some r \<Longrightarrow> run_parser c m p ts = Some r"
  by (induction m rule: dec_induct) (auto simp del: run_parser.simps intro: run_Suc)

definition parse :: "context_map \<Rightarrow> parse_op \<Rightarrow> condToken list \<Rightarrow> condition_error + bool \<times> condToken list" where
  "parse c p ts = the (run_parser c (6 * length ts + 6) p ts)"

lemma run_parse:
  assumes "6 * length ts + fuel_for p \<le> n" shows "run_parser c n p ts = Some (parse c p ts)"
proof -
  have "fuel_for p \<le> 6" by (cases p) simp_all
  obtain r where r: "run_parser c (6 * length ts + fuel_for p) p ts = Some r"
    using parse_total [of ts p "6 * length ts + fuel_for p" c] by (auto simp: progress_def)
  have "run_parser c (6 * length ts + 6) p ts = Some r" using run_mono [OF _ r] \<open>fuel_for p \<le> 6\<close> by simp
  then show ?thesis using run_mono [OF assms r] by (simp add: parse_def)
qed

lemma parse_shorter: "parse c p ts = Inr (v, us) \<Longrightarrow> length us < leaves p (length ts)"
  using parse_total [of ts p "6 * length ts + fuel_for p" c] run_parse [of ts p _ c] by (simp add: progress_def)

definition ebind :: "condition_error + 'a \<times> condToken list \<Rightarrow> ('a \<Rightarrow> condToken list \<Rightarrow> condition_error + 'b) \<Rightarrow> condition_error + 'b" where
  "ebind m k = (case m of Inl e \<Rightarrow> Inl e | Inr (x, ts) \<Rightarrow> k x ts)"

lemma ebind_simps [simp]: "ebind (Inl e) k = Inl e" "ebind (Inr (x, ts)) k = k x ts"
  by (simp_all add: ebind_def)

lemma pbind_parse:
  assumes "6 * length ts + fuel_for p \<le> n"
    and "\<And>v us. parse c p ts = Inr (v, us) \<Longrightarrow> length us < leaves p (length ts) \<Longrightarrow> k v us = Some (k' v us)"
  shows "pbind (run_parser c n p ts) k = Some (ebind (parse c p ts) k')"
  using run_parse [OF assms(1)] assms(2) parse_shorter
  by (cases "parse c p ts") (auto simp: pbind_def)

lemma parse_eqI:
  assumes "\<And>n. 6 * length ts + 6 \<le> n \<Longrightarrow> run_parser c (Suc n) p ts = Some r"
  shows "parse c p ts = r"
proof -
  have "fuel_for p \<le> 6" by (cases p) simp_all
  then show ?thesis
    using assms [of "6 * length ts + 6"] run_parse [of ts p "Suc (6 * length ts + 6)" c] by simp
qed

lemma parse_Or: "parse c ParseOr ts = ebind (parse c ParseAnd ts) (\<lambda>l us. parse c (OrLoop l) us)"
  by (rule parse_eqI) (auto simp: parseOrExpr_def intro!: pbind_parse run_parse)

lemma parse_And: "parse c ParseAnd ts = ebind (parse c ParseNot ts) (\<lambda>l us. parse c (AndLoop l) us)"
  by (rule parse_eqI) (auto simp: parseAndExpr_def intro!: pbind_parse run_parse)

lemma parse_OrLoop:
  "parse c (OrLoop l) ts = (if fst (current ts) = tkOr then ebind (parse c ParseAnd (tl ts)) (\<lambda>r us. parse c (OrLoop (l \<or> r)) us)
     else Inr (l, ts))"
  by (rule parse_eqI) (auto simp: orLoop_def intro!: pbind_parse run_parse)

lemma parse_AndLoop:
  "parse c (AndLoop l) ts = (if fst (current ts) = tkAnd then ebind (parse c ParseNot (tl ts)) (\<lambda>r us. parse c (AndLoop (l \<and> r)) us)
     else Inr (l, ts))"
  by (rule parse_eqI) (auto simp: andLoop_def intro!: pbind_parse run_parse)

lemma parse_Not:
  "parse c ParseNot ts = (if fst (current ts) = tkNot then ebind (parse c ParseNot (tl ts)) (\<lambda>v us. Inr (\<not> v, us))
     else parse c ParseComparison ts)"
  by (rule parse_eqI) (auto simp: parseNotExpr_def intro!: pbind_parse run_parse)

lemma parse_group:
  "fst (current ts) = tkLParen \<Longrightarrow> parse c ParseComparison ts =
     ebind (parse c ParseOr (tl ts)) (\<lambda>v us. if fst (current us) \<noteq> tkRParen
       then Inl (ConditionError (''Expected '' @ [CHR 0x27] @ '')'' @ [CHR 0x27] @ ''.'') []) else Inr (v, tl us))"
  by (rule parse_eqI) (auto simp: parseComparison_def parseGroup_def intro!: pbind_parse run_parse)

lemma parse_operands:
  "fst (current ts) \<notin> {tkLParen, tkTrue, tkFalse} \<Longrightarrow> Some (parse c ParseComparison ts) = parseOperands c ts"
  using run_parse [of ts ParseComparison "Suc (6 * length ts)" c] by (simp add: parseComparison_def)

lemma parse_bool:
  "fst (current ts) = tkTrue \<Longrightarrow> parse c ParseComparison ts = Inr (True, tl ts)"
  "fst (current ts) = tkFalse \<Longrightarrow> parse c ParseComparison ts = Inr (False, tl ts)"
  by (rule parse_eqI; simp add: parseComparison_def)+

end
