(* ===== verification/Nop_Condition_Spec.thy ===== *)
theory Nop_Condition_Spec
  imports Nop_Condition
begin

text \<open>
  What the evaluator computes: conditions as terms with a meaning, their printed form, and the proof
  that evaluating the printed form gives the meaning.
\<close>

section \<open>Conditions and what they mean\<close>

text \<open>Conditions as terms.  The first operand of a comparison is no truth literal: a condition that
  starts with one ends there, as the grammar in the code says.\<close>

datatype operand = Path string | Number string | Text string | Truth bool | Null

datatype cond = CBool bool | CTest operand | CCompare operand tokenKind operand
  | CNot cond | CAnd cond cond | COr cond cond

fun operand_token :: "operand \<Rightarrow> condToken" where
  "operand_token (Path p) = (tkDollarPath, p)"
| "operand_token (Number n) = (tkNumber, n)"
| "operand_token (Text s) = (tkString, s)"
| "operand_token (Truth b) = (if b then (tkTrue, ''true'') else (tkFalse, ''false''))"
| "operand_token Null = (tkNull, ''null'')"

definition emap :: "('a \<Rightarrow> 'b) \<Rightarrow> condition_error + 'a \<Rightarrow> condition_error + 'b" where
  "emap f m = (case m of Inl e \<Rightarrow> Inl e | Inr x \<Rightarrow> Inr (f x))"

definition elift2 :: "('a \<Rightarrow> 'b \<Rightarrow> 'c) \<Rightarrow> condition_error + 'a \<Rightarrow> condition_error + 'b \<Rightarrow> condition_error + 'c" where
  "elift2 f m k = (case m of Inl e \<Rightarrow> Inl e | Inr x \<Rightarrow> emap (f x) k)"

text \<open>Both operands of a connective are evaluated, and the first error counts.\<close>

fun meaning :: "context_map \<Rightarrow> cond \<Rightarrow> condition_error + bool" where
  "meaning c (CBool b) = Inr b"
| "meaning c (CTest a) = emap asTruthy (token_value c (operand_token a))"
| "meaning c (CCompare a k b) =
     elift2 (\<lambda>x y. compareValues x k y) (token_value c (operand_token a)) (token_value c (operand_token b))"
| "meaning c (CNot x) = emap Not (meaning c x)"
| "meaning c (CAnd x y) = elift2 (\<and>) (meaning c x) (meaning c y)"
| "meaning c (COr x y) = elift2 (\<or>) (meaning c x) (meaning c y)"

fun op_text :: "tokenKind \<Rightarrow> string" where
  "op_text tkGt = ''>''" | "op_text tkGte = ''>=''" | "op_text tkLt = ''<''" | "op_text tkLte = ''<=''"
| "op_text tkEq = ''==''" | "op_text tkNeq = ''!=''" | "op_text _ = []"

definition grouped :: "bool \<Rightarrow> condToken list \<Rightarrow> condToken list" where
  "grouped g ts = (if g then (tkLParen, ''('') # ts @ [(tkRParen, '')'')] else ts)"

fun cond_tokens :: "nat \<Rightarrow> cond \<Rightarrow> condToken list" where
  "cond_tokens l (CBool b) = [operand_token (Truth b)]"
| "cond_tokens l (CTest a) = [operand_token a]"
| "cond_tokens l (CCompare a k b) = [operand_token a, (k, op_text k), operand_token b]"
| "cond_tokens l (CNot x) = (tkNot, ''!'') # cond_tokens 2 x"
| "cond_tokens l (CAnd x y) = grouped (1 < l) (cond_tokens 1 x @ (tkAnd, ''&&'') # cond_tokens 2 y)"
| "cond_tokens l (COr x y) = grouped (0 < l) (cond_tokens 0 x @ (tkOr, ''||'') # cond_tokens 1 y)"

definition value_operand :: "operand \<Rightarrow> bool" where
  "value_operand a \<longleftrightarrow> (\<forall>b. a \<noteq> Truth b)"

fun cond_wf :: "cond \<Rightarrow> bool" where
  "cond_wf (CTest a) = value_operand a"
| "cond_wf (CCompare a k b) \<longleftrightarrow> value_operand a \<and> isComparisonOp k"
| "cond_wf (CNot x) = cond_wf x"
| "cond_wf (CAnd x y) \<longleftrightarrow> cond_wf x \<and> cond_wf y"
| "cond_wf (COr x y) \<longleftrightarrow> cond_wf x \<and> cond_wf y"
| "cond_wf _ = True"

section \<open>Parsing printed conditions\<close>

definition returns :: "condition_error + bool \<Rightarrow> condToken list \<Rightarrow> (bool \<Rightarrow> condToken list \<Rightarrow> condition_error + 'b) \<Rightarrow> condition_error + 'b" where
  "returns m ts k = (case m of Inl e \<Rightarrow> Inl e | Inr v \<Rightarrow> k v ts)"

lemma returns_simps [simp]: "returns (Inl e) ts k = Inl e" "returns (Inr v) ts k = k v ts"
  by (simp_all add: returns_def)

lemma ebind_returns: "ebind (returns m ts k) k' = returns m ts (\<lambda>v us. ebind (k v us) k')"
  by (cases m) simp_all

lemma current_Cons [simp]: "current (t # ts) = t"
  by (simp add: current_def)

text \<open>What may follow a condition of each level.\<close>

definition after :: "nat \<Rightarrow> condToken list \<Rightarrow> bool" where
  "after l ts \<longleftrightarrow> \<not> isComparisonOp (fst (current ts)) \<and> (l = 0 \<longrightarrow> fst (current ts) \<noteq> tkAnd)"

lemma not_comparison [simp]:
  "\<not> isComparisonOp tkAnd" "\<not> isComparisonOp tkOr" "\<not> isComparisonOp tkRParen" "\<not> isComparisonOp tkEof"
  by (simp_all add: isComparisonOp_def)

lemma after_consts:
  "after 0 ((tkOr, s) # ts)" "after 0 ((tkRParen, s) # ts)" "after 0 ((tkEof, s) # ts)" "after (Suc l) ((tkAnd, s) # ts)"
  "after (Suc l) ((tkOr, s) # ts)"
  "after l ts \<Longrightarrow> after (Suc k) ts"
  by (simp_all add: after_def isComparisonOp_def)

definition level_ok :: "context_map \<Rightarrow> nat \<Rightarrow> cond \<Rightarrow> bool" where
  "level_ok c l x \<longleftrightarrow> (\<forall>ts. after l ts \<longrightarrow>
     parse c (if l = 0 then ParseOr else if l = 1 then ParseAnd else ParseNot) (cond_tokens l x @ ts)
       = returns (meaning c x) ts
           (\<lambda>v us. if l = 0 then parse c (OrLoop v) us else if l = 1 then parse c (AndLoop v) us else Inr (v, us)))"

lemma level_okD:
  "level_ok c 0 x \<Longrightarrow> after 0 ts \<Longrightarrow> parse c ParseOr (cond_tokens 0 x @ ts) = returns (meaning c x) ts (\<lambda>v. parse c (OrLoop v))"
  "level_ok c 1 x \<Longrightarrow> after 1 ts \<Longrightarrow> parse c ParseAnd (cond_tokens 1 x @ ts) = returns (meaning c x) ts (\<lambda>v. parse c (AndLoop v))"
  "level_ok c 2 x \<Longrightarrow> after 2 ts \<Longrightarrow> parse c ParseNot (cond_tokens 2 x @ ts) = returns (meaning c x) ts (\<lambda>v us. Inr (v, us))"
  by (auto simp: level_ok_def)

lemma and_of_not: "level_ok c 2 x \<Longrightarrow> cond_tokens 1 x = cond_tokens 2 x \<Longrightarrow> level_ok c 1 x"
  by (simp add: level_ok_def parse_And [of c "cond_tokens 2 x @ _"] ebind_returns after_def)

lemma or_of_and:
  assumes "level_ok c 1 x" and "cond_tokens 0 x = cond_tokens 1 x" shows "level_ok c 0 x"
proof -
  have "parse c (AndLoop v) ts = Inr (v, ts)" if "after 0 ts" for v ts
    using that by (simp add: parse_AndLoop after_def)
  then have "returns m ts (\<lambda>v us. ebind (parse c (AndLoop v) us) k) = returns m ts k" if "after 0 ts" for m ts and k :: "bool \<Rightarrow> condToken list \<Rightarrow> condition_error + bool \<times> condToken list"
    using that by (cases m) auto
  then show ?thesis
    using assms by (simp add: level_ok_def parse_Or [of c "cond_tokens (Suc 0) x @ _"] ebind_returns after_def)
qed

lemma not_of_group:
  assumes "level_ok c 0 x" and "cond_tokens 2 x = grouped True (cond_tokens 0 x)" shows "level_ok c 2 x"
proof -
  have "parse c ParseOr (cond_tokens 0 x @ (tkRParen, '')'') # ts)
      = returns (meaning c x) ((tkRParen, '')'') # ts) (\<lambda>v us. Inr (v, us))" for ts
    using level_okD(1) [OF assms(1), of "(tkRParen, '')'') # ts"] parse_OrLoop
    by (cases "meaning c x") (simp_all add: after_consts)
  then show ?thesis
    using assms(2) by (cases "meaning c x") (simp_all add: level_ok_def grouped_def parse_Not parse_group)
qed

lemma levels_from_2:
  "level_ok c 2 x \<Longrightarrow> cond_tokens 1 x = cond_tokens 2 x \<Longrightarrow> cond_tokens 0 x = cond_tokens 1 x \<Longrightarrow>
     level_ok c 0 x \<and> level_ok c 1 x \<and> level_ok c 2 x"
  by (intro conjI or_of_and and_of_not)

lemma operand_kind:
  "value_operand a \<Longrightarrow> fst (operand_token a) \<in> {tkDollarPath, tkNumber, tkString, tkNull}"
  by (cases a) (auto simp: value_operand_def)

lemma parse_test:
  assumes "value_operand a" and "\<not> isComparisonOp (fst (current ts))"
  shows "parse c ParseComparison (operand_token a # ts) = returns (meaning c (CTest a)) ts (\<lambda>v us. Inr (v, us))"
  using parse_operands [of "operand_token a # ts" c] operand_kind [OF assms(1)] assms(2)
  by (cases "token_value c (operand_token a)")
     (auto simp: parseOperands_def parseValue_def pbind_def emap_def Let_def)

lemma parse_compare:
  assumes "value_operand a" and "isComparisonOp k"
  shows "parse c ParseComparison (operand_token a # (k, s) # operand_token b # ts)
      = returns (meaning c (CCompare a k b)) ts (\<lambda>v us. Inr (v, us))"
  using parse_operands [of "operand_token a # (k, s) # operand_token b # ts" c] operand_kind [OF assms(1)] assms(2)
  by (cases "token_value c (operand_token a)"; cases "token_value c (operand_token b)")
     (auto simp: parseOperands_def parseValue_def pbind_def emap_def elift2_def Let_def)

lemma parse_printed: "cond_wf x \<Longrightarrow> level_ok c 0 x \<and> level_ok c 1 x \<and> level_ok c 2 x"
proof (induction x)
  case (CBool b)
  have "level_ok c 2 (CBool b)"
    by (cases b) (simp_all add: level_ok_def parse_Not parse_bool)
  then show ?case by (rule levels_from_2) simp_all
next
  case (CTest a)
  have "level_ok c 2 (CTest a)" using CTest operand_kind [of a]
    by (auto simp: level_ok_def parse_Not [of c "operand_token a # _"] parse_test after_def simp del: meaning.simps)
  then show ?case by (rule levels_from_2) simp_all
next
  case (CCompare a k b)
  have "level_ok c 2 (CCompare a k b)" using CCompare operand_kind [of a]
    by (auto simp: level_ok_def parse_Not [of c "operand_token a # _"] parse_compare simp del: meaning.simps)
  then show ?case by (rule levels_from_2) simp_all
next
  case (CNot x)
  have "level_ok c 2 (CNot x)" using CNot
    by (cases "meaning c x") (simp_all add: level_ok_def parse_Not [of c "(tkNot, _) # _"] emap_def)
  then show ?case by (rule levels_from_2) simp_all
next
  case (CAnd x y)
  then have x: "level_ok c 1 x" and y: "level_ok c 2 y" by auto
  have "level_ok c 1 (CAnd x y)"
    using level_okD(2) [OF x] level_okD(3) [OF y]
    by (cases "meaning c x"; cases "meaning c y")
       (simp_all add: level_ok_def grouped_def elift2_def emap_def parse_AndLoop [of c _ "_ # _"] after_consts after_def)
  moreover from this have z: "level_ok c 0 (CAnd x y)" by (rule or_of_and) (simp add: grouped_def)
  moreover from z have "level_ok c 2 (CAnd x y)" by (rule not_of_group) (simp add: grouped_def)
  ultimately show ?case by blast
next
  case (COr x y)
  then have x: "level_ok c 0 x" and y: "level_ok c 1 y" by auto
  have a: "parse c (AndLoop v) ts = Inr (v, ts)" if "after 0 ts" for v ts
    using that by (simp add: parse_AndLoop after_def)
  have z: "level_ok c 0 (COr x y)"
    using level_okD(1) [OF x] level_okD(2) [OF y] a
    by (cases "meaning c x"; cases "meaning c y")
       (simp_all add: level_ok_def grouped_def elift2_def emap_def parse_OrLoop [of c _ "_ # _"] after_consts after_def)
  from z have t: "level_ok c 2 (COr x y)" by (rule not_of_group) (simp add: grouped_def)
  from t have "level_ok c 1 (COr x y)" by (rule and_of_not) (simp add: grouped_def)
  with z t show ?case by blast
qed

section \<open>Reading printed tokens\<close>

definition token_text :: "condToken \<Rightarrow> string" where
  "token_text t = (if fst t = tkString then [CHR 0x22] @ snd t @ [CHR 0x22] else snd t)"

definition cond_text :: "cond \<Rightarrow> string" where
  "cond_text x = join_with '' '' (map token_text (cond_tokens 0 x))"

definition path_lexeme :: "string \<Rightarrow> bool" where
  "path_lexeme p \<longleftrightarrow> has_prefix p ''$.'' \<and> list_all path_char p"

definition number_lexeme_ok :: "string \<Rightarrow> bool" where
  "number_lexeme_ok n \<longleftrightarrow>
     (case n of
        c # r \<Rightarrow> if c = CHR ''-'' then r \<noteq> [] \<and> is_digit (hd r) \<and> list_all number_char r
                 else is_digit c \<and> list_all number_char r
      | [] \<Rightarrow> False)"

fun operand_ok :: "operand \<Rightarrow> bool" where
  "operand_ok (Path p) = path_lexeme p"
| "operand_ok (Number n) = number_lexeme_ok n"
| "operand_ok (Text s) \<longleftrightarrow> CHR 0x22 \<notin> set s"
| "operand_ok _ = True"

fun lexemes_ok :: "cond \<Rightarrow> bool" where
  "lexemes_ok (CBool b) = True"
| "lexemes_ok (CTest a) = operand_ok a"
| "lexemes_ok (CCompare a k b) \<longleftrightarrow> operand_ok a \<and> operand_ok b"
| "lexemes_ok (CNot x) = lexemes_ok x"
| "lexemes_ok (CAnd x y) \<longleftrightarrow> lexemes_ok x \<and> lexemes_ok y"
| "lexemes_ok (COr x y) \<longleftrightarrow> lexemes_ok x \<and> lexemes_ok y"

definition fixed_tokens :: "condToken list" where
  "fixed_tokens = [(tkTrue, ''true''), (tkFalse, ''false''), (tkNull, ''null''), (tkGt, ''>''), (tkGte, ''>=''),
     (tkLt, ''<''), (tkLte, ''<=''), (tkEq, ''==''), (tkNeq, ''!=''), (tkAnd, ''&&''), (tkOr, ''||''),
     (tkNot, ''!''), (tkLParen, ''(''), (tkRParen, '')'')]"

definition token_ok :: "condToken \<Rightarrow> bool" where
  "token_ok t \<longleftrightarrow> t \<in> set fixed_tokens \<or> (\<exists>a. operand_ok a \<and> t = operand_token a)"

lemma token_okI: "t \<in> set fixed_tokens \<Longrightarrow> token_ok t" "operand_ok a \<Longrightarrow> token_ok (operand_token a)"
  by (auto simp: token_ok_def)

lemma token_ok_consts [simp]:
  "token_ok (tkTrue, ''true'')" "token_ok (tkFalse, ''false'')" "token_ok (tkNot, ''!'')"
  "token_ok (tkAnd, ''&&'')" "token_ok (tkOr, ''||'')" "token_ok (tkLParen, ''('')" "token_ok (tkRParen, '')'')"
  by (simp_all add: token_okI(1) fixed_tokens_def)

lemma token_ok_op: "isComparisonOp k \<Longrightarrow> token_ok (k, op_text k)"
  by (rule token_okI(1), cases k) (simp_all add: isComparisonOp_def fixed_tokens_def)

lemma tokens_ok: "cond_wf x \<Longrightarrow> lexemes_ok x \<Longrightarrow> list_all token_ok (cond_tokens l x)"
  by (induction x arbitrary: l) (simp_all add: token_okI(2) token_ok_op grouped_def del: operand_token.simps)

text \<open>A printed token is followed by a blank or by nothing.\<close>

definition gap :: "string \<Rightarrow> bool" where
  "gap r \<longleftrightarrow> r = [] \<or> hd r = CHR '' ''"

lemma take_gap:
  "list_all p s \<Longrightarrow> gap r \<Longrightarrow> \<not> p (CHR '' '') \<Longrightarrow> takeWhile p (s @ r) = s \<and> dropWhile p (s @ r) = r"
  by (induction s; cases r) (simp_all add: gap_def)

lemma not_blank: "\<not> path_char (CHR '' '')" "\<not> number_char (CHR '' '')" "\<not> isAlnum (CHR '' '')"
  by (simp_all add: path_char_def number_char_def isAlnum_def in_range_def is_digit_def)

lemmas cond_next_simps = cond_next_def Let_def latin1_space_def in_range_def operator2_def operator1_def
  next_is_def is_digit_def latin1_letter_def keyword_def

lemma cond_next_fixed:
  assumes "t \<in> set fixed_tokens" and "gap r" shows "cond_next input (snd t @ r) = Inr (Some t, r)"
proof -
  from assms(2) consider "r = []" | q where "r = CHR '' '' # q" by (cases r) (auto simp: gap_def)
  then show ?thesis
  proof cases
    case 1
    show ?thesis using assms(1) unfolding fixed_tokens_def 1
      by (simp only: list.set insert_iff empty_iff, elim disjE FalseE; hypsubst; simp add: cond_next_simps isAlnum_def)
  next
    case 2
    show ?thesis using assms(1) unfolding fixed_tokens_def 2
      by (simp only: list.set insert_iff empty_iff, elim disjE FalseE; hypsubst; simp add: cond_next_simps isAlnum_def)
  qed
qed

lemma cond_next_operand:
  assumes "operand_ok a" and "gap r"
  shows "cond_next input (token_text (operand_token a) @ r) = Inr (Some (operand_token a), r)"
proof (cases a)
  case (Path p)
  then obtain q where p: "p = CHR ''$'' # CHR ''.'' # q" "list_all path_char p"
    using assms(1) by (cases p; cases "tl p") (auto simp: path_lexeme_def has_prefix_def)
  have "takeWhile path_char (p @ r) = p \<and> dropWhile path_char (p @ r) = r"
    by (rule take_gap) (use p assms not_blank in auto)
  then show ?thesis using Path p(1)
    by (simp add: token_text_def cond_next_def Let_def latin1_space_def in_range_def next_is_def)
next
  case (Number n)
  then obtain c q where n: "n = c # q" using assms(1) by (cases n) (auto simp: number_lexeme_ok_def)
  have "takeWhile number_char (q @ r) = q \<and> dropWhile number_char (q @ r) = r"
    by (rule take_gap) (use Number n assms not_blank in \<open>auto simp: number_lexeme_ok_def split: if_splits\<close>)
  moreover have "c = CHR ''-'' \<or> is_digit c" using Number n assms(1) by (auto simp: number_lexeme_ok_def split: if_splits)
  moreover from this have "\<not> latin1_space c" "c \<noteq> CHR ''$''" "c \<noteq> CHR 0x22"
    by (auto simp: latin1_space_def in_range_def is_digit_def)
  ultimately show ?thesis using Number n assms(1)
    by (auto simp: token_text_def cond_next_def Let_def number_lexeme_def number_lexeme_ok_def number_char_def
        split: if_splits)
next
  case (Text s)
  have "takeWhile (\<lambda>x. x \<noteq> CHR 0x22) (s @ CHR 0x22 # r) = s" "dropWhile (\<lambda>x. x \<noteq> CHR 0x22) (s @ CHR 0x22 # r) = CHR 0x22 # r"
    using Text assms(1) by (subst takeWhile_append2 dropWhile_append2; auto)+
  then show ?thesis using Text
    by (simp add: token_text_def cond_next_def Let_def latin1_space_def in_range_def)
next
  case (Truth b)
  have "operand_token a \<in> set fixed_tokens" by (cases b) (simp_all add: Truth fixed_tokens_def)
  from cond_next_fixed [OF this assms(2), of input] show ?thesis by (cases b) (simp_all add: Truth token_text_def)
next
  case Null
  have "operand_token a \<in> set fixed_tokens" by (simp add: Null fixed_tokens_def)
  from cond_next_fixed [OF this assms(2), of input] show ?thesis by (simp add: Null token_text_def)
qed

lemma cond_next_token: "token_ok t \<Longrightarrow> gap r \<Longrightarrow> cond_next input (token_text t @ r) = Inr (Some t, r)"
proof -
  assume t: "token_ok t" and r: "gap r"
  have "token_text t = snd t" if "t \<in> set fixed_tokens"
    using that by (auto simp: fixed_tokens_def token_text_def)
  then show ?thesis
    using t cond_next_operand [OF _ r] cond_next_fixed [OF _ r, of t]
    by (cases "t \<in> set fixed_tokens") (auto simp: token_ok_def)
qed

lemma tokenize_blank: "tokenize_from input (CHR '' '' # r) = tokenize_from input r"
  by (subst tokenize_from.simps) (simp add: cond_next_def latin1_space_def)

lemma token_text_ne: "token_ok t \<Longrightarrow> token_text t \<noteq> []"
proof -
  assume "token_ok t"
  then show ?thesis unfolding token_ok_def
  proof
    assume "t \<in> set fixed_tokens" then show ?thesis by (auto simp: fixed_tokens_def token_text_def)
  next
    assume "\<exists>a. operand_ok a \<and> t = operand_token a"
    then obtain a where "operand_ok a" "t = operand_token a" by blast
    then show ?thesis
      by (cases a) (auto simp: token_text_def path_lexeme_def has_prefix_def number_lexeme_ok_def)
  qed
qed

lemma tokenize_printed:
  "ts \<noteq> [] \<Longrightarrow> list_all token_ok ts \<Longrightarrow>
     tokenize_from input (join_with '' '' (map token_text ts)) = Inr (ts @ [(tkEof, [])])"
proof (induction ts rule: induct_list012)
  case (2 t)
  then show ?case using cond_next_token [of t "[]" input] token_text_ne [of t]
    by (subst tokenize_from.simps) (simp add: gap_def emit_def tokenize_from.simps [of input "[]"])
next
  case (3 t u ts)
  let ?r = "join_with '' '' (map token_text (u # ts))"
  have "cond_next input (token_text t @ CHR '' '' # ?r) = Inr (Some t, CHR '' '' # ?r)"
    using 3 by (intro cond_next_token) (simp_all add: gap_def)
  moreover have "tokenize_from input ?r = Inr ((u # ts) @ [(tkEof, [])])" using 3 by simp
  ultimately show ?case using 3 token_text_ne [of t]
    by (subst tokenize_from.simps) (simp add: emit_def tokenize_blank)
qed simp

lemma cond_tokens_ne: "cond_tokens l x \<noteq> []"
  by (cases x) (simp_all add: grouped_def)

text \<open>The printed text starts and ends with a visible character, so that trimming leaves it.\<close>

definition visible :: "char \<Rightarrow> bool" where
  "visible c \<longleftrightarrow> in_range 0x21 0x7E c"

lemma spaces_invisible: "list_all (list_all (\<lambda>c. \<not> visible c)) utf8_spaces"
  by code_simp

lemma trim_visible:
  assumes "list_all (list_all (\<lambda>c. \<not> visible c)) ps" and "visible c"
  shows "trim_left_by ps (c # s) = c # s"
proof -
  have "space_len ps (c # s) = 0" using assms
  proof (induction ps)
    case (Cons p ps)
    then show ?case by (cases p) (auto simp: has_prefix_def)
  qed simp
  then show ?thesis by (subst trim_left_by.simps) simp
qed

lemma TrimSpace_visible:
  assumes "s \<noteq> []" and "visible (hd s)" and "visible (last s)" shows "TrimSpace s = s"
proof -
  have r: "list_all (list_all (\<lambda>c. \<not> visible c)) (map rev utf8_spaces)"
    using spaces_invisible by (simp add: list_all_iff)
  have "trim_left_by utf8_spaces s = s"
    using trim_visible [OF spaces_invisible assms(2), of "tl s"] assms(1) by simp
  moreover have "rev s = last s # rev (butlast s)" using assms(1) by (metis append_butlast_last_id rev_eq_Cons_iff rev_rev_ident)
  ultimately show ?thesis
    using trim_visible [OF r assms(3), of "rev (butlast s)"] by (metis TrimSpace_def rev_rev_ident)
qed

lemma digits_visible: "is_digit c \<Longrightarrow> visible c" "isAlnum c \<Longrightarrow> visible c" "number_char c \<Longrightarrow> visible c" "path_char c \<Longrightarrow> visible c"
  by (auto simp: is_digit_def isAlnum_def number_char_def path_char_def visible_def in_range_def)

lemma token_visible:
  assumes "token_ok t" shows "visible (hd (token_text t)) \<and> visible (last (token_text t))"
  using assms unfolding token_ok_def
proof
  assume "t \<in> set fixed_tokens"
  then show ?thesis by (auto simp: fixed_tokens_def token_text_def visible_def in_range_def)
next
  assume "\<exists>a. operand_ok a \<and> t = operand_token a"
  then obtain a where a: "operand_ok a" "t = operand_token a" by blast
  have l: "visible (last s)" if "s \<noteq> []" "list_all p s" "\<And>c. p c \<Longrightarrow> visible c" for s p
    using that by (simp add: list_all_iff)
  have v: "visible (CHR 0x22)" "visible (CHR ''-'')" by (simp_all add: visible_def in_range_def)
  show ?thesis
  proof (cases a)
    case (Path p)
    then have "p \<noteq> []" "list_all path_char p" using a by (auto simp: path_lexeme_def has_prefix_def)
    then show ?thesis using Path a l [of p path_char] digits_visible
      by (cases p) (simp_all add: token_text_def)
  next
    case (Number n)
    then obtain c r where n: "n = c # r" using a by (cases n) (auto simp: number_lexeme_ok_def)
    then have "list_all number_char r" "c = CHR ''-'' \<or> is_digit c"
      using Number a by (auto simp: number_lexeme_ok_def split: if_splits)
    then show ?thesis using Number n a l [of r number_char] digits_visible v
      by (auto simp: token_text_def)
  qed (use a v in \<open>auto simp: token_text_def visible_def in_range_def\<close>)
qed

lemma join_ends:
  assumes "ts \<noteq> []" and "list_all token_ok ts"
  shows "join_with '' '' (map token_text ts) \<noteq> []
    \<and> hd (join_with '' '' (map token_text ts)) = hd (token_text (hd ts))
    \<and> last (join_with '' '' (map token_text ts)) = last (token_text (last ts))"
  using assms by (induction ts rule: induct_list012) (simp_all add: token_text_ne)

text \<open>C7: Evaluating a condition.  For every condition the language can express, printed with single
  blanks and only the brackets that precedence needs, the evaluator returns the meaning of the term: the
  connectives bind as usual, both operands of a connective are evaluated, and the first error of an
  operand is the error of the whole.\<close>

theorem condition_evaluation:
  assumes "cond_wf x" and "lexemes_ok x"
  shows "EvaluateCondition (cond_text x) results = Some (meaning results x)"
proof -
  let ?ts = "cond_tokens 0 x"
  have ok: "?ts \<noteq> []" "list_all token_ok ?ts" using cond_tokens_ne tokens_ok [OF assms] by auto
  then have "token_ok (hd ?ts)" "token_ok (last ?ts)" by (simp_all add: list_all_iff)
  then have "visible (hd (token_text (hd ?ts)))" "visible (last (token_text (last ?ts)))"
    using token_visible by blast+
  with join_ends [OF ok] have trim: "TrimSpace (cond_text x) = cond_text x" "cond_text x \<noteq> []"
    by (auto simp: cond_text_def intro!: TrimSpace_visible)
  have toks: "tokenizeCondition (cond_text x) = Inr (?ts @ [(tkEof, [])])"
    unfolding tokenizeCondition_def cond_text_def by (rule tokenize_printed [OF ok])
  have "parse results ParseOr (?ts @ [(tkEof, [])]) = returns (meaning results x) [(tkEof, [])] (\<lambda>v. parse results (OrLoop v))"
    using parse_printed [OF assms(1)] by (intro level_okD(1)) (auto simp: after_consts)
  then have "run_parser results (6 * length (?ts @ [(tkEof, [])]) + 5) ParseOr (?ts @ [(tkEof, [])])
      = Some (returns (meaning results x) [(tkEof, [])] (\<lambda>v us. Inr (v, us)))"
    by (subst run_parse) (cases "meaning results x"; simp add: parse_OrLoop)+
  then show ?thesis using trim toks by (cases "meaning results x") (simp_all add: EvaluateCondition_def)
qed

theorem condition_evaluation_witness:
  "EvaluateCondition ''$.a > 3 && ( 1 || 0 )'' [(''a'', ''5'')] = Some (Inr True)"
proof -
  let ?x = "CAnd (CCompare (Path ''$.a'') tkGt (Number ''3'')) (COr (CTest (Number ''1'')) (CTest (Number ''0'')))"
  have "cond_wf ?x" "lexemes_ok ?x" "cond_text ?x = ''$.a > 3 && ( 1 || 0 )''"
    "meaning [(''a'', ''5'')] ?x = Inr True"
    by code_simp+
  then show ?thesis using condition_evaluation [of ?x "[(''a'', ''5'')]"] by simp
qed

text \<open>Tokens after a complete condition are not looked at, so that a comparison that starts with a truth
  literal is cut after it, and a string literal may lack its closing quote.\<close>

lemma condition_rest_ignored:
  "EvaluateCondition ''true == false'' [] = Some (Inr True)"
  "EvaluateCondition ''1 1 1'' [] = Some (Inr True)"
  "EvaluateCondition [CHR 0x22, CHR ''a''] [] = Some (Inr True)"
  by code_simp+

end
