(* ===== verification/Nop_Tasks.thy ===== *)
theory Nop_Tasks
  imports Nop_Dag
begin

text \<open>
  Tasks, their records and the in-memory task store (\<open>nop/task_store.go\<close>), what the orchestrator
  exchanges with a worker (\<open>nop/worker_client.go\<close>) and its options (\<open>nop/orchestrator_options.go\<close>).
  Times are nanoseconds since the Unix epoch.  The context of a task is passed on unread, so that its
  type is a parameter; a nil subtask map cannot occur in the model.
\<close>

section \<open>Tasks and results\<close>

record 'c OrchestratorTask =
  otTaskID :: string
  otDag :: "TaskDag option"
  otTimeoutMs :: u64
  otMaxRetries :: u32
  otPriority :: string
  otCallbackURL :: string
  otCallbackSecret :: string
  otPreflight :: bool
  otContext :: "'c option"
  otRequestID :: string
  otDelegateDepth :: int
  otCompensationPolicy :: string

definition MaxDelegateChainDepth :: int where
  "MaxDelegateChainDepth = 3"

definition DefaultTimeoutMs :: u64 where
  "DefaultTimeoutMs = 30000"

definition MaxTimeoutMs :: u64 where
  "MaxTimeoutMs = 3600000"

definition effectiveTimeoutMs :: "'c OrchestratorTask \<Rightarrow> u64" where
  "effectiveTimeoutMs t = (if otTimeoutMs t = 0 then DefaultTimeoutMs else otTimeoutMs t)"

definition effectivePriority :: "'c OrchestratorTask \<Rightarrow> string" where
  "effectivePriority t = (if otPriority t = [] then ''normal'' else otPriority t)"

definition effectiveCompensationPolicy :: "'c OrchestratorTask \<Rightarrow> string" where
  "effectiveCompensationPolicy t = (if otCompensationPolicy t = [] then ''best_effort'' else otCompensationPolicy t)"

record NopSubtaskRecord =
  srNodeID :: string
  srSubtaskID :: string
  srState :: TaskState
  srResult :: raw
  srErrorCode :: string
  srErrorMessage :: string
  srAttemptCount :: int

record 'c NopTaskRecord =
  trTaskID :: string
  trTask :: "'c OrchestratorTask"
  trState :: TaskState
  trStartedAt :: int
  trCompletedAt :: "int option"
  trSubtasks :: "(string \<times> NopSubtaskRecord) list"

record SagaCompensationResult =
  scAttempted :: int
  scSucceeded :: int
  scFailed :: int
  scFailedNodeIDs :: "string list"

record NopTaskResult =
  nrTaskID :: string
  nrFinalState :: TaskState
  nrAggregatedResult :: raw
  nrErrorCode :: string
  nrErrorMessage :: string
  nrNodeResults :: "(string \<times> raw) list"
  nrCompensation :: "SagaCompensationResult option"

definition newSuccessResult ::
    "string \<Rightarrow> raw \<Rightarrow> (string \<times> raw) list \<Rightarrow> SagaCompensationResult option \<Rightarrow> NopTaskResult" where
  "newSuccessResult taskID aggregated nodeResults saga =
     \<lparr>nrTaskID = taskID, nrFinalState = TaskStateCompleted, nrAggregatedResult = aggregated, nrErrorCode = [],
      nrErrorMessage = [], nrNodeResults = nodeResults, nrCompensation = saga\<rparr>"

definition newFailureResult :: "string \<Rightarrow> string \<Rightarrow> string \<Rightarrow> SagaCompensationResult option \<Rightarrow> NopTaskResult" where
  "newFailureResult taskID errorCode errorMessage saga =
     \<lparr>nrTaskID = taskID, nrFinalState = TaskStateFailed, nrAggregatedResult = [], nrErrorCode = errorCode,
      nrErrorMessage = errorMessage, nrNodeResults = [], nrCompensation = saga\<rparr>"

section \<open>The task store\<close>

record SubtaskUpdate =
  suTaskID :: string
  suNodeID :: string
  suSubtaskID :: string
  suState :: TaskState
  suResult :: raw
  suErrorCode :: string
  suErrorMessage :: string
  suAttempt :: int

type_synonym 'c task_store = "(string \<times> 'c NopTaskRecord) list"

definition NewInMemoryTaskStore :: "'c task_store" where
  "NewInMemoryTaskStore = []"

definition store_Save :: "'c NopTaskRecord \<Rightarrow> 'c task_store \<Rightarrow> nps_error option \<times> 'c task_store" where
  "store_Save record s =
     (if map_of s (trTaskID record) \<noteq> None
      then (Some (ErrPlain (''task already exists: '' @ trTaskID record)), s)
      else (None, AList.update (trTaskID record) record s))"

definition store_Get :: "string \<Rightarrow> 'c task_store \<Rightarrow> 'c NopTaskRecord option" where
  "store_Get taskID s = map_of s taskID"

definition store_UpdateState :: "string \<Rightarrow> TaskState \<Rightarrow> 'c task_store \<Rightarrow> 'c task_store" where
  "store_UpdateState taskID state s =
     (case map_of s taskID of
        None \<Rightarrow> s
      | Some rec \<Rightarrow> AList.update taskID (rec\<lparr>trState := state\<rparr>) s)"

definition update_subtask :: "SubtaskUpdate \<Rightarrow> NopSubtaskRecord \<Rightarrow> NopSubtaskRecord" where
  "update_subtask upd sub =
     sub\<lparr>srState := suState upd, srAttemptCount := suAttempt upd,
         srResult := (if suResult upd \<noteq> [] then suResult upd else srResult sub),
         srErrorCode := (if suErrorCode upd \<noteq> [] then suErrorCode upd else srErrorCode sub),
         srErrorMessage := (if suErrorMessage upd \<noteq> [] then suErrorMessage upd else srErrorMessage sub)\<rparr>"

definition new_subtask :: "SubtaskUpdate \<Rightarrow> NopSubtaskRecord" where
  "new_subtask upd =
     \<lparr>srNodeID = suNodeID upd, srSubtaskID = suSubtaskID upd, srState = suState upd, srResult = [],
      srErrorCode = [], srErrorMessage = [], srAttemptCount = 0\<rparr>"

definition store_UpdateSubtask :: "SubtaskUpdate \<Rightarrow> 'c task_store \<Rightarrow> 'c task_store" where
  "store_UpdateSubtask upd s =
     (case map_of s (suTaskID upd) of
        None \<Rightarrow> s
      | Some rec \<Rightarrow>
          let sub = (case map_of (trSubtasks rec) (suNodeID upd) of Some sub \<Rightarrow> sub | None \<Rightarrow> new_subtask upd)
          in AList.update (suTaskID upd)
               (rec\<lparr>trSubtasks := AList.update (suNodeID upd) (update_subtask upd sub) (trSubtasks rec)\<rparr>) s)"

section \<open>Workers\<close>

record 'c DelegateRequest =
  drParentTaskID :: string
  drSubtaskID :: string
  drNodeID :: string
  drTargetAgentNID :: string
  drAction :: string
  drParams :: raw
  drDelegatedScope :: raw
  drDeadlineAt :: string
  drIdempotencyKey :: string
  drPriority :: string
  drContext :: "'c option"
  drDelegateDepth :: int

record StreamError =
  seCode :: string
  seMessage :: string
  seRetryable :: bool

record WorkerStreamFrame =
  wfStreamID :: string
  wfTaskID :: string
  wfSubtaskID :: string
  wfSeq :: u64
  wfData :: raw
  wfIsFinal :: bool
  wfSenderNID :: string
  wfError :: "StreamError option"

record PreflightResult =
  prAgentNID :: string
  prAvailable :: bool
  prAvailableCGN :: "int option"
  prEstimatedQueueMs :: "int option"
  prCapabilities :: "string list"
  prUnavailableReason :: string

section \<open>Options\<close>

record OrchestratorOptions =
  ooMaxConcurrentNodes :: int
  ooValidateSenderNID :: bool
  ooEnableCallback :: bool
  ooCallbackTimeoutMs :: int
  ooCallbackRetryBaseDelayMs :: int
  ooDefaultAggregateStrategy :: string

text \<open>\<open>procs\<close> is \<open>runtime.GOMAXPROCS(0)\<close>.\<close>

definition DefaultOrchestratorOptions :: "int \<Rightarrow> OrchestratorOptions" where
  "DefaultOrchestratorOptions procs =
     \<lparr>ooMaxConcurrentNodes = procs * 2, ooValidateSenderNID = True, ooEnableCallback = True,
      ooCallbackTimeoutMs = 10000, ooCallbackRetryBaseDelayMs = 1000, ooDefaultAggregateStrategy = ''merge''\<rparr>"

definition normalized :: "int \<Rightarrow> OrchestratorOptions option \<Rightarrow> OrchestratorOptions" where
  "normalized procs opts =
     (case opts of
        None \<Rightarrow> DefaultOrchestratorOptions procs
      | Some out \<Rightarrow>
          out\<lparr>ooMaxConcurrentNodes := (if ooMaxConcurrentNodes out \<le> 0 then procs * 2 else ooMaxConcurrentNodes out),
              ooDefaultAggregateStrategy :=
                (if ooDefaultAggregateStrategy out = [] then ''merge'' else ooDefaultAggregateStrategy out),
              ooCallbackTimeoutMs := (if ooCallbackTimeoutMs out \<le> 0 then 10000 else ooCallbackTimeoutMs out)\<rparr>)"

end
