(* ===== verification/Nop_Node.thy ===== *)
theory Nop_Node
  imports Nop_Tasks Nop_Condition
begin

text \<open>
  Executing one node of a task graph (\<open>nop/orchestrator.go\<close>): one delegation to a worker and the frames
  it streams back, and the retries around it.  The worker is a parameter: for every attempt it answers a
  request with an error or with what the orchestrator's \<open>select\<close> receives in turn, the frames of the
  stream, its end, the node's deadline or the cancellation of the task.  What the task store is told is
  returned as the list of updates, in order.  The delays between attempts only take time.
\<close>

section \<open>One delegation\<close>

record nodeOutcome =
  noState :: TaskState
  noResult :: raw
  noErrorCode :: string
  noErrorMessage :: string

definition node_failed :: "string \<Rightarrow> string \<Rightarrow> nodeOutcome" where
  "node_failed ec msg = \<lparr>noState = TaskStateFailed, noResult = [], noErrorCode = ec, noErrorMessage = msg\<rparr>"

definition node_completed :: "raw \<Rightarrow> nodeOutcome" where
  "node_completed r = \<lparr>noState = TaskStateCompleted, noResult = r, noErrorCode = [], noErrorMessage = []\<rparr>"

definition node_skipped :: nodeOutcome where
  "node_skipped = \<lparr>noState = TaskStateSkipped, noResult = [], noErrorCode = [], noErrorMessage = []\<rparr>"

datatype stream_event = StreamFrame WorkerStreamFrame | StreamClosed | NodeDeadline | TaskContextDone

definition node_timed_out :: "DagNode \<Rightarrow> u64 \<Rightarrow> nodeOutcome" where
  "node_timed_out node timeoutMs =
     node_failed ''NOP-DELEGATE-TIMEOUT''
       (''Node '' @ quoted_id (dnID node) @ '' timed out after '' @ dec_int (uint timeoutMs) @ ''ms.'')"

text \<open>The loop over the stream.  When nothing more arrives, the deadline does.\<close>

fun consume_stream ::
    "OrchestratorOptions \<Rightarrow> DagNode \<Rightarrow> u64 \<Rightarrow> u64 \<Rightarrow> stream_event list \<Rightarrow> nodeOutcome" where
  "consume_stream opts node timeoutMs lastSeq [] = node_timed_out node timeoutMs"
| "consume_stream opts node timeoutMs lastSeq (NodeDeadline # es) = node_timed_out node timeoutMs"
| "consume_stream opts node timeoutMs lastSeq (TaskContextDone # es) = node_failed ''NOP-TASK-CANCELLED'' []"
| "consume_stream opts node timeoutMs lastSeq (StreamClosed # es) =
     node_failed ''NOP-DELEGATE-TIMEOUT'' ''Stream ended without final frame.''"
| "consume_stream opts node timeoutMs lastSeq (StreamFrame frame # es) =
     (if wfSeq frame \<noteq> lastSeq \<and> wfSeq frame \<noteq> 0 \<and> wfSeq frame \<noteq> lastSeq + 1
      then node_failed ''NOP-STREAM-SEQ-GAP'' []
      else if ooValidateSenderNID opts \<and> wfSenderNID frame \<noteq> dnAgent node
      then node_failed ''NOP-STREAM-NID-MISMATCH'' []
      else if wfIsFinal frame
      then (case wfError frame of
              Some e \<Rightarrow> node_failed (seCode e) (seMessage e)
            | None \<Rightarrow> node_completed (wfData frame))
      else consume_stream opts node timeoutMs (wfSeq frame) es)"

type_synonym worker_reply = "string + stream_event list"

definition nodeTimeoutMs :: "'c OrchestratorTask \<Rightarrow> DagNode \<Rightarrow> u64" where
  "nodeTimeoutMs task node =
     (let ms = (case dnTimeoutMs node of Some t \<Rightarrow> t | None \<Rightarrow> effectiveTimeoutMs task)
      in if ms > MaxTimeoutMs then MaxTimeoutMs else ms)"

definition delegate_request ::
    "'c OrchestratorTask \<Rightarrow> DagNode \<Rightarrow> string \<Rightarrow> string \<Rightarrow> raw \<Rightarrow> string \<Rightarrow> 'c DelegateRequest" where
  "delegate_request task node subtaskID idempotencyKey params deadline =
     \<lparr>drParentTaskID = otTaskID task, drSubtaskID = subtaskID, drNodeID = dnID node,
      drTargetAgentNID = dnAgent node, drAction = dnAction node, drParams = params,
      drDelegatedScope = ''{}'', drDeadlineAt = deadline, drIdempotencyKey = idempotencyKey,
      drPriority = effectivePriority task, drContext = otContext task, drDelegateDepth = otDelegateDepth task + 1\<rparr>"

definition mapping_code :: "nps_error \<Rightarrow> string" where
  "mapping_code e = (case e of ErrCode ec msg \<Rightarrow> if ec \<noteq> [] then ec else ''NOP-INPUT-MAPPING-ERROR'' | _ \<Rightarrow> ''NOP-INPUT-MAPPING-ERROR'')"

definition executeNodeOnce ::
    "OrchestratorOptions \<Rightarrow> 'c OrchestratorTask \<Rightarrow> DagNode \<Rightarrow> string \<Rightarrow> string \<Rightarrow> string
     \<Rightarrow> ('c DelegateRequest \<Rightarrow> worker_reply) \<Rightarrow> context_map \<Rightarrow> nodeOutcome" where
  "executeNodeOnce opts task node subtaskID idempotencyKey deadline worker results =
     (case BuildParams (dnInputMapping node) results of
        Inl e \<Rightarrow> node_failed (mapping_code e) (nps_error_text e)
      | Inr params \<Rightarrow>
          (case worker (delegate_request task node subtaskID idempotencyKey params deadline) of
             Inl err \<Rightarrow> node_failed ''NOP-DELEGATE-REJECTED'' err
           | Inr events \<Rightarrow> consume_stream opts node (nodeTimeoutMs task node) 0 events))"

section \<open>Retries\<close>

definition shouldRetry :: "RetryPolicy option \<Rightarrow> string \<Rightarrow> int \<Rightarrow> int \<Rightarrow> bool" where
  "shouldRetry policy errorCode attempt maxRetries =
     (if attempt > maxRetries then False
      else case policy of
        Some p \<Rightarrow> if rpRetryOn p \<noteq> [] \<and> errorCode \<noteq> [] then errorCode \<in> set (rpRetryOn p) else True
      | None \<Rightarrow> True)"

text \<open>What an execution of a node meets: its fresh identifiers, the worker and the deadline of every
  attempt, and whether the task is cancelled before an attempt or in the delay after it.\<close>

record 'c node_env =
  neSubtaskID :: string
  neIdempotencyKey :: string
  neDeadline :: "int \<Rightarrow> string"
  neWorker :: "int \<Rightarrow> 'c DelegateRequest \<Rightarrow> worker_reply"
  neCancelled :: "int \<Rightarrow> bool"
  neCancelledInDelay :: "int \<Rightarrow> bool"

definition subtask_update ::
    "'c OrchestratorTask \<Rightarrow> DagNode \<Rightarrow> 'c node_env \<Rightarrow> TaskState \<Rightarrow> raw \<Rightarrow> string \<Rightarrow> string \<Rightarrow> int \<Rightarrow> SubtaskUpdate" where
  "subtask_update task node env st r ec msg attempt =
     \<lparr>suTaskID = otTaskID task, suNodeID = dnID node, suSubtaskID = neSubtaskID env, suState = st, suResult = r,
      suErrorCode = ec, suErrorMessage = msg, suAttempt = attempt\<rparr>"

definition evaluate_condition :: "string \<Rightarrow> context_map \<Rightarrow> condition_error + bool" where
  "evaluate_condition condition results =
     (case EvaluateCondition condition results of Some r \<Rightarrow> r | None \<Rightarrow> Inl (ConditionError [] []))"

definition condition_gate :: "DagNode \<Rightarrow> context_map \<Rightarrow> condition_error + bool" where
  "condition_gate node results =
     (if dnCondition node \<noteq> [] then evaluate_condition (dnCondition node) results else Inr True)"

definition max_retries :: "'c OrchestratorTask \<Rightarrow> DagNode \<Rightarrow> int" where
  "max_retries task node =
     (case dnRetryPolicy node of Some p \<Rightarrow> uint (rpMaxRetries p) | None \<Rightarrow> uint (otMaxRetries task))"

definition add_updates :: "SubtaskUpdate list \<Rightarrow> nodeOutcome \<times> SubtaskUpdate list \<Rightarrow> nodeOutcome \<times> SubtaskUpdate list" where
  "add_updates us r = (fst r, us @ snd r)"

definition attempt_outcome ::
    "OrchestratorOptions \<Rightarrow> 'c OrchestratorTask \<Rightarrow> DagNode \<Rightarrow> context_map \<Rightarrow> 'c node_env \<Rightarrow> int \<Rightarrow> nodeOutcome" where
  "attempt_outcome opts task node results env attempt =
     executeNodeOnce opts task node (neSubtaskID env) (neIdempotencyKey env) (neDeadline env attempt)
       (neWorker env attempt) results"

text \<open>One turn of the loop: it returns, or the update that it has made before the next attempt.\<close>

definition retry_turn ::
    "OrchestratorOptions \<Rightarrow> 'c OrchestratorTask \<Rightarrow> DagNode \<Rightarrow> context_map \<Rightarrow> 'c node_env \<Rightarrow> int
     \<Rightarrow> nodeOutcome \<times> SubtaskUpdate list + SubtaskUpdate" where
  "retry_turn opts task node results env attempt =
     (let upd = subtask_update task node env
      in if neCancelled env attempt then Inl (node_failed ''NOP-TASK-CANCELLED'' [], [])
         else case (if attempt = 1 then condition_gate node results else Inr True) of
           Inl e \<Rightarrow> Inl (node_failed ''NOP-CONDITION-EVAL-ERROR'' (condition_error_text e),
                      [upd TaskStateFailed [] ''NOP-CONDITION-EVAL-ERROR'' (condition_error_text e) attempt])
         | Inr ok \<Rightarrow>
             if \<not> ok then Inl (node_skipped, [upd TaskStateSkipped [] [] [] attempt])
             else
               let running = upd TaskStateRunning [] [] [] attempt;
                   outcome = attempt_outcome opts task node results env attempt
               in if noState outcome = TaskStateCompleted
                  then Inl (outcome, [running, upd TaskStateCompleted (noResult outcome) [] [] attempt])
                  else if \<not> shouldRetry (dnRetryPolicy node) (noErrorCode outcome) attempt (max_retries task node)
                  then Inl (outcome, [running, upd TaskStateFailed [] (noErrorCode outcome) (noErrorMessage outcome) attempt])
                  else if neCancelledInDelay env attempt
                  then Inl (node_failed ''NOP-TASK-CANCELLED'' [], [running])
                  else Inr running)"

definition retries_exhausted :: "'c OrchestratorTask \<Rightarrow> DagNode \<Rightarrow> 'c node_env \<Rightarrow> nodeOutcome \<times> SubtaskUpdate list" where
  "retries_exhausted task node env =
     (node_failed ''NOP-DELEGATE-TIMEOUT'' [],
      [subtask_update task node env TaskStateFailed [] ''NOP-DELEGATE-TIMEOUT''
         (''Node '' @ quoted_id (dnID node) @ '' exhausted '' @ dec_int (max_retries task node) @ '' retries.'') 0])"

function retry_from ::
    "OrchestratorOptions \<Rightarrow> 'c OrchestratorTask \<Rightarrow> DagNode \<Rightarrow> context_map \<Rightarrow> 'c node_env \<Rightarrow> int
     \<Rightarrow> nodeOutcome \<times> SubtaskUpdate list" where
  "retry_from opts task node results env attempt =
     (if attempt > max_retries task node + 1 then retries_exhausted task node env
      else case retry_turn opts task node results env attempt of
        Inl r \<Rightarrow> r
      | Inr running \<Rightarrow> add_updates [running] (retry_from opts task node results env (attempt + 1)))"
  by pat_completeness auto
termination
  by (relation "measure (\<lambda>(opts, task, node, results, env, attempt). nat (max_retries task node + 2 - attempt))") auto

declare retry_from.simps [simp del]

definition executeNodeWithRetry ::
    "OrchestratorOptions \<Rightarrow> 'c OrchestratorTask \<Rightarrow> DagNode \<Rightarrow> context_map \<Rightarrow> 'c node_env
     \<Rightarrow> nodeOutcome \<times> SubtaskUpdate list" where
  "executeNodeWithRetry opts task node results env = retry_from opts task node results env 1"

section \<open>What executing a node does\<close>

lemma outcome_states [simp]:
  "noState (node_failed ec msg) = TaskStateFailed" "noState (node_completed r) = TaskStateCompleted"
  "noState node_skipped = TaskStateSkipped" "noErrorCode (node_failed ec msg) = ec"
  by (simp_all add: node_failed_def node_completed_def node_skipped_def)

lemma consume_stream_state: "noState (consume_stream opts node ms l es) \<in> {TaskStateCompleted, TaskStateFailed}"
  by (induction opts node ms l es rule: consume_stream.induct) (auto simp: node_timed_out_def split: option.splits)

lemma attempt_state: "noState (attempt_outcome opts task node results env a) \<in> {TaskStateCompleted, TaskStateFailed}"
  using consume_stream_state by (auto simp: attempt_outcome_def executeNodeOnce_def split: sum.splits)

text \<open>An attempt ends the loop when it completed or when its error is not to be retried.\<close>

definition final_attempt ::
    "OrchestratorOptions \<Rightarrow> 'c OrchestratorTask \<Rightarrow> DagNode \<Rightarrow> context_map \<Rightarrow> 'c node_env \<Rightarrow> int \<Rightarrow> bool" where
  "final_attempt opts task node results env a \<longleftrightarrow>
     noState (attempt_outcome opts task node results env a) = TaskStateCompleted
   \<or> \<not> shouldRetry (dnRetryPolicy node) (noErrorCode (attempt_outcome opts task node results env a)) a (max_retries task node)"

lemma max_retries_nonneg: "0 \<le> max_retries task node"
  by (simp add: max_retries_def split: option.splits)

lemma last_attempt_final: "max_retries task node < a \<Longrightarrow> final_attempt opts task node results env a"
  by (simp add: final_attempt_def shouldRetry_def)

definition is_running :: "SubtaskUpdate \<Rightarrow> bool" where
  "is_running u \<longleftrightarrow> suState u = TaskStateRunning"

lemma is_running_update [simp]: "is_running (subtask_update task node env st r ec msg a) \<longleftrightarrow> st = TaskStateRunning"
  by (simp add: is_running_def subtask_update_def)

text \<open>How a turn can go.\<close>

lemma retry_turn_Inl:
  assumes "retry_turn opts task node results env a = Inl (o1, us)"
  shows "noErrorCode o1 = ''NOP-TASK-CANCELLED'' \<and> noState o1 = TaskStateFailed \<and> length (filter is_running us) \<le> 1
        \<and> (neCancelled env a \<or> neCancelledInDelay env a)
    \<or> (\<exists>u. us = [u] \<and> suState u = noState o1 \<and> suResult u = [] \<and> noResult o1 = []
        \<and> noState o1 \<in> {TaskStateFailed, TaskStateSkipped} \<and> a = 1 \<and> condition_gate node results \<noteq> Inr True)
    \<or> (\<exists>r u. us = [r, u] \<and> suState u = noState o1
        \<and> suResult u = (if noState o1 = TaskStateCompleted then noResult o1 else [])
        \<and> o1 = attempt_outcome opts task node results env a \<and> final_attempt opts task node results env a)"
    (is "?cancelled \<or> ?gated \<or> ?final")
proof (cases "neCancelled env a")
  case True
  then have ?cancelled using assms by (simp add: retry_turn_def Let_def) auto
  then show ?thesis ..
next
  case nc: False
  let ?g = "if a = 1 then condition_gate node results else Inr True"
  show ?thesis
  proof (cases ?g)
    case (Inl e)
    then have ?gated using assms nc by (auto simp: retry_turn_def Let_def subtask_update_def node_failed_def split: if_splits)
    then show ?thesis by blast
  next
    case (Inr ok)
    let ?o = "attempt_outcome opts task node results env a"
    consider "\<not> ok" | "ok" "noState ?o = TaskStateCompleted"
      | "ok" "noState ?o \<noteq> TaskStateCompleted" "\<not> shouldRetry (dnRetryPolicy node) (noErrorCode ?o) a (max_retries task node)"
      | "ok" "noState ?o \<noteq> TaskStateCompleted" "shouldRetry (dnRetryPolicy node) (noErrorCode ?o) a (max_retries task node)"
      by blast
    then show ?thesis
    proof cases
      case 1
      then have ?gated using assms nc Inr by (auto simp: retry_turn_def Let_def subtask_update_def node_skipped_def split: if_splits)
      then show ?thesis by blast
    next
      case 2
      then have ?final using assms nc Inr by (simp add: retry_turn_def Let_def final_attempt_def) (auto simp: subtask_update_def)
      then show ?thesis by blast
    next
      case 3
      then have ?final using assms nc Inr attempt_state [of opts task node results env a]
        by (simp add: retry_turn_def Let_def final_attempt_def) (auto simp: subtask_update_def)
      then show ?thesis by blast
    next
      case 4
      then have ?cancelled using assms nc Inr by (simp add: retry_turn_def Let_def split: if_splits) auto
      then show ?thesis ..
    qed
  qed
qed

lemma retry_turn_Inr:
  assumes "retry_turn opts task node results env a = Inr u"
  shows "is_running u \<and> \<not> final_attempt opts task node results env a"
  using assms
  by (cases "if a = 1 then condition_gate node results else Inr True")
     (simp_all add: retry_turn_def Let_def final_attempt_def split: if_splits, auto)

text \<open>The outcome of the first attempt from \<open>a\<close> on that ends the loop.\<close>

definition first_final ::
    "OrchestratorOptions \<Rightarrow> 'c OrchestratorTask \<Rightarrow> DagNode \<Rightarrow> context_map \<Rightarrow> 'c node_env \<Rightarrow> int \<Rightarrow> nodeOutcome \<Rightarrow> bool" where
  "first_final opts task node results env a outcome \<longleftrightarrow>
     (\<exists>b\<ge>a. b \<le> max_retries task node + 1 \<and> outcome = attempt_outcome opts task node results env b
        \<and> final_attempt opts task node results env b
        \<and> (\<forall>c. a \<le> c \<and> c < b \<longrightarrow> \<not> final_attempt opts task node results env c))"

lemma first_final_here:
  "final_attempt opts task node results env a \<Longrightarrow> a \<le> max_retries task node + 1 \<Longrightarrow>
     first_final opts task node results env a (attempt_outcome opts task node results env a)"
  by (auto simp: first_final_def)

lemma first_final_later:
  assumes "first_final opts task node results env (a + 1) outcome" and "\<not> final_attempt opts task node results env a"
  shows "first_final opts task node results env a outcome"
proof -
  obtain b where b: "a + 1 \<le> b" "b \<le> max_retries task node + 1" "outcome = attempt_outcome opts task node results env b"
    "final_attempt opts task node results env b" "\<And>c. a + 1 \<le> c \<Longrightarrow> c < b \<Longrightarrow> \<not> final_attempt opts task node results env c"
    using assms(1) unfolding first_final_def by blast
  have "\<not> final_attempt opts task node results env c" if "a \<le> c" "c < b" for c
    using b(5) [of c] assms(2) that by (cases "c = a") simp_all
  then show ?thesis unfolding first_final_def using b(1-4) by (intro exI [of _ b]) simp
qed

text \<open>What the loop from attempt \<open>a\<close> on returns and tells the store.\<close>

definition undisturbed :: "'c node_env \<Rightarrow> bool" where
  "undisturbed env \<longleftrightarrow> (\<forall>i. \<not> neCancelled env i \<and> \<not> neCancelledInDelay env i)"

definition loop_ok ::
    "OrchestratorOptions \<Rightarrow> 'c OrchestratorTask \<Rightarrow> DagNode \<Rightarrow> context_map \<Rightarrow> 'c node_env \<Rightarrow> int
     \<Rightarrow> nodeOutcome \<times> SubtaskUpdate list \<Rightarrow> bool" where
  "loop_ok opts task node results env a r \<longleftrightarrow>
     noState (fst r) \<in> {TaskStateCompleted, TaskStateFailed, TaskStateSkipped}
   \<and> int (length (filter is_running (snd r))) \<le> max_retries task node + 2 - a
   \<and> (noErrorCode (fst r) = ''NOP-TASK-CANCELLED'' \<or> (snd r \<noteq> [] \<and> suState (last (snd r)) = noState (fst r)))
   \<and> (undisturbed env \<and> (a = 1 \<longrightarrow> condition_gate node results = Inr True)
       \<longrightarrow> first_final opts task node results env a (fst r))"

lemma loop_ok_return:
  assumes "retry_turn opts task node results env a = Inl r" and "a \<le> max_retries task node + 1"
  shows "loop_ok opts task node results env a r"
proof -
  obtain o1 us where r: "r = (o1, us)" by (cases r)
  from retry_turn_Inl [OF assms(1) [unfolded r]] show ?thesis
  proof (elim disjE exE conjE, goal_cases)
    case (1)
    then show ?case using assms(2) by (auto simp: loop_ok_def r undisturbed_def)
  next
    case 2
    then show ?case using assms(2) by (auto simp: loop_ok_def r undisturbed_def)
  next
    case (3 u)
    then show ?case using assms(2) by (auto simp: loop_ok_def r is_running_def)
  next
    case (4 q u)
    then show ?case using assms(2) attempt_state [of opts task node results env a] first_final_here [of opts task node results env a]
      by (auto simp: loop_ok_def r is_running_def)
  qed
qed

lemma loop_ok_more:
  assumes "loop_ok opts task node results env (a + 1) r" and "is_running u" and "1 \<le> a"
    and "\<not> final_attempt opts task node results env a"
  shows "loop_ok opts task node results env a (add_updates [u] r)"
  using assms first_final_later [of opts task node results env a "fst r"] by (auto simp: loop_ok_def add_updates_def)

lemma retry_from_ok:
  "1 \<le> a \<Longrightarrow> a \<le> max_retries task node + 1 \<Longrightarrow>
     loop_ok opts task node results env a (retry_from opts task node results env a)"
proof (induction opts task node results env a rule: retry_from.induct)
  case (1 opts task node results env a)
  show ?case
  proof (cases "retry_turn opts task node results env a")
    case (Inl r)
    then show ?thesis using loop_ok_return [OF Inl] 1 by (simp add: retry_from.simps [of opts task node results env a])
  next
    case (Inr u)
    then have u: "\<not> final_attempt opts task node results env a" "is_running u" using retry_turn_Inr by blast+
    then have "a + 1 \<le> max_retries task node + 1" using last_attempt_final [of task node a opts results env] by linarith
    then have "loop_ok opts task node results env (a + 1) (retry_from opts task node results env (a + 1))"
      using 1 Inr by simp
    from loop_ok_more [OF this u(2) "1.prems"(1) u(1)] show ?thesis
      using Inr "1.prems" by (simp add: retry_from.simps [of opts task node results env a])
  qed
qed

text \<open>C10: Executing a node.  Every execution ends with the node completed, failed or skipped after at most
  one attempt more than the retries it is allowed, and unless the task was cancelled the last update of
  the store carries the outcome's state.  If its condition holds and nothing is cancelled, the outcome is
  that of the first attempt that completes or whose error is not to be retried.\<close>

theorem node_execution:
  assumes "executeNodeWithRetry opts task node results env = (outcome, updates)"
  shows "noState outcome \<in> {TaskStateCompleted, TaskStateFailed, TaskStateSkipped}
    \<and> int (length (filter is_running updates)) \<le> max_retries task node + 1
    \<and> (noErrorCode outcome = ''NOP-TASK-CANCELLED''
        \<or> (updates \<noteq> [] \<and> suState (last updates) = noState outcome))
    \<and> (undisturbed env \<and> condition_gate node results = Inr True
        \<longrightarrow> (\<exists>b\<ge>1. b \<le> max_retries task node + 1 \<and> outcome = attempt_outcome opts task node results env b
             \<and> final_attempt opts task node results env b
             \<and> (\<forall>c. 1 \<le> c \<and> c < b \<longrightarrow> \<not> final_attempt opts task node results env c)))"
  using retry_from_ok [of 1 task node opts results env] assms max_retries_nonneg [of task node]
  by (simp add: loop_ok_def executeNodeWithRetry_def first_final_def)

definition sample_task :: "unit OrchestratorTask" where
  "sample_task = \<lparr>otTaskID = ''t'', otDag = None, otTimeoutMs = 0, otMaxRetries = 2, otPriority = [],
     otCallbackURL = [], otCallbackSecret = [], otPreflight = False, otContext = None, otRequestID = [],
     otDelegateDepth = 0, otCompensationPolicy = []\<rparr>"

definition sample_node :: "string \<Rightarrow> string list \<Rightarrow> DagNode" where
  "sample_node nid inputs = \<lparr>dnID = nid, dnAction = ''act'', dnAgent = ''agent'', dnInputFrom = inputs,
     dnInputMapping = [], dnTimeoutMs = None, dnRetryPolicy = None, dnCondition = [], dnMinRequired = 0,
     dnCompensateAction = [], dnCompensateParamsMapping = []\<rparr>"

definition sample_env :: "unit node_env" where
  "sample_env = \<lparr>neSubtaskID = ''s'', neIdempotencyKey = ''k'', neDeadline = (\<lambda>a. []),
     neWorker = (\<lambda>a r. if a = 1 then Inl ''busy''
        else Inr [StreamFrame \<lparr>wfStreamID = [], wfTaskID = [], wfSubtaskID = [], wfSeq = 0, wfData = ''1'',
                    wfIsFinal = True, wfSenderNID = ''agent'', wfError = None\<rparr>]),
     neCancelled = (\<lambda>a. False), neCancelledInDelay = (\<lambda>a. False)\<rparr>"

text \<open>The first attempt is rejected and retried, the second completes.\<close>

theorem node_execution_witness:
  "noState (fst (executeNodeWithRetry (DefaultOrchestratorOptions 1) sample_task (sample_node ''n'' []) [] sample_env))
     = TaskStateCompleted
   \<and> (\<exists>b\<ge>1. fst (executeNodeWithRetry (DefaultOrchestratorOptions 1) sample_task (sample_node ''n'' []) [] sample_env)
        = attempt_outcome (DefaultOrchestratorOptions 1) sample_task (sample_node ''n'' []) [] sample_env b)"
proof -
  let ?r = "executeNodeWithRetry (DefaultOrchestratorOptions 1) sample_task (sample_node ''n'' []) [] sample_env"
  have "undisturbed sample_env" "condition_gate (sample_node ''n'' []) [] = Inr True"
    by (simp_all add: undisturbed_def sample_env_def condition_gate_def sample_node_def)
  with node_execution [of "DefaultOrchestratorOptions 1" sample_task "sample_node ''n'' []" "[]" sample_env "fst ?r" "snd ?r"]
  have "\<exists>b\<ge>1. fst ?r = attempt_outcome (DefaultOrchestratorOptions 1) sample_task (sample_node ''n'' []) [] sample_env b"
    by auto
  moreover have "noState (fst ?r) = TaskStateCompleted" by code_simp
  ultimately show ?thesis by blast
qed

end
