(* ===== verification/Nop_Scheduler.thy ===== *)
theory Nop_Scheduler
  imports Nop_Node
begin

text \<open>
  Running a task graph (\<open>runDag\<close> of \<open>nop/orchestrator.go\<close>).  The loop's variables are a record; one
  turn of the loop up to the point where it waits is \<open>loop_top\<close>, and the message of a node that has
  finished is handled by \<open>receive\<close>.  Which of the running nodes finishes next is open: the runs of the
  scheduler are the sequences of a step relation.  The fields \<open>dsLaunched\<close> and \<open>dsUpdates\<close> keep what
  the code has started and told the store.
\<close>

section \<open>Dependencies\<close>

type_synonym node_states = "(string \<times> TaskState) list"

definition countDeps :: "string list \<Rightarrow> node_states \<Rightarrow> TaskState list \<Rightarrow> int" where
  "countDeps deps states match =
     int (length (filter (\<lambda>d. case map_of states d of Some s \<Rightarrow> s \<in> set match | None \<Rightarrow> False) deps))"

text \<open>The number of inputs that must succeed, as the code reads \<open>min_required\<close> into an \<open>int\<close>.\<close>

definition required :: "DagNode \<Rightarrow> int" where
  "required node = (if dnMinRequired node > 0 then sint (dnMinRequired node) else int (length (dnInputFrom node)))"

definition succeeded :: "DagNode \<Rightarrow> node_states \<Rightarrow> int" where
  "succeeded node states = countDeps (dnInputFrom node) states [TaskStateCompleted, TaskStateSkipped]"

definition areDepsDone :: "DagNode \<Rightarrow> node_states \<Rightarrow> bool" where
  "areDepsDone node states =
     (dnInputFrom node = []
      \<or> succeeded node states \<ge> required node
      \<or> int (length (dnInputFrom node)) - countDeps (dnInputFrom node) states [TaskStateFailed] < required node)"

definition canEndNodeStillSucceed :: "DagNode \<Rightarrow> node_states \<Rightarrow> bool" where
  "canEndNodeStillSucceed node states =
     (dnInputFrom node \<noteq> []
      \<and> int (length (dnInputFrom node)) - countDeps (dnInputFrom node) states [TaskStateFailed] \<ge> required node)"

function reach_from :: "DagEdge list \<Rightarrow> string \<Rightarrow> string list \<Rightarrow> string list \<Rightarrow> bool" where
  "reach_from es endNodeID visited [] = False"
| "reach_from es endNodeID visited (cur # queue) =
     (if cur = endNodeID then True
      else if cur \<in> set visited then reach_from es endNodeID visited queue
      else reach_from es endNodeID (cur # visited) (queue @ adjacency es cur))"
  by pat_completeness auto
termination
proof (relation "measures [\<lambda>(es, e, visited, queue). card (deFrom ` set es - set visited), \<lambda>(es, e, visited, queue). length queue]", goal_cases)
  case (3 es endNodeID visited cur queue)
  show ?case
  proof (cases "cur \<in> deFrom ` set es")
    case True
    then have "deFrom ` set es - set (cur # visited) \<subset> deFrom ` set es - set visited" using 3 by auto
    then show ?thesis by (simp add: psubset_card_mono)
  next
    case False
    then have "adjacency es cur = []" by (auto simp: adjacency_def successors_def edge_list_def filter_empty_conv)
    moreover from False have "deFrom ` set es - set (cur # visited) = deFrom ` set es - set visited" by auto
    ultimately show ?thesis by simp
  qed
qed auto

definition canReachEndNode :: "string \<Rightarrow> string \<Rightarrow> DagEdge list \<Rightarrow> bool" where
  "canReachEndNode endNodeID failedNodeID es = reach_from es endNodeID [] [failedNodeID]"

section \<open>The loop\<close>

record dag_state =
  dsStates :: node_states
  dsResults :: context_map
  dsInFlight :: "string list"
  dsLaunched :: "(string \<times> DagNode \<times> context_map) list"
  dsUpdates :: "SubtaskUpdate list"

definition dag_init :: dag_state where
  "dag_init = \<lparr>dsStates = [], dsResults = [], dsInFlight = [], dsLaunched = [], dsUpdates = []\<rparr>"

definition ready_nodes :: "TaskDag \<Rightarrow> dag_state \<Rightarrow> DagNode list" where
  "ready_nodes dag s =
     filter (\<lambda>n. map_of (dsStates s) (dnID n) = None \<and> dnID n \<notin> set (dsInFlight s) \<and> areDepsDone n (dsStates s))
       (tdNodes dag)"

text \<open>The K-of-N pass over the ready nodes: those that can no longer reach their number of inputs fail.\<close>

definition dependency_failed :: "'c OrchestratorTask \<Rightarrow> (string \<Rightarrow> string) \<Rightarrow> DagNode \<Rightarrow> node_states \<Rightarrow> SubtaskUpdate" where
  "dependency_failed task newUUID n states =
     \<lparr>suTaskID = otTaskID task, suNodeID = dnID n, suSubtaskID = newUUID (dnID n), suState = TaskStateFailed,
      suResult = [], suErrorCode = ''NOP-SYNC-DEPENDENCY-FAILED'',
      suErrorMessage = ''Only '' @ dec_int (succeeded n states) @ ''/'' @ dec_int (required n)
                       @ '' required dependencies succeeded.'',
      suAttempt = 0\<rparr>"

fun filter_ready ::
    "'c OrchestratorTask \<Rightarrow> (string \<Rightarrow> string) \<Rightarrow> DagNode list \<Rightarrow> dag_state \<Rightarrow> DagNode list \<times> dag_state" where
  "filter_ready task newUUID [] s = ([], s)"
| "filter_ready task newUUID (n # ns) s =
     (if dnInputFrom n = [] \<or> succeeded n (dsStates s) \<ge> required n
      then (let (rs, s') = filter_ready task newUUID ns s in (n # rs, s'))
      else filter_ready task newUUID ns
             (s\<lparr>dsStates := AList.update (dnID n) TaskStateFailed (dsStates s),
                dsUpdates := dsUpdates s @ [dependency_failed task newUUID n (dsStates s)]\<rparr>))"

fun launch_nodes :: "int \<Rightarrow> DagNode list \<Rightarrow> dag_state \<Rightarrow> dag_state" where
  "launch_nodes mx [] s = s"
| "launch_nodes mx (n # ns) s =
     (if int (length (dsInFlight s)) \<ge> mx then s
      else launch_nodes mx ns
             (s\<lparr>dsInFlight := dnID n # dsInFlight s,
                dsLaunched := dsLaunched s @ [(dnID n, n, dsResults s)]\<rparr>))"

datatype dag_end = LoopEnded | Aborted string string

datatype dag_config = AtTop dag_state | Waiting dag_state | Stopped dag_end dag_state

definition loop_top ::
    "OrchestratorOptions \<Rightarrow> 'c OrchestratorTask \<Rightarrow> (string \<Rightarrow> string) \<Rightarrow> TaskDag \<Rightarrow> bool \<Rightarrow> dag_state \<Rightarrow> dag_config" where
  "loop_top opts task newUUID dag cancelled s =
     (if \<not> length (dsStates s) < length (remdups (map dnID (tdNodes dag))) then Stopped LoopEnded s
      else if cancelled then Stopped (Aborted ''NOP-TASK-CANCELLED'' ''Task cancelled.'') s
      else let (ready, s1) = filter_ready task newUUID (ready_nodes dag s) s;
               s2 = launch_nodes (ooMaxConcurrentNodes opts) ready s1
           in if dsInFlight s2 = [] then Stopped LoopEnded s2 else Waiting s2)"

definition end_nodes :: "TaskDag \<Rightarrow> DagNode list" where
  "end_nodes dag = filter (\<lambda>n. dnID n \<notin> deFrom ` set (tdEdges dag)) (tdNodes dag)"

definition must_abort :: "TaskDag \<Rightarrow> node_states \<Rightarrow> string \<Rightarrow> bool" where
  "must_abort dag states nodeID =
     list_ex (\<lambda>e. canReachEndNode (dnID e) nodeID (tdEdges dag) \<and> \<not> canEndNodeStillSucceed e states) (end_nodes dag)"

definition receive :: "TaskDag \<Rightarrow> dag_state \<Rightarrow> string \<Rightarrow> nodeOutcome \<Rightarrow> dag_config" where
  "receive dag s nodeID outcome =
     (let s1 = s\<lparr>dsInFlight := removeAll nodeID (dsInFlight s),
                 dsStates := AList.update nodeID (noState outcome) (dsStates s),
                 dsResults := (if noState outcome = TaskStateCompleted \<and> noResult outcome \<noteq> []
                               then AList.update nodeID (noResult outcome) (dsResults s) else dsResults s)\<rparr>
      in if noState outcome = TaskStateFailed \<and> must_abort dag (dsStates s1) nodeID
         then Stopped (Aborted ''NOP-SYNC-DEPENDENCY-FAILED''
                         (''Node '' @ quoted_id nodeID @ '' failed: '' @ noErrorCode outcome)) (s1\<lparr>dsInFlight := []\<rparr>)
         else AtTop s1)"

text \<open>A running node finishes with any outcome that executing it on its snapshot of the results can
  have.\<close>

inductive dag_step ::
    "OrchestratorOptions \<Rightarrow> 'c OrchestratorTask \<Rightarrow> (string \<Rightarrow> string) \<Rightarrow> TaskDag \<Rightarrow> dag_config \<Rightarrow> dag_config \<Rightarrow> bool"
  for opts task newUUID dag where
  top: "dag_step opts task newUUID dag (AtTop s) (loop_top opts task newUUID dag cancelled s)"
| finished: "nodeID \<in> set (dsInFlight s) \<Longrightarrow> map_of (dsLaunched s) nodeID = Some (node, results) \<Longrightarrow>
     outcome = fst (executeNodeWithRetry opts task node results env) \<Longrightarrow>
     dag_step opts task newUUID dag (Waiting s) (receive dag s nodeID outcome)"

inductive_cases top_stepE: "dag_step opts task newUUID dag (AtTop s) c"
inductive_cases waiting_stepE: "dag_step opts task newUUID dag (Waiting s) c"
inductive_cases stopped_stepE: "dag_step opts task newUUID dag (Stopped e s) c"

section \<open>Compensation and the result\<close>

record 'c saga_env =
  sgSubtaskID :: "string \<Rightarrow> string"
  sgIdempotencyKey :: "string \<Rightarrow> string"
  sgDeadline :: "string \<Rightarrow> string"
  sgWorker :: "string \<Rightarrow> 'c DelegateRequest \<Rightarrow> worker_reply"

definition node_of :: "TaskDag \<Rightarrow> string \<Rightarrow> DagNode option" where
  "node_of dag nid = map_of (rev (map (\<lambda>n. (dnID n, n)) (tdNodes dag))) nid"

definition compensation_node :: "DagNode \<Rightarrow> DagNode" where
  "compensation_node node =
     \<lparr>dnID = dnID node, dnAction = dnCompensateAction node, dnAgent = dnAgent node, dnInputFrom = [],
      dnInputMapping = dnCompensateParamsMapping node, dnTimeoutMs = dnTimeoutMs node, dnRetryPolicy = None,
      dnCondition = [], dnMinRequired = 0, dnCompensateAction = [], dnCompensateParamsMapping = []\<rparr>"

definition completed_nodes :: "TaskDag \<Rightarrow> string list \<Rightarrow> node_states \<Rightarrow> DagNode list" where
  "completed_nodes dag topoOrder states =
     List.map_filter (\<lambda>nid. if map_of states nid = Some TaskStateCompleted then node_of dag nid else None) (rev topoOrder)"

definition compensate ::
    "OrchestratorOptions \<Rightarrow> 'c OrchestratorTask \<Rightarrow> 'c saga_env \<Rightarrow> context_map \<Rightarrow> DagNode \<Rightarrow> nodeOutcome" where
  "compensate opts task env results node =
     executeNodeOnce opts task (compensation_node node) (sgSubtaskID env (dnID node)) (sgIdempotencyKey env (dnID node))
       (sgDeadline env (dnID node)) (sgWorker env (dnID node)) results"

text \<open>The second component tells whether the task's state was set to compensating.\<close>

definition runSagaCompensation ::
    "OrchestratorOptions \<Rightarrow> 'c OrchestratorTask \<Rightarrow> 'c saga_env \<Rightarrow> TaskDag \<Rightarrow> string list \<Rightarrow> context_map \<Rightarrow> node_states
     \<Rightarrow> SagaCompensationResult \<times> bool" where
  "runSagaCompensation opts task env dag topoOrder results states =
     (let completed = completed_nodes dag topoOrder states;
          missing = filter (\<lambda>n. dnCompensateAction n = []) completed;
          toCompensate = filter (\<lambda>n. dnCompensateAction n \<noteq> []) completed
      in if CompensationIsStrict (effectiveCompensationPolicy task) \<and> missing \<noteq> []
         then (\<lparr>scAttempted = 0, scSucceeded = 0, scFailed = int (length missing), scFailedNodeIDs = map dnID missing\<rparr>, False)
         else if toCompensate = [] then (\<lparr>scAttempted = 0, scSucceeded = 0, scFailed = 0, scFailedNodeIDs = []\<rparr>, False)
         else let failed = filter (\<lambda>n. noState (compensate opts task env results n) \<noteq> TaskStateCompleted) toCompensate
              in (\<lparr>scAttempted = int (length toCompensate),
                   scSucceeded = int (length toCompensate) - int (length failed),
                   scFailed = int (length failed), scFailedNodeIDs = map dnID failed\<rparr>, True))"

definition compensationFailureErrorCode :: "'c OrchestratorTask \<Rightarrow> SagaCompensationResult option \<Rightarrow> string" where
  "compensationFailureErrorCode task saga =
     (case saga of
        None \<Rightarrow> []
      | Some r \<Rightarrow> if \<not> CompensationIsStrict (effectiveCompensationPolicy task) \<or> scFailed r = 0 then []
                  else if scAttempted r = 0 then ''NOP-COMPENSATION-NOT-SUPPORTED''
                  else ''NOP-COMPENSATION-FAILED'')"

definition buildAbortResult ::
    "OrchestratorOptions \<Rightarrow> 'c OrchestratorTask \<Rightarrow> 'c saga_env \<Rightarrow> TaskDag \<Rightarrow> string list \<Rightarrow> dag_state \<Rightarrow> string \<Rightarrow> string
     \<Rightarrow> NopTaskResult \<times> bool" where
  "buildAbortResult opts task env dag topoOrder s defaultCode message =
     (let run = CompensationRunsOnFailure (effectiveCompensationPolicy task);
          (saga, marked) = runSagaCompensation opts task env dag topoOrder (dsResults s) (dsStates s);
          r = (if run then Some saga else None);
          ec = compensationFailureErrorCode task r
      in (newFailureResult (otTaskID task) (if ec = [] then defaultCode else ec) message r, run \<and> marked))"

definition joinStrings :: "string list \<Rightarrow> string" where
  "joinStrings ss = join_with '', '' ss"

text \<open>The failed nodes are listed in the order in which they failed; the code takes the order of a Go map.\<close>

definition dag_result ::
    "OrchestratorOptions \<Rightarrow> 'c OrchestratorTask \<Rightarrow> 'c saga_env \<Rightarrow> TaskDag \<Rightarrow> string list \<Rightarrow> dag_end \<Rightarrow> dag_state
     \<Rightarrow> NopTaskResult \<times> bool" where
  "dag_result opts task env dag topoOrder e s =
     (case e of
        Aborted ec msg \<Rightarrow> buildAbortResult opts task env dag topoOrder s ec msg
      | LoopEnded \<Rightarrow>
          let failedNodes = map fst (filter (\<lambda>(n, st). st = TaskStateFailed) (dsStates s));
              endFailed = list_ex (\<lambda>n. map_of (dsStates s) (dnID n) = Some TaskStateFailed) (end_nodes dag)
          in if failedNodes \<noteq> [] \<and> endFailed
             then buildAbortResult opts task env dag topoOrder s ''NOP-SYNC-DEPENDENCY-FAILED''
                    (''End node(s) failed: '' @ joinStrings failedNodes)
             else let run = CompensationRunsOnSuccess (effectiveCompensationPolicy task);
                      (saga, marked) = runSagaCompensation opts task env dag topoOrder (dsResults s) (dsStates s)
                  in (newSuccessResult (otTaskID task)
                        (AggregateEndNodes (map dnID (end_nodes dag)) (dsResults s) (ooDefaultAggregateStrategy opts))
                        (dsResults s) (if run then Some saga else None), run \<and> marked))"

section \<open>Reaching an end node\<close>

abbreviation edge_rel :: "DagEdge list \<Rightarrow> (string \<times> string) set" where
  "edge_rel es \<equiv> set (edge_list es)"

lemma set_adjacency: "set (adjacency es v) = {w. (v, w) \<in> edge_rel es}"
  by (force simp: adjacency_def successors_def)

definition explored :: "DagEdge list \<Rightarrow> string \<Rightarrow> string list \<Rightarrow> string list \<Rightarrow> bool" where
  "explored es e visited queue \<longleftrightarrow>
     e \<notin> set visited \<and> (\<forall>v w. v \<in> set visited \<and> (v, w) \<in> edge_rel es \<longrightarrow> w \<in> set visited \<union> set queue)"

lemma explored_exit:
  assumes "(v, e) \<in> (edge_rel es)\<^sup>*" and "v \<in> set visited" and "explored es e visited queue"
  shows "\<exists>q\<in>set queue. (q, e) \<in> (edge_rel es)\<^sup>*"
  using assms(1,2)
proof (induction rule: converse_rtrancl_induct)
  case base
  then show ?case using assms(3) by (simp add: explored_def)
next
  case (step v w)
  then have "w \<in> set visited \<union> set queue" using assms(3) by (auto simp: explored_def)
  then show ?case using step by blast
qed

lemma reach_from_iff:
  "explored es e visited queue \<Longrightarrow> reach_from es e visited queue \<longleftrightarrow> (\<exists>q\<in>set queue. (q, e) \<in> (edge_rel es)\<^sup>*)"
proof (induction es e visited queue rule: reach_from.induct)
  case (2 es e visited cur queue)
  consider "cur = e" | "cur \<noteq> e" "cur \<in> set visited" | "cur \<noteq> e" "cur \<notin> set visited" by blast
  then show ?case
  proof cases
    case 2
    then have x: "explored es e visited queue" using "2.prems" by (auto simp: explored_def)
    then show ?thesis using 2 "2.IH"(1) explored_exit [OF _ 2(2) x] by auto
  next
    case 3
    then have x: "explored es e (cur # visited) (queue @ adjacency es cur)"
      using "2.prems" by (auto simp: explored_def set_adjacency)
    have "(cur, e) \<in> (edge_rel es)\<^sup>* \<longleftrightarrow> (\<exists>w\<in>set (adjacency es cur). (w, e) \<in> (edge_rel es)\<^sup>*)"
      using 3(1) by (auto simp: set_adjacency intro: converse_rtrancl_into_rtrancl elim: converse_rtranclE)
    then show ?thesis using 3 "2.IH"(2) x by auto
  qed simp
qed simp

lemma canReachEndNode_iff: "canReachEndNode e n es \<longleftrightarrow> (n, e) \<in> (edge_rel es)\<^sup>*"
  using reach_from_iff [of es e "[]" "[n]"] by (simp add: canReachEndNode_def explored_def)

section \<open>The invariant of the loop\<close>

definition succ_state :: "TaskState option \<Rightarrow> bool" where
  "succ_state st \<longleftrightarrow> st = Some TaskStateCompleted \<or> st = Some TaskStateSkipped"

lemma succeeded_eq: "succeeded n states = int (length (filter (\<lambda>d. succ_state (map_of states d)) (dnInputFrom n)))"
proof -
  have "(case map_of states d of None \<Rightarrow> False | Some s \<Rightarrow> s \<in> set [TaskStateCompleted, TaskStateSkipped])
      = succ_state (map_of states d)" for d
    by (auto simp: succ_state_def split: option.splits)
  then show ?thesis by (simp add: succeeded_def countDeps_def)
qed

text \<open>States are only ever added.\<close>

definition extends :: "node_states \<Rightarrow> node_states \<Rightarrow> bool" where
  "extends a b \<longleftrightarrow> map_of a \<subseteq>\<^sub>m map_of b"

lemma extends_succeeded: "extends a b \<Longrightarrow> succeeded n a \<le> succeeded n b"
proof -
  assume "extends a b"
  then have "succ_state (map_of a d) \<Longrightarrow> succ_state (map_of b d)" for d
    by (auto simp: extends_def succ_state_def map_le_def dom_def)
  then have "length (filter (\<lambda>d. succ_state (map_of a d)) ds) \<le> length (filter (\<lambda>d. succ_state (map_of b d)) ds)" for ds
    by (induction ds) auto
  then show ?thesis by (simp add: succeeded_eq)
qed

lemma extends_refl: "extends a a"
  by (simp add: extends_def)

lemma extends_update: "map_of a n = None \<Longrightarrow> extends a (AList.update n st a)"
  by (auto simp: extends_def map_le_def update_conv')

definition may_start :: "DagNode \<Rightarrow> node_states \<Rightarrow> bool" where
  "may_start n states \<longleftrightarrow> dnInputFrom n = [] \<or> required n \<le> succeeded n states"

lemma may_start_extends: "may_start n a \<Longrightarrow> extends a b \<Longrightarrow> may_start n b"
  using extends_succeeded [of a b n] by (auto simp: may_start_def)

definition results_ok :: "context_map \<Rightarrow> node_states \<Rightarrow> bool" where
  "results_ok results states \<longleftrightarrow> (\<forall>n r. map_of results n = Some r \<longrightarrow> map_of states n = Some TaskStateCompleted \<and> r \<noteq> [])"

definition dag_inv :: "OrchestratorOptions \<Rightarrow> TaskDag \<Rightarrow> dag_state \<Rightarrow> bool" where
  "dag_inv opts dag s \<longleftrightarrow>
     distinct (map fst (dsStates s)) \<and> fst ` set (dsStates s) \<subseteq> dnID ` set (tdNodes dag)
   \<and> distinct (dsInFlight s) \<and> set (dsInFlight s) \<inter> fst ` set (dsStates s) = {}
   \<and> (dsInFlight s = [] \<or> int (length (dsInFlight s)) \<le> ooMaxConcurrentNodes opts)
   \<and> distinct (map fst (dsLaunched s)) \<and> set (dsInFlight s) \<subseteq> fst ` set (dsLaunched s)
   \<and> results_ok (dsResults s) (dsStates s)
   \<and> list_all (\<lambda>(nid, n, snap). dnID n = nid \<and> n \<in> set (tdNodes dag) \<and> may_start n (dsStates s)
                \<and> map_of snap \<subseteq>\<^sub>m map_of (dsResults s)) (dsLaunched s)"

definition tracked :: "dag_state \<Rightarrow> bool" where
  "tracked s \<longleftrightarrow> fst ` set (dsLaunched s) \<subseteq> set (dsInFlight s) \<union> fst ` set (dsStates s)"

definition idle :: "dag_state \<Rightarrow> DagNode list \<Rightarrow> bool" where
  "idle s ns \<longleftrightarrow> distinct (map dnID ns) \<and> dnID ` set ns \<inter> (fst ` set (dsStates s) \<union> set (dsInFlight s)) = {}"

lemma idle_Cons:
  "idle s (n # ns) \<longleftrightarrow> dnID n \<notin> fst ` set (dsStates s) \<and> dnID n \<notin> set (dsInFlight s) \<and> dnID n \<notin> dnID ` set ns \<and> idle s ns"
  by (auto simp: idle_def)

lemma set_update_keys: "fst ` set (AList.update k v xs) = insert k (fst ` set xs)"
  using dom_update [of k v xs] by (simp add: dom_map_of_conv_image_fst [symmetric])

lemma results_ok_extends: "results_ok r a \<Longrightarrow> extends a b \<Longrightarrow> results_ok r b"
  by (fastforce simp: results_ok_def extends_def map_le_def dom_def)

lemma launched_extends:
  assumes "list_all (\<lambda>(nid, n, snap). dnID n = nid \<and> n \<in> A \<and> may_start n a \<and> map_of snap \<subseteq>\<^sub>m r) xs" and "extends a b"
    and "r \<subseteq>\<^sub>m r'"
  shows "list_all (\<lambda>(nid, n, snap). dnID n = nid \<and> n \<in> A \<and> may_start n b \<and> map_of snap \<subseteq>\<^sub>m r') xs"
  using assms(1) by (rule list.pred_mono_strong) (use assms(2,3) in \<open>auto intro: may_start_extends map_le_trans\<close>)

lemma dag_inv_fail:
  assumes "dag_inv opts dag s" and "idle s [n]" and "n \<in> set (tdNodes dag)"
  shows "dag_inv opts dag (s\<lparr>dsStates := AList.update (dnID n) st (dsStates s), dsUpdates := us\<rparr>)"
proof -
  have x: "extends (dsStates s) (AList.update (dnID n) st (dsStates s))"
    using assms(2) by (intro extends_update) (auto simp: idle_def map_of_eq_None_iff)
  show ?thesis
    using assms launched_extends [OF _ x map_le_refl] results_ok_extends [OF _ x]
    by (auto simp: dag_inv_def idle_def set_update_keys distinct_update)
qed

lemma may_start_fail:
  "map_of states k = None \<Longrightarrow> may_start n (AList.update k TaskStateFailed states) \<longleftrightarrow> may_start n states"
proof -
  assume "map_of states k = None"
  then have "succ_state (map_of (AList.update k TaskStateFailed states) d) = succ_state (map_of states d)" for d
    by (simp add: update_conv' succ_state_def)
  then show ?thesis by (simp add: may_start_def succeeded_eq)
qed

lemma filter_ready_inv:
  "filter_ready task u ns s = (rs, t) \<Longrightarrow> dag_inv opts dag s \<Longrightarrow> tracked s \<Longrightarrow> idle s ns \<Longrightarrow> set ns \<subseteq> set (tdNodes dag) \<Longrightarrow>
     dag_inv opts dag t \<and> tracked t \<and> idle t rs \<and> dsInFlight t = dsInFlight s \<and> dsResults t = dsResults s
   \<and> extends (dsStates s) (dsStates t) \<and> (\<forall>n. may_start n (dsStates t) \<longleftrightarrow> may_start n (dsStates s))
   \<and> fst ` set (dsStates t) \<subseteq> fst ` set (dsStates s) \<union> dnID ` (set ns - set rs)
   \<and> set rs = {n \<in> set ns. may_start n (dsStates s)}"
proof (induction ns arbitrary: s rs)
  case Nil
  then show ?case by (auto simp: extends_refl)
next
  case (Cons n ns)
  show ?case
  proof (cases "dnInputFrom n = [] \<or> required n \<le> succeeded n (dsStates s)")
    case True
    then obtain qs where q: "filter_ready task u ns s = (qs, t)" "rs = n # qs"
      using Cons.prems(1) by (cases "filter_ready task u ns s") auto
    have "idle s ns" "set ns \<subseteq> set (tdNodes dag)" using Cons.prems(4,5) by (auto simp: idle_Cons)
    note IH = Cons.IH [OF q(1) Cons.prems(2,3) this]
    then have "idle t rs" using Cons.prems(4) q(2) by (auto simp: idle_Cons)
    moreover have "may_start n (dsStates s)" using True by (simp add: may_start_def)
    moreover have "n \<notin> set ns" using Cons.prems(4) by (auto simp: idle_Cons)
    ultimately show ?thesis using IH q(2) by auto
  next
    case False
    let ?s = "s\<lparr>dsStates := AList.update (dnID n) TaskStateFailed (dsStates s),
                dsUpdates := dsUpdates s @ [dependency_failed task u n (dsStates s)]\<rparr>"
    have f: "filter_ready task u ns ?s = (rs, t)" using Cons.prems(1) False by simp
    have no: "map_of (dsStates s) (dnID n) = None" using Cons.prems(4) by (simp add: idle_Cons map_of_eq_None_iff)
    have i: "dag_inv opts dag ?s" using Cons.prems by (intro dag_inv_fail) (auto simp: idle_Cons idle_def)
    have j: "tracked ?s" "idle ?s ns" "set ns \<subseteq> set (tdNodes dag)"
      using Cons.prems by (auto simp: tracked_def idle_def set_update_keys)
    note IH = Cons.IH [OF f i j]
    have "extends (dsStates s) (dsStates t)"
      using IH extends_update [OF no] by (auto simp: extends_def intro: map_le_trans)
    moreover have "\<not> may_start n (dsStates s)" using False by (simp add: may_start_def)
    moreover have "n \<notin> set rs" using IH Cons.prems(4) by (auto simp: idle_Cons)
    ultimately show ?thesis using IH no by (auto simp: may_start_fail set_update_keys)
  qed
qed

lemma launch_nodes_inv:
  "dag_inv opts dag s \<Longrightarrow> tracked s \<Longrightarrow> idle s ns \<Longrightarrow> set ns \<subseteq> set (tdNodes dag) \<Longrightarrow>
     list_all (\<lambda>n. may_start n (dsStates s)) ns \<Longrightarrow> t = launch_nodes (ooMaxConcurrentNodes opts) ns s \<Longrightarrow>
     dag_inv opts dag t \<and> tracked t \<and> dsStates t = dsStates s
   \<and> (dsInFlight t = [] \<longrightarrow> dsInFlight s = [] \<and> (ns = [] \<or> ooMaxConcurrentNodes opts \<le> 0))"
proof (induction ns arbitrary: s)
  case (Cons n ns)
  let ?s = "s\<lparr>dsInFlight := dnID n # dsInFlight s, dsLaunched := dsLaunched s @ [(dnID n, n, dsResults s)]\<rparr>"
  show ?case
  proof (cases "int (length (dsInFlight s)) \<ge> ooMaxConcurrentNodes opts")
    case False
    have "dnID n \<notin> fst ` set (dsLaunched s)" using Cons.prems by (auto simp: tracked_def idle_Cons)
    then have "dag_inv opts dag ?s"
      using Cons.prems False by (auto simp: dag_inv_def idle_Cons)
    moreover have "tracked ?s" "idle ?s ns" using Cons.prems by (auto simp: tracked_def idle_def)
    ultimately show ?thesis using Cons.IH [of ?s] Cons.prems False by auto
  qed (use Cons.prems in auto)
qed auto

fun config_state :: "dag_config \<Rightarrow> dag_state" where
  "config_state (AtTop s) = s"
| "config_state (Waiting s) = s"
| "config_state (Stopped e s) = s"

fun config_inv :: "OrchestratorOptions \<Rightarrow> TaskDag \<Rightarrow> dag_config \<Rightarrow> bool" where
  "config_inv opts dag (AtTop s) \<longleftrightarrow> dag_inv opts dag s \<and> tracked s"
| "config_inv opts dag (Waiting s) \<longleftrightarrow> dag_inv opts dag s \<and> tracked s \<and> dsInFlight s \<noteq> []"
| "config_inv opts dag (Stopped e s) \<longleftrightarrow> dag_inv opts dag s"

lemma config_inv_state: "config_inv opts dag c \<Longrightarrow> dag_inv opts dag (config_state c)"
  by (cases c) auto

lemma ready_idle:
  assumes "distinct (map dnID (tdNodes dag))"
  shows "idle s (ready_nodes dag s)" "set (ready_nodes dag s) \<subseteq> set (tdNodes dag)"
  using assms by (auto simp: idle_def ready_nodes_def distinct_map_filter map_of_eq_None_iff image_iff)

text \<open>A turn of the loop that is not over: what it leaves.\<close>

lemma loop_turn:
  assumes "dag_inv opts dag s" and "tracked s" and "distinct (map dnID (tdNodes dag))"
    and "filter_ready task u (ready_nodes dag s) s = (rs, s1)" and "s2 = launch_nodes (ooMaxConcurrentNodes opts) rs s1"
  shows "dag_inv opts dag s2" "tracked s2" "extends (dsStates s) (dsStates s2)"
    "dsInFlight s2 = [] \<Longrightarrow> ooMaxConcurrentNodes opts \<le> 0 \<or> rs = []" "dsInFlight s2 = [] \<Longrightarrow> dsInFlight s = []"
    "set rs = {n \<in> set (ready_nodes dag s). may_start n (dsStates s)}" "dsStates s2 = dsStates s1"
proof -
  note f = filter_ready_inv [OF assms(4,1,2) ready_idle [OF assms(3)]]
  have "list_all (\<lambda>n. may_start n (dsStates s1)) rs" "set rs \<subseteq> set (tdNodes dag)"
    using f ready_idle(2) [OF assms(3)] by (auto simp: list_all_iff)
  then have l: "dag_inv opts dag s2 \<and> tracked s2 \<and> dsStates s2 = dsStates s1
      \<and> (dsInFlight s2 = [] \<longrightarrow> dsInFlight s1 = [] \<and> (rs = [] \<or> ooMaxConcurrentNodes opts \<le> 0))"
    using launch_nodes_inv [of opts dag s1 rs s2] f assms(5) by blast
  show "dag_inv opts dag s2" "tracked s2" "extends (dsStates s) (dsStates s2)"
    "dsInFlight s2 = [] \<Longrightarrow> ooMaxConcurrentNodes opts \<le> 0 \<or> rs = []" "dsInFlight s2 = [] \<Longrightarrow> dsInFlight s = []"
    "set rs = {n \<in> set (ready_nodes dag s). may_start n (dsStates s)}" "dsStates s2 = dsStates s1"
    using f l by auto
qed

lemma loop_top_cases [consumes 3, case_names finished cancel turn]:
  assumes "dag_inv opts dag s" and "tracked s" and "distinct (map dnID (tdNodes dag))"
  obtains (finished) "loop_top opts task u dag cancelled s = Stopped LoopEnded s" "length (tdNodes dag) \<le> length (dsStates s)"
    | (cancel) "loop_top opts task u dag cancelled s = Stopped (Aborted ''NOP-TASK-CANCELLED'' ''Task cancelled.'') s"
    | (turn) rs s1 s2 where "filter_ready task u (ready_nodes dag s) s = (rs, s1)"
        "s2 = launch_nodes (ooMaxConcurrentNodes opts) rs s1" "length (dsStates s) < length (tdNodes dag)"
        "loop_top opts task u dag cancelled s = (if dsInFlight s2 = [] then Stopped LoopEnded s2 else Waiting s2)"
proof -
  have r: "remdups (map dnID (tdNodes dag)) = map dnID (tdNodes dag)" using assms(3) by (rule distinct_remdups_id)
  obtain rs s1 where f: "filter_ready task u (ready_nodes dag s) s = (rs, s1)" by (cases "filter_ready task u (ready_nodes dag s) s")
  show ?thesis
    using finished cancel turn [OF f refl] f
    by (cases "length (dsStates s) < length (tdNodes dag)"; cases cancelled) (simp_all add: loop_top_def r Let_def)
qed

lemma loop_top_inv:
  assumes "dag_inv opts dag s" and "tracked s" and "distinct (map dnID (tdNodes dag))"
  shows "config_inv opts dag (loop_top opts task u dag cancelled s)"
  using assms
proof (cases rule: loop_top_cases [where task = task and u = u and cancelled = cancelled])
  case (turn rs s1 s2)
  then show ?thesis using loop_turn [OF assms turn(1,2)] by simp
qed (use assms in simp_all)

lemma dag_inv_drain: "dag_inv opts dag s \<Longrightarrow> dag_inv opts dag (s\<lparr>dsInFlight := []\<rparr>)"
  by (simp add: dag_inv_def)

lemma receive_inv:
  assumes "dag_inv opts dag s" and "tracked s" and "nid \<in> set (dsInFlight s)"
  shows "config_inv opts dag (receive dag s nid outcome)"
proof -
  let ?st = "AList.update nid (noState outcome) (dsStates s)"
  let ?rs = "if noState outcome = TaskStateCompleted \<and> noResult outcome \<noteq> [] then AList.update nid (noResult outcome) (dsResults s) else dsResults s"
  let ?s = "s\<lparr>dsInFlight := removeAll nid (dsInFlight s), dsStates := ?st, dsResults := ?rs\<rparr>"
  have no: "map_of (dsStates s) nid = None" using assms by (auto simp: dag_inv_def map_of_eq_None_iff)
  have x: "extends (dsStates s) ?st" by (rule extends_update [OF no])
  have nr: "map_of (dsResults s) nid = None" using assms(1) no by (auto simp: dag_inv_def results_ok_def)
  have r: "map_of (dsResults s) \<subseteq>\<^sub>m map_of ?rs" using nr by (auto simp: map_le_def update_conv')
  have rk: "results_ok (dsResults s) (dsStates s)" using assms(1) by (simp add: dag_inv_def)
  have ok: "results_ok ?rs ?st" unfolding results_ok_def
  proof (intro allI impI)
    fix n r assume a: "map_of ?rs n = Some r"
    show "map_of ?st n = Some TaskStateCompleted \<and> r \<noteq> []"
    proof (cases "n = nid")
      case True
      then show ?thesis using a nr by (auto simp: update_conv' split: if_splits)
    next
      case False
      then have "map_of (dsResults s) n = Some r" using a by (auto simp: update_conv' split: if_splits)
      then show ?thesis using rk False by (simp add: results_ok_def update_conv')
    qed
  qed
  have "nid \<in> fst ` set (dsLaunched s)" using assms(1,3) by (auto simp: dag_inv_def)
  then obtain n snap where "(nid, n, snap) \<in> set (dsLaunched s)" by auto
  then have m: "nid \<in> dnID ` set (tdNodes dag)"
    using assms(1) unfolding dag_inv_def list_all_iff by blast
  have "int (length (removeAll nid (dsInFlight s))) \<le> int (length (dsInFlight s))" by simp
  moreover have "int (length (dsInFlight s)) \<le> ooMaxConcurrentNodes opts" using assms(1,3) unfolding dag_inv_def by fastforce
  ultimately have len: "int (length (removeAll nid (dsInFlight s))) \<le> ooMaxConcurrentNodes opts" by (rule order_trans)
  have "dag_inv opts dag ?s" "tracked ?s"
    using assms x r ok m len launched_extends [OF _ x r]
    by (auto simp: dag_inv_def tracked_def set_update_keys distinct_update distinct_removeAll)
  then show ?thesis using dag_inv_drain [of opts dag ?s] unfolding receive_def Let_def
    by (simp only: config_inv.simps split: if_split) blast
qed

end
