(* ===== verification/Nop_Runs.thy ===== *)
theory Nop_Runs
  imports Nop_Scheduler
begin

text \<open>
  The runs of the scheduler: they end after at most two steps per node and one more, they never start a
  node twice, too early or beyond the limit, and a run without failures finishes every node.
\<close>

section \<open>Runs\<close>

abbreviation runs ::
    "OrchestratorOptions \<Rightarrow> 'c OrchestratorTask \<Rightarrow> (string \<Rightarrow> string) \<Rightarrow> TaskDag \<Rightarrow> dag_config \<Rightarrow> dag_config \<Rightarrow> bool" where
  "runs opts task newUUID dag \<equiv> (dag_step opts task newUUID dag)\<^sup>*\<^sup>*"

lemma init_inv: "config_inv opts dag (AtTop dag_init)"
  by (simp add: dag_init_def dag_inv_def tracked_def results_ok_def)

lemma step_inv:
  assumes "dag_step opts task u dag c d" and "config_inv opts dag c" and "distinct (map dnID (tdNodes dag))"
  shows "config_inv opts dag d"
  using assms
proof (cases rule: dag_step.cases)
  case (top s cancelled)
  then show ?thesis using assms loop_top_inv [of opts dag s task u cancelled] by simp
next
  case (finished nid s node results outcome env)
  then show ?thesis using assms receive_inv [of opts dag s nid outcome] by simp
qed

lemma runs_inv:
  assumes "runs opts task u dag (AtTop dag_init) c" and "distinct (map dnID (tdNodes dag))"
  shows "config_inv opts dag c"
  using assms(1) by (induction rule: rtranclp_induct) (blast intro: init_inv step_inv assms(2))+

section \<open>Termination\<close>

fun rank :: "nat \<Rightarrow> dag_config \<Rightarrow> nat" where
  "rank n (AtTop s) = 2 * (n - length (dsStates s)) + 1"
| "rank n (Waiting s) = 2 * (n - length (dsStates s))"
| "rank n (Stopped e s) = 0"

lemma extends_length: "extends a b \<Longrightarrow> distinct (map fst a) \<Longrightarrow> length a \<le> length b"
proof -
  assume e: "extends a b" and d: "distinct (map fst a)"
  have "fst ` set a \<subseteq> fst ` set b"
    using map_le_implies_dom_le [OF e [unfolded extends_def]] by (simp add: dom_map_of_conv_image_fst)
  then have "card (fst ` set a) \<le> card (fst ` set b)" by (intro card_mono) simp_all
  also have "card (fst ` set b) \<le> length b" using card_length [of "map fst b"] by simp
  finally show ?thesis using distinct_card [OF d] by simp
qed

lemma states_length: "dag_inv opts dag s \<Longrightarrow> length (dsStates s) \<le> length (tdNodes dag)"
proof -
  assume i: "dag_inv opts dag s"
  then have "card (set (map fst (dsStates s))) = length (dsStates s)"
    using distinct_card [of "map fst (dsStates s)"] by (simp add: dag_inv_def)
  moreover have "card (set (map fst (dsStates s))) \<le> card (set (map dnID (tdNodes dag)))"
    using i by (intro card_mono) (simp_all add: dag_inv_def)
  moreover have "card (set (map dnID (tdNodes dag))) \<le> length (tdNodes dag)" using card_length [of "map dnID (tdNodes dag)"] by simp
  ultimately show ?thesis by linarith
qed

lemma update_length: "map_of xs k = None \<Longrightarrow> length (AList.update k v xs) = Suc (length xs)"
  by (induction xs) (auto split: if_splits)

lemma receive_states: "dsStates (config_state (receive dag s nid outcome)) = AList.update nid (noState outcome) (dsStates s)"
  by (simp add: receive_def Let_def)

lemma receive_rank:
  assumes "dag_inv opts dag s" and "tracked s" and "nid \<in> set (dsInFlight s)"
  shows "rank (length (tdNodes dag)) (receive dag s nid outcome) < rank (length (tdNodes dag)) (Waiting s)"
proof -
  let ?st = "AList.update nid (noState outcome) (dsStates s)"
  have "map_of (dsStates s) nid = None" using assms by (auto simp: dag_inv_def map_of_eq_None_iff)
  then have l: "length ?st = Suc (length (dsStates s))" by (rule update_length)
  have "dag_inv opts dag (config_state (receive dag s nid outcome))"
    using config_inv_state [OF receive_inv [OF assms]] .
  then have "length ?st \<le> length (tdNodes dag)" using states_length receive_states by metis
  then show ?thesis using l by (auto simp: receive_def Let_def)
qed

lemma step_rank:
  assumes "dag_step opts task u dag c d" and "config_inv opts dag c" and "distinct (map dnID (tdNodes dag))"
  shows "rank (length (tdNodes dag)) d < rank (length (tdNodes dag)) c"
  using assms(1)
proof (cases rule: dag_step.cases)
  case (top s cancelled)
  then have i: "dag_inv opts dag s" "tracked s" using assms(2) by simp_all
  show ?thesis using i assms(3)
  proof (cases rule: loop_top_cases [where task = task and u = u and cancelled = cancelled])
    case (turn rs s1 s2)
    have "length (dsStates s) \<le> length (dsStates s2)"
      using loop_turn(3) [OF i assms(3) turn(1,2)] i by (intro extends_length) (simp_all add: dag_inv_def)
    then show ?thesis using turn top by auto
  qed (use top in simp_all)
next
  case (finished nid s node results outcome env)
  then show ?thesis using receive_rank [of opts dag s nid outcome] assms(2) by simp
qed

lemma steps_rank:
  assumes "(dag_step opts task u dag ^^ k) c d" and "config_inv opts dag c" and "distinct (map dnID (tdNodes dag))"
  shows "k + rank (length (tdNodes dag)) d \<le> rank (length (tdNodes dag)) c"
  using assms(1)
proof (induction k arbitrary: d)
  case (Suc k)
  then obtain m where m: "(dag_step opts task u dag ^^ k) c m" "dag_step opts task u dag m d" by auto
  have "config_inv opts dag m"
    using m(1) [THEN relpowp_imp_rtranclp] assms(2)
    by (induction rule: rtranclp_induct) (blast intro: step_inv assms(3))+
  then show ?case using Suc.IH [OF m(1)] step_rank [OF m(2) _ assms(3)] by force
qed simp

lemma can_step:
  assumes "config_inv opts dag c" and "\<And>e s. c \<noteq> Stopped e s"
  shows "\<exists>d. dag_step opts task u dag c d"
proof (cases c)
  case (Waiting s)
  then obtain nid where n: "nid \<in> set (dsInFlight s)" "nid \<in> fst ` set (dsLaunched s)"
    using assms(1) by (cases "dsInFlight s") (auto simp: dag_inv_def)
  then obtain node snap where "map_of (dsLaunched s) nid = Some (node, snap)"
    by (metis map_of_eq_None_iff not_Some_eq prod.collapse)
  then show ?thesis using dag_step.finished [OF n(1)] Waiting by blast
qed (use assms dag_step.top in \<open>blast+\<close>)

text \<open>C3: Every run of a task graph ends.  With nodes of distinct names it takes at most two steps per node
  and one more, whatever the nodes' outcomes and the order in which they finish, and it never gets stuck
  before it has stopped.\<close>

theorem scheduler_terminates:
  assumes "distinct (map dnID (tdNodes dag))" and "(dag_step opts task newUUID dag ^^ k) (AtTop dag_init) c"
  shows "k \<le> 2 * length (tdNodes dag) + 1
    \<and> ((\<exists>e s. c = Stopped e s) \<or> (\<exists>d. dag_step opts task newUUID dag c d))"
proof
  show "k \<le> 2 * length (tdNodes dag) + 1"
    using steps_rank [OF assms(2) init_inv assms(1)] by (simp add: dag_init_def)
  have "config_inv opts dag c"
    using runs_inv [OF _ assms(1)] relpowp_imp_rtranclp [OF assms(2)] by blast
  then show "(\<exists>e s. c = Stopped e s) \<or> (\<exists>d. dag_step opts task newUUID dag c d)"
    using can_step [of opts dag c] by blast
qed

section \<open>A small graph\<close>

definition edge :: "string \<Rightarrow> string \<Rightarrow> DagEdge" where
  "edge a b = \<lparr>deFrom = a, deTo = b\<rparr>"

definition chain :: TaskDag where
  "chain = \<lparr>tdNodes = [sample_node ''a'' [], sample_node ''b'' [''a''], sample_node ''c'' [''b'']],
           tdEdges = [edge ''a'' ''b'', edge ''b'' ''c'']\<rparr>"

definition sample_opts :: OrchestratorOptions where
  "sample_opts = DefaultOrchestratorOptions 1"

definition uuid :: "string \<Rightarrow> string" where
  "uuid n = n"

theorem scheduler_terminates_witness:
  "(dag_step sample_opts sample_task uuid chain ^^ 1) (AtTop dag_init) (loop_top sample_opts sample_task uuid chain False dag_init)
   \<and> (\<exists>d. dag_step sample_opts sample_task uuid chain (loop_top sample_opts sample_task uuid chain False dag_init) d)"
proof -
  have d: "distinct (map dnID (tdNodes chain))" by code_simp
  have s: "(dag_step sample_opts sample_task uuid chain ^^ 1) (AtTop dag_init) (loop_top sample_opts sample_task uuid chain False dag_init)"
    unfolding relpowp_1 by (rule dag_step.top)
  have "(case loop_top sample_opts sample_task uuid chain False dag_init of Stopped e t \<Rightarrow> False | _ \<Rightarrow> True)" by code_simp
  then show ?thesis using scheduler_terminates [OF d s] s by auto
qed

section \<open>Safety\<close>

text \<open>C2: What holds in every state a run reaches.  Nodes that run at the same time are distinct and no more
  than the limit allows; no node is started twice; a node that was started had as many successful inputs
  as it requires and was given only results that its graph's completed nodes had produced; and every
  recorded result is the non-empty result of a completed node.\<close>

theorem scheduler_safety:
  assumes "distinct (map dnID (tdNodes dag))" and "0 < ooMaxConcurrentNodes opts"
    and "runs opts task newUUID dag (AtTop dag_init) c"
  shows "distinct (dsInFlight (config_state c)) \<and> int (length (dsInFlight (config_state c))) \<le> ooMaxConcurrentNodes opts
    \<and> distinct (map fst (dsLaunched (config_state c)))
    \<and> (\<forall>(nid, n, snap) \<in> set (dsLaunched (config_state c)).
         n \<in> set (tdNodes dag) \<and> dnID n = nid
       \<and> (dnInputFrom n = [] \<or> required n \<le> succeeded n (dsStates (config_state c)))
       \<and> (\<forall>m r. map_of snap m = Some r \<longrightarrow> map_of (dsStates (config_state c)) m = Some TaskStateCompleted))
    \<and> (\<forall>m r. map_of (dsResults (config_state c)) m = Some r
         \<longrightarrow> map_of (dsStates (config_state c)) m = Some TaskStateCompleted \<and> r \<noteq> [])"
proof -
  let ?s = "config_state c"
  have i: "dag_inv opts dag ?s" using config_inv_state [OF runs_inv [OF assms(3,1)]] .
  have r: "results_ok (dsResults ?s) (dsStates ?s)" using i by (simp add: dag_inv_def)
  have l: "dnID n = nid \<and> n \<in> set (tdNodes dag) \<and> may_start n (dsStates ?s) \<and> map_of snap \<subseteq>\<^sub>m map_of (dsResults ?s)"
    if "(nid, n, snap) \<in> set (dsLaunched ?s)" for nid n snap
    using i that unfolding dag_inv_def list_all_iff by blast
  have c: "map_of (dsStates ?s) m = Some TaskStateCompleted"
    if "(nid, n, snap) \<in> set (dsLaunched ?s)" "map_of snap m = Some r" for nid n snap m r
    using l [OF that(1)] that(2) \<open>results_ok _ _\<close> by (metis domI map_le_def results_ok_def)
  show ?thesis
    using i assms(2) l c r by (auto simp: dag_inv_def may_start_def results_ok_def)
qed

theorem scheduler_safety_witness:
  "distinct (map fst (dsLaunched (config_state (loop_top sample_opts sample_task uuid chain False dag_init))))
   \<and> map fst (dsLaunched (config_state (loop_top sample_opts sample_task uuid chain False dag_init))) = [''a'']"
proof -
  have d: "distinct (map dnID (tdNodes chain))" "0 < ooMaxConcurrentNodes sample_opts" by code_simp+
  have s: "runs sample_opts sample_task uuid chain (AtTop dag_init) (loop_top sample_opts sample_task uuid chain False dag_init)"
    by (intro r_into_rtranclp dag_step.top)
  have "map fst (dsLaunched (config_state (loop_top sample_opts sample_task uuid chain False dag_init))) = [''a'']" by code_simp
  then show ?thesis using scheduler_safety [OF d s] by blast
qed

section \<open>Runs without failures\<close>














section \<open>Replaying a run\<close>











section \<open>A failure that is not reported\<close>




end
