(* ===== verification/Nop_Orchestrator.thy ===== *)
theory Nop_Orchestrator
  imports Nop_Scheduler
begin

text \<open>
  The orchestrator around the scheduler (\<open>nop/orchestrator.go\<close>): the life of a task from its checks to
  its recorded result, the preflight probes and the compensation of completed nodes.  The validation of
  the callback URL and the delivery of the callback are left to the callers of \<open>Execute\<close>: the first is
  an argument, and whether the second is started is part of the result.
\<close>

section \<open>The contract of a task store\<close>

text \<open>What the orchestrator relies on: a saved record is found, a second one with its name is refused, and
  updates change the state or the subtasks of the record they name and nothing else.\<close>

locale task_store =
  fixes save :: "'c NopTaskRecord \<Rightarrow> 's \<Rightarrow> nps_error option \<times> 's"
    and get :: "string \<Rightarrow> 's \<Rightarrow> 'c NopTaskRecord option"
    and update_state :: "string \<Rightarrow> TaskState \<Rightarrow> 's \<Rightarrow> 's"
    and update_sub :: "SubtaskUpdate \<Rightarrow> 's \<Rightarrow> 's"
  assumes save_fresh: "get (trTaskID rec) s = None \<Longrightarrow> fst (save rec s) = None
      \<and> get (trTaskID rec) (snd (save rec s)) = Some rec"
    and save_known: "get (trTaskID rec) s \<noteq> None \<Longrightarrow> fst (save rec s) \<noteq> None \<and> snd (save rec s) = s"
    and save_other: "t \<noteq> trTaskID rec \<Longrightarrow> get t (snd (save rec s)) = get t s"
    and get_state: "get t (update_state t st s) = map_option (trState_update (\<lambda>_. st)) (get t s)"
    and get_state_other: "t \<noteq> u \<Longrightarrow> get t (update_state u st s) = get t s"
    and get_sub: "map_option trState (get t (update_sub upd s)) = map_option trState (get t s)"
    and get_sub_other: "t \<noteq> suTaskID upd \<Longrightarrow> get t (update_sub upd s) = get t s"
begin

lemma subs_state: "map_option trState (get t (fold update_sub us s)) = map_option trState (get t s)"
  by (induction us arbitrary: s) (simp_all add: get_sub)

lemma subs_other: "list_all (\<lambda>u. suTaskID u = i) us \<Longrightarrow> t \<noteq> i \<Longrightarrow> get t (fold update_sub us s) = get t s"
  by (induction us arbitrary: s) (simp_all add: get_sub_other)

lemma state_known: "get t (update_state u st s) = None \<longleftrightarrow> get t s = None"
  by (cases "t = u") (simp_all add: get_state get_state_other)

lemma subs_known: "get t (fold update_sub us s) = None \<longleftrightarrow> get t s = None"
  using subs_state [of t us s] by (metis map_option_is_None)

lemma recorded: "get t s \<noteq> None \<Longrightarrow> map_option trState (get t (update_state t st s)) = Some st"
  by (auto simp: get_state)

end

interpretation memory: task_store store_Save store_Get store_UpdateState store_UpdateSubtask
proof unfold_locales
  fix t and upd :: SubtaskUpdate and s :: "'a task_store"
  show "map_option trState (store_Get t (store_UpdateSubtask upd s)) = map_option trState (store_Get t s)"
    by (cases "map_of s (suTaskID upd)") (auto simp: store_UpdateSubtask_def store_Get_def Let_def update_conv')
qed (auto simp: store_Save_def store_Get_def store_UpdateState_def store_UpdateSubtask_def Let_def update_conv'
    split: option.splits)

section \<open>Preflight\<close>

fun preflight_probes :: "string list \<Rightarrow> DagNode list \<Rightarrow> (string \<times> string) list" where
  "preflight_probes seen [] = []"
| "preflight_probes seen (n # ns) =
     (if dnAgent n \<in> set seen then preflight_probes seen ns
      else (dnAgent n, dnAction n) # preflight_probes (dnAgent n # seen) ns)"

text \<open>The answers in the order in which they arrive; a probe that fails has an error, and a probe may
  answer with nothing.\<close>

type_synonym probe_answer = "string + PreflightResult option"

definition probe_error :: "probe_answer \<Rightarrow> string option" where
  "probe_error a = (case a of Inl e \<Rightarrow> Some (''Preflight probe failed: '' @ e) | Inr _ \<Rightarrow> None)"

definition probe_unavailable :: "probe_answer \<Rightarrow> string option" where
  "probe_unavailable a =
     (case a of
        Inr (Some r) \<Rightarrow>
          (if prAvailable r then None
           else Some (''Agent '' @ quoted_id (prAgentNID r) @ '' is unavailable: ''
                  @ (if prUnavailableReason r = [] then ''no reason given'' else prUnavailableReason r)))
      | _ \<Rightarrow> None)"

definition first_text :: "string list \<Rightarrow> string" where
  "first_text ts = (case ts of t # _ \<Rightarrow> t | [] \<Rightarrow> [])"

definition runPreflight :: "probe_answer list \<Rightarrow> string" where
  "runPreflight answers =
     (let probeErr = first_text (List.map_filter probe_error answers)
      in if probeErr \<noteq> [] then probeErr else first_text (List.map_filter probe_unavailable answers))"

section \<open>Execute\<close>

text \<open>What an execution meets: the two times it reads, the answers to its probes, how the run of the graph
  stopped with the updates it made, and whether the task's own time was up or its caller had cancelled.\<close>

record 'c exec_env =
  exStartedAt :: int
  exCompletedAt :: int
  exAnswers :: "probe_answer list"
  exEnd :: dag_end
  exDagState :: dag_state
  exUpdates :: "SubtaskUpdate list"
  exSaga :: "'c saga_env"
  exTimedOut :: bool
  exCallerDone :: bool

definition new_record :: "'c OrchestratorTask \<Rightarrow> int \<Rightarrow> 'c NopTaskRecord" where
  "new_record task now =
     \<lparr>trTaskID = otTaskID task, trTask = task, trState = TaskStatePending, trStartedAt = now, trCompletedAt = None,
      trSubtasks = []\<rparr>"

definition set_completed :: "string \<Rightarrow> int \<Rightarrow> 'c task_store \<Rightarrow> 'c task_store" where
  "set_completed taskID now s =
     (case map_of s taskID of None \<Rightarrow> s | Some rec \<Rightarrow> AList.update taskID (rec\<lparr>trCompletedAt := Some now\<rparr>) s)"

definition taskTimeoutMs :: "'c OrchestratorTask \<Rightarrow> u64" where
  "taskTimeoutMs task = (if effectiveTimeoutMs task > MaxTimeoutMs then MaxTimeoutMs else effectiveTimeoutMs task)"

text \<open>The checks before anything is stored.\<close>

definition execute_checks :: "(string \<Rightarrow> string) \<Rightarrow> 'c OrchestratorTask \<Rightarrow> 'c task_store \<Rightarrow> (string \<times> string) option" where
  "execute_checks validateCallbackURL task store =
     first_error
       [fails (otDelegateDepth task \<ge> MaxDelegateChainDepth) ''NOP-DELEGATE-CHAIN-TOO-DEEP''
          (''Delegation chain depth '' @ dec_int (otDelegateDepth task) @ '' exceeds the maximum of ''
           @ dec_int MaxDelegateChainDepth @ ''.''),
        fails (otCallbackURL task \<noteq> [] \<and> validateCallbackURL (otCallbackURL task) \<noteq> []) ''NOP-TASK-DAG-INVALID''
          (validateCallbackURL (otCallbackURL task)),
        fails (\<not> dvIsValid (ValidateDag (otDag task))) (dvErrorCode (ValidateDag (otDag task)))
          (dvErrorMessage (ValidateDag (otDag task))),
        fails (store_Get (otTaskID task) store \<noteq> None) ''NOP-TASK-ALREADY-COMPLETED''
          (''Task '' @ quoted_id (otTaskID task) @ '' already exists.'')]"

text \<open>Step 6 and what follows: the run, the timeout, the recorded final state.\<close>

definition execute_run ::
    "OrchestratorOptions \<Rightarrow> 'c OrchestratorTask \<Rightarrow> TaskDag \<Rightarrow> 'c exec_env \<Rightarrow> 'c task_store \<Rightarrow> NopTaskResult \<times> 'c task_store \<times> bool" where
  "execute_run opts task dag env store =
     (let tid = otTaskID task;
          order = dvTopologicalOrder (ValidateDag (Some dag));
          (result, marked) = dag_result opts task (exSaga env) dag order (exEnd env) (exDagState env);
          s1 = fold store_UpdateSubtask (exUpdates env) (store_UpdateState tid TaskStateRunning store);
          s2 = (if marked then store_UpdateState tid TaskStateCompensating s1 else s1)
      in if exTimedOut env \<and> \<not> exCallerDone env \<and> nrFinalState result \<noteq> TaskStateCompleted
         then (newFailureResult tid ''NOP-TASK-TIMEOUT''
                 (''Task exceeded timeout of '' @ dec_int (uint (taskTimeoutMs task)) @ ''ms.'') None,
               store_UpdateState tid TaskStateFailed s2, False)
         else (result, store_UpdateState tid (nrFinalState result) (set_completed tid (exCompletedAt env) s2),
               ooEnableCallback opts \<and> otCallbackURL task \<noteq> []))"

definition Execute ::
    "OrchestratorOptions \<Rightarrow> (string \<Rightarrow> string) \<Rightarrow> 'c OrchestratorTask \<Rightarrow> 'c exec_env \<Rightarrow> 'c task_store
     \<Rightarrow> NopTaskResult \<times> 'c task_store \<times> bool" where
  "Execute opts validateCallbackURL task env store =
     (let tid = otTaskID task
      in case execute_checks validateCallbackURL task store of
           Some (ec, msg) \<Rightarrow> (newFailureResult tid ec msg None, store, False)
         | None \<Rightarrow>
             (case store_Save (new_record task (exStartedAt env)) store of
                (Some e, s) \<Rightarrow> (newFailureResult tid ''NOP-TASK-ALREADY-COMPLETED'' (nps_error_text e) None, s, False)
              | (None, s) \<Rightarrow>
                  if otPreflight task \<and> runPreflight (exAnswers env) \<noteq> []
                  then (newFailureResult tid ''NOP-RESOURCE-INSUFFICIENT'' (runPreflight (exAnswers env)) None,
                        store_UpdateState tid TaskStateFailed (store_UpdateState tid TaskStatePreflight s), False)
                  else execute_run opts task (the (otDag task)) env
                         (if otPreflight task then store_UpdateState tid TaskStatePreflight s else s)))"

text \<open>Cancelling: the running task's context is cancelled, which ends the waits of its run, and the state is
  set whether the task runs or not.\<close>

definition Cancel :: "string \<Rightarrow> string list \<Rightarrow> 'c task_store \<Rightarrow> bool \<times> 'c task_store" where
  "Cancel taskID running store = (taskID \<in> set running, store_UpdateState taskID TaskStateCancelled store)"

definition GetStatus :: "string \<Rightarrow> 'c task_store \<Rightarrow> 'c NopTaskRecord option" where
  "GetStatus taskID store = store_Get taskID store"

section \<open>What is recorded\<close>

lemma set_completed_get: "map_option trState (store_Get t (set_completed u now s)) = map_option trState (store_Get t s)"
  by (cases "map_of s u") (auto simp: set_completed_def store_Get_def update_conv')

lemma set_completed_other: "t \<noteq> u \<Longrightarrow> store_Get t (set_completed u now s) = store_Get t s"
  by (auto simp: set_completed_def store_Get_def update_conv' split: option.splits)

lemma execute_run_recorded:
  assumes "execute_run opts task dag env store = (result, store', cb)" and "store_Get (otTaskID task) store \<noteq> None"
    and "list_all (\<lambda>u. suTaskID u = otTaskID task) (exUpdates env)"
  shows "map_option trState (store_Get (otTaskID task) store') = Some (nrFinalState result)"
    and "t \<noteq> otTaskID task \<Longrightarrow> store_Get t store' = store_Get t store"
proof -
  let ?t = "otTaskID task"
  obtain r marked where r: "dag_result opts task (exSaga env) dag (dvTopologicalOrder (ValidateDag (Some dag))) (exEnd env) (exDagState env) = (r, marked)"
    by fastforce
  define s1 where "s1 = fold store_UpdateSubtask (exUpdates env) (store_UpdateState ?t TaskStateRunning store)"
  define s2 where "s2 = (if marked then store_UpdateState ?t TaskStateCompensating s1 else s1)"
  have k2: "store_Get ?t s2 \<noteq> None" using assms(2)
    by (simp add: s2_def s1_def memory.state_known memory.subs_known del: not_None_eq)
  have o2: "store_Get t s2 = store_Get t store" if "t \<noteq> ?t" for t
    using that assms(3) by (simp add: s2_def s1_def memory.get_state_other memory.subs_other)
  have k3: "store_Get ?t (set_completed ?t now s2) \<noteq> None" for now
    using k2 set_completed_get [of ?t ?t now s2] by (metis map_option_is_None)
  have e: "(result, store', cb) =
      (if exTimedOut env \<and> \<not> exCallerDone env \<and> nrFinalState r \<noteq> TaskStateCompleted
       then (newFailureResult ?t ''NOP-TASK-TIMEOUT'' (''Task exceeded timeout of '' @ dec_int (uint (taskTimeoutMs task)) @ ''ms.'') None,
             store_UpdateState ?t TaskStateFailed s2, False)
       else (r, store_UpdateState ?t (nrFinalState r) (set_completed ?t (exCompletedAt env) s2), ooEnableCallback opts \<and> otCallbackURL task \<noteq> []))"
    using assms(1) unfolding execute_run_def Let_def r prod.case s2_def s1_def by (rule sym)
  then show "map_option trState (store_Get ?t store') = Some (nrFinalState result)"
    using memory.recorded [OF k2] memory.recorded [OF k3] by (simp add: newFailureResult_def split: if_splits)
  show "store_Get t store' = store_Get t store" if "t \<noteq> ?t"
    using e o2 [OF that] that by (simp add: memory.get_state_other set_completed_other split: if_splits)
qed

lemma checks_known: "store_Get (otTaskID task) store \<noteq> None \<Longrightarrow> execute_checks v task store \<noteq> None"
  by (simp add: execute_checks_def first_error_None fails_None)

lemma checks_fresh: "execute_checks v task store = None \<Longrightarrow> store_Get (otTaskID task) store = None"
  using checks_known by blast

lemma execute_refused:
  "execute_checks v task store \<noteq> None \<Longrightarrow>
     nrFinalState (fst (Execute opts v task env store)) = TaskStateFailed \<and> snd (Execute opts v task env store) = (store, False)"
  by (auto simp: Execute_def Let_def newFailureResult_def)

text \<open>C8: A task is executed at most once and its record tells how it ended.  A task that fails a check
  changes nothing.  One that passes them is recorded, and when \<open>Execute\<close> returns the record has the
  state that the result reports; records of other tasks are untouched; and from then on a task with that
  name fails before anything is run or stored.\<close>

theorem execute_recorded:
  assumes "Execute opts validateURL task env store = (result, store', callback)"
    and "list_all (\<lambda>u. suTaskID u = otTaskID task) (exUpdates env)"
  shows "(if execute_checks validateURL task store \<noteq> None
          then nrFinalState result = TaskStateFailed \<and> store' = store \<and> \<not> callback
          else map_option trState (GetStatus (otTaskID task) store') = Some (nrFinalState result)
             \<and> (\<forall>again env'. otTaskID again = otTaskID task \<longrightarrow>
                  nrFinalState (fst (Execute opts validateURL again env' store')) = TaskStateFailed
                \<and> snd (Execute opts validateURL again env' store') = (store', False)))
    \<and> (\<forall>t. t \<noteq> otTaskID task \<longrightarrow> GetStatus t store' = GetStatus t store)"
proof (cases "execute_checks validateURL task store")
  case (Some e)
  then show ?thesis using execute_refused [of validateURL task store opts env] assms(1) by simp
next
  case None
  let ?t = "otTaskID task" and ?r = "new_record task (exStartedAt env)"
  have fresh: "store_Get (trTaskID ?r) store = None" using checks_fresh [OF None] by (simp add: new_record_def)
  obtain s where s: "store_Save ?r store = (None, s)" using memory.save_fresh [OF fresh] by (metis prod.collapse)
  have known: "store_Get ?t s \<noteq> None" using memory.save_fresh [OF fresh] s by (simp add: new_record_def)
  have other: "store_Get t s = store_Get t store" if "t \<noteq> ?t" for t
    using memory.save_other [of t ?r store] that s by (simp add: new_record_def)
  have rec: "map_option trState (store_Get ?t store') = Some (nrFinalState result)
      \<and> (\<forall>t. t \<noteq> ?t \<longrightarrow> store_Get t store' = store_Get t store)"
  proof (cases "otPreflight task \<and> runPreflight (exAnswers env) \<noteq> []")
    case True
    then have "result = newFailureResult ?t ''NOP-RESOURCE-INSUFFICIENT'' (runPreflight (exAnswers env)) None"
      "store' = store_UpdateState ?t TaskStateFailed (store_UpdateState ?t TaskStatePreflight s)"
      using assms(1) None s by (simp_all add: Execute_def Let_def)
    then show ?thesis using known other memory.recorded [of ?t "store_UpdateState ?t TaskStatePreflight s"]
      by (simp add: memory.state_known memory.get_state_other newFailureResult_def del: not_None_eq)
  next
    case False
    let ?s = "if otPreflight task then store_UpdateState ?t TaskStatePreflight s else s"
    have run: "execute_run opts task (the (otDag task)) env ?s = (result, store', callback)"
      using assms(1) None s False by (auto simp: Execute_def Let_def)
    have "store_Get ?t ?s \<noteq> None" using known by (simp add: memory.state_known del: not_None_eq)
    from execute_run_recorded [OF run this assms(2)] show ?thesis using other by (auto simp: memory.get_state_other)
  qed
  then have "store_Get ?t store' \<noteq> None" by auto
  then have "execute_checks validateURL again store' \<noteq> None" if "otTaskID again = ?t" for again
    using checks_known [of again] that by metis
  then have "\<forall>again env'. otTaskID again = ?t \<longrightarrow>
      nrFinalState (fst (Execute opts validateURL again env' store')) = TaskStateFailed
    \<and> snd (Execute opts validateURL again env' store') = (store', False)"
    using execute_refused by blast
  then show ?thesis using rec None by (simp add: GetStatus_def)
qed

definition one_node :: TaskDag where
  "one_node = \<lparr>tdNodes = [sample_node ''n'' []], tdEdges = []\<rparr>"

definition one_task :: "unit OrchestratorTask" where
  "one_task = sample_task\<lparr>otDag := Some one_node\<rparr>"

definition one_env :: "unit exec_env" where
  "one_env = \<lparr>exStartedAt = 0, exCompletedAt = 1, exAnswers = [], exEnd = LoopEnded,
     exDagState = \<lparr>dsStates = [(''n'', TaskStateCompleted)], dsResults = [(''n'', ''{}'')], dsInFlight = [],
                   dsLaunched = [(''n'', sample_node ''n'' [], [])], dsUpdates = []\<rparr>,
     exUpdates = [],
     exSaga = \<lparr>sgSubtaskID = (\<lambda>n. n), sgIdempotencyKey = (\<lambda>n. n), sgDeadline = (\<lambda>n. []), sgWorker = (\<lambda>n r. Inl [])\<rparr>,
     exTimedOut = False, exCallerDone = False\<rparr>"

theorem execute_recorded_witness:
  "map_option trState (GetStatus ''t'' (fst (snd (Execute (DefaultOrchestratorOptions 1) (\<lambda>u. []) one_task one_env []))))
     = Some TaskStateCompleted
   \<and> snd (Execute (DefaultOrchestratorOptions 1) (\<lambda>u. []) one_task one_env
       (fst (snd (Execute (DefaultOrchestratorOptions 1) (\<lambda>u. []) one_task one_env []))))
     = (fst (snd (Execute (DefaultOrchestratorOptions 1) (\<lambda>u. []) one_task one_env [])), False)"
proof -
  let ?x = "Execute (DefaultOrchestratorOptions 1) (\<lambda>u. []) one_task one_env []"
  have e: "?x = (fst ?x, fst (snd ?x), snd (snd ?x))" by simp
  have u: "list_all (\<lambda>u. suTaskID u = otTaskID one_task) (exUpdates one_env)" by (simp add: one_env_def)
  have "execute_checks (\<lambda>u. []) one_task [] = None" "nrFinalState (fst ?x) = TaskStateCompleted" "otTaskID one_task = ''t''"
    by code_simp+
  then show ?thesis using execute_recorded [OF e u] by simp
qed

section \<open>Compensation\<close>

text \<open>The completed nodes in the order in which they are compensated.\<close>

definition compensation_order :: "TaskDag \<Rightarrow> string list \<Rightarrow> node_states \<Rightarrow> string list" where
  "compensation_order dag topoOrder states =
     map dnID (filter (\<lambda>n. dnCompensateAction n \<noteq> []) (completed_nodes dag topoOrder states))"

lemma node_of_id: "node_of dag nid = Some n \<Longrightarrow> dnID n = nid \<and> n \<in> set (tdNodes dag)"
  by (auto simp: node_of_def dest!: map_of_SomeD)

lemma completed_nodes_filter:
  "map dnID (filter P (completed_nodes dag xs states)) =
     filter (\<lambda>nid. map_of states nid = Some TaskStateCompleted \<and> pred_option P (node_of dag nid) \<and> node_of dag nid \<noteq> None) (rev xs)"
proof -
  have "map dnID (filter P (List.map_filter (\<lambda>nid. if map_of states nid = Some TaskStateCompleted then node_of dag nid else None) ys)) =
     filter (\<lambda>nid. map_of states nid = Some TaskStateCompleted \<and> pred_option P (node_of dag nid) \<and> node_of dag nid \<noteq> None) ys" for ys
    by (induction ys) (auto simp: List.map_filter_simps node_of_id split: option.splits)
  then show ?thesis by (simp add: completed_nodes_def)
qed

lemma topological_before:
  "topological es xs \<Longrightarrow> (u, v) \<in> (set es)\<^sup>+ \<Longrightarrow> i < length xs \<Longrightarrow> v = xs ! i \<Longrightarrow> u \<in> set (take i xs)"
proof (rotate_tac 1, induction arbitrary: i rule: trancl.induct)
  case (trancl_into_trancl u y v)
  then have "y \<in> set (take i xs)" by (simp add: topological_def)
  then obtain j where j: "j < i" "y = xs ! j" by (auto simp: in_set_conv_nth)
  then have "u \<in> set (take j xs)" using trancl_into_trancl by simp
  then show ?case using j set_take_subset_set_take [of j i xs] by auto
qed (simp add: topological_def)

lemma topological_sorted: "topological es xs \<Longrightarrow> sorted_wrt (\<lambda>a b. (b, a) \<notin> (set es)\<^sup>+) xs"
proof (unfold sorted_wrt_iff_nth_less, intro allI impI)
  fix i j assume t: "topological es xs" and ij: "i < j" "j < length xs"
  show "(xs ! j, xs ! i) \<notin> (set es)\<^sup>+"
  proof
    assume "(xs ! j, xs ! i) \<in> (set es)\<^sup>+"
    then have "xs ! j \<in> set (take i xs)" using topological_before [OF t] ij by simp
    then obtain k where "k < i" "xs ! j = xs ! k" by (auto simp: in_set_conv_nth)
    then show False using t ij by (auto simp: topological_def nth_eq_iff_index_eq)
  qed
qed

lemma node_of_distinct: "distinct (map dnID (tdNodes dag)) \<Longrightarrow> n \<in> set (tdNodes dag) \<Longrightarrow> node_of dag (dnID n) = Some n"
  unfolding node_of_def by (rule map_of_is_SomeI) (auto simp: comp_def rev_map [symmetric])

text \<open>C9: Compensation of a validated graph.  The nodes compensated are the completed ones that have a
  compensation action, each once, and never a node before one that depends on it.  Under the strict
  policy nothing is attempted as soon as a completed node has no such action; otherwise all are
  attempted, and the counts and the list of failures are those of the attempts.\<close>

theorem saga_compensation:
  assumes "dvIsValid (ValidateDag (Some dag))" and "topoOrder = dvTopologicalOrder (ValidateDag (Some dag))"
    and "runSagaCompensation opts task env dag topoOrder results states = (r, marked)"
  shows "set (compensation_order dag topoOrder states)
       = {dnID n |n. n \<in> set (tdNodes dag) \<and> map_of states (dnID n) = Some TaskStateCompleted \<and> dnCompensateAction n \<noteq> []}
    \<and> distinct (compensation_order dag topoOrder states)
    \<and> sorted_wrt (\<lambda>a b. (a, b) \<notin> (edge_rel (tdEdges dag))\<^sup>+) (compensation_order dag topoOrder states)
    \<and> (if CompensationIsStrict (effectiveCompensationPolicy task)
          \<and> (\<exists>n\<in>set (tdNodes dag). map_of states (dnID n) = Some TaskStateCompleted \<and> dnCompensateAction n = [])
       then scAttempted r = 0 \<and> 0 < scFailed r \<and> \<not> marked
       else scAttempted r = int (length (compensation_order dag topoOrder states))
          \<and> scFailedNodeIDs r = filter (\<lambda>nid. noState (compensate opts task env results (the (node_of dag nid))) \<noteq> TaskStateCompleted)
                                  (compensation_order dag topoOrder states)
          \<and> scFailed r = int (length (scFailedNodeIDs r)) \<and> scSucceeded r = scAttempted r - scFailed r)"
proof -
  let ?C = "completed_nodes dag topoOrder states" and ?seq = "compensation_order dag topoOrder states"
  have d: "distinct (map dnID (tdNodes dag))" using assms(1) by (simp add: dag_valid_iff)
  have order: "distinct topoOrder" "set topoOrder = dnID ` set (tdNodes dag)" "topological (edge_list (tdEdges dag)) topoOrder"
    using dag_order [OF assms(1)] d assms(2) mset_eq_setD [of topoOrder "map dnID (tdNodes dag)"] by (auto simp: topological_def)
  have nodes: "n \<in> set ?C \<longleftrightarrow> n \<in> set (tdNodes dag) \<and> map_of states (dnID n) = Some TaskStateCompleted" for n
    using order(2) node_of_distinct [OF d] node_of_id [of dag]
    by (auto simp: completed_nodes_def List.map_filter_def image_iff split: if_splits)
  have seq: "?seq = filter (\<lambda>nid. map_of states nid = Some TaskStateCompleted
      \<and> pred_option (\<lambda>n. dnCompensateAction n \<noteq> []) (node_of dag nid) \<and> node_of dag nid \<noteq> None) (rev topoOrder)"
    unfolding compensation_order_def by (rule completed_nodes_filter)
  have "sorted_wrt (\<lambda>a b. (a, b) \<notin> (edge_rel (tdEdges dag))\<^sup>+) (rev topoOrder)"
    using topological_sorted [OF order(3)] by (simp add: sorted_wrt_rev)
  then have sorted: "sorted_wrt (\<lambda>a b. (a, b) \<notin> (edge_rel (tdEdges dag))\<^sup>+) ?seq" unfolding seq by (rule sorted_wrt_filter)
  have dseq: "distinct ?seq" using order(1) by (simp add: seq)
  have set: "set ?seq = {dnID n |n. n \<in> set (tdNodes dag) \<and> map_of states (dnID n) = Some TaskStateCompleted \<and> dnCompensateAction n \<noteq> []}"
    using nodes by (auto simp: compensation_order_def)
  let ?to = "filter (\<lambda>n. dnCompensateAction n \<noteq> []) ?C"
  have the: "the (node_of dag (dnID n)) = n" if "n \<in> set ?C" for n
    using nodes [of n] that node_of_distinct [OF d] by simp
  have failed: "map dnID (filter (\<lambda>n. Q n) ?to) = filter (\<lambda>nid. Q (the (node_of dag nid))) ?seq" for Q
    unfolding compensation_order_def filter_map using the by (auto intro!: arg_cong [of _ _ "map dnID"] filter_cong)
  have missing: "filter (\<lambda>n. dnCompensateAction n = []) ?C \<noteq> []
      \<longleftrightarrow> (\<exists>n\<in>set (tdNodes dag). map_of states (dnID n) = Some TaskStateCompleted \<and> dnCompensateAction n = [])"
    using nodes by (auto simp: filter_empty_conv)
  have len: "length ?seq = length ?to" by (simp add: compensation_order_def)
  have flen: "length (filter Q ?to) = length (filter (\<lambda>nid. Q (the (node_of dag nid))) ?seq)" for Q
    using failed [of Q] by (metis length_map)
  show ?thesis
    using set dseq sorted assms(3) failed [of "\<lambda>n. noState (compensate opts task env results n) \<noteq> TaskStateCompleted"] missing len
      flen [of "\<lambda>n. noState (compensate opts task env results n) \<noteq> TaskStateCompleted"]
    by (auto simp: runSagaCompensation_def Let_def split: if_splits)
qed

definition undoable :: "string \<Rightarrow> string list \<Rightarrow> DagNode" where
  "undoable nid inputs = (sample_node nid inputs)\<lparr>dnCompensateAction := ''undo''\<rparr>"

definition two_nodes :: TaskDag where
  "two_nodes = \<lparr>tdNodes = [undoable ''a'' [], undoable ''b'' [''a'']], tdEdges = [\<lparr>deFrom = ''a'', deTo = ''b''\<rparr>]\<rparr>"

theorem saga_compensation_witness:
  "compensation_order two_nodes (dvTopologicalOrder (ValidateDag (Some two_nodes)))
      [(''a'', TaskStateCompleted), (''b'', TaskStateCompleted)] = [''b'', ''a'']
   \<and> scAttempted (fst (runSagaCompensation (DefaultOrchestratorOptions 1) one_task (exSaga one_env) two_nodes
       (dvTopologicalOrder (ValidateDag (Some two_nodes))) [] [(''a'', TaskStateCompleted), (''b'', TaskStateCompleted)])) = 2"
proof -
  let ?o = "dvTopologicalOrder (ValidateDag (Some two_nodes))" and ?st = "[(''a'', TaskStateCompleted), (''b'', TaskStateCompleted)]"
  let ?r = "runSagaCompensation (DefaultOrchestratorOptions 1) one_task (exSaga one_env) two_nodes ?o [] ?st"
  have v: "dvIsValid (ValidateDag (Some two_nodes))" by code_simp
  have o: "compensation_order two_nodes ?o ?st = [''b'', ''a'']" by code_simp
  have "\<not> CompensationIsStrict (effectiveCompensationPolicy one_task)" by code_simp
  then show ?thesis
    using saga_compensation [OF v refl, of "DefaultOrchestratorOptions 1" one_task "exSaga one_env" "[]" ?st "fst ?r" "snd ?r"] o by simp
qed

end
