(* ===== verification/Nop_Frames.thy ===== *)
theory Nop_Frames
  imports Ndp_Frames
begin

text \<open>
  \<open>nop/frames.go\<close>: the frames of the orchestration protocol and their dictionaries.  The readers \<open>str\<close>,
  \<open>optStr\<close> and \<open>toSliceStr\<close> are copies of those of the other packages; those for numbers know fewer kinds
  of integers.
\<close>

section \<open>Reading dictionaries\<close>

fun nop_toUint64 :: "goany \<Rightarrow> u64" where
  "nop_toUint64 (GNum KInt64 x) = word_of_int x"
| "nop_toUint64 (GNum KUint64 x) = word_of_int x"
| "nop_toUint64 (GF64 x) = f64_to_u64 x"
| "nop_toUint64 _ = 0"

fun toInt64 :: "goany \<Rightarrow> int" where
  "toInt64 (GNum KInt64 x) = x"
| "toInt64 (GF64 x) = f64_to_int x"
| "toInt64 _ = 0"

definition optUint64 :: "dict \<Rightarrow> string \<Rightarrow> u64 option" where
  "optUint64 d k = (if dhas d k then Some (nop_toUint64 (dget d k)) else None)"

definition optInt64 :: "dict \<Rightarrow> string \<Rightarrow> int option" where
  "optInt64 d k = (if dhas d k then Some (toInt64 (dget d k)) else None)"

text \<open>An assignment of a value that is not nil.\<close>

definition put_any :: "string \<Rightarrow> goany \<Rightarrow> dict \<Rightarrow> dict" where
  "put_any k v d = (if v \<noteq> GNil then dput k v d else d)"

section \<open>The frames\<close>

record TaskFrame =
  tfTaskID :: string
  tfDAG :: goany
  tfTimeoutMs :: "u64 option"
  tfCallbackURL :: "string option"
  tfContext :: goany
  tfPriority :: "string option"
  tfDepth :: "int option"
  tfCompensationPolicy :: string
  tfResultTtlSeconds :: u64

definition TaskFrame_ToDict :: "TaskFrame \<Rightarrow> dict" where
  "TaskFrame_ToDict f =
     (let d = [(''task_id'', GStr (tfTaskID f)), (''dag'', tfDAG f)];
          d = put_opt ''timeout_ms'' gu64 (tfTimeoutMs f) d;
          d = put_opt ''callback_url'' GStr (tfCallbackURL f) d;
          d = put_any ''context'' (tfContext f) d;
          d = put_opt ''priority'' GStr (tfPriority f) d;
          d = put_opt ''depth'' (GNum KInt64) (tfDepth f) d;
          d = put_if (tfCompensationPolicy f \<noteq> []) ''compensation_policy'' (GStr (tfCompensationPolicy f)) d
      in dput ''result_ttl_seconds'' (gu64 (or_default 3600 (tfResultTtlSeconds f))) d)"

definition TaskFrameFromDict :: "dict \<Rightarrow> TaskFrame" where
  "TaskFrameFromDict d =
     \<lparr>tfTaskID = str d ''task_id'', tfDAG = dget d ''dag'', tfTimeoutMs = optUint64 d ''timeout_ms'',
      tfCallbackURL = optStr d ''callback_url'', tfContext = dget d ''context'',
      tfPriority = optStr d ''priority'', tfDepth = optInt64 d ''depth'',
      tfCompensationPolicy = str d ''compensation_policy'',
      tfResultTtlSeconds = or_default 3600 (nop_toUint64 (dget d ''result_ttl_seconds''))\<rparr>"

record DelegateFrame =
  dgTaskID :: string
  dgSubtaskID :: string
  dgAction :: string
  dgTargetNID :: string
  dgInputs :: goany
  dgConfig :: goany
  dgIdempotencyKey :: "string option"
  dgTargetClusterAnchor :: "string option"

definition DelegateFrame_ToDict :: "DelegateFrame \<Rightarrow> dict" where
  "DelegateFrame_ToDict f =
     (let d = [(''parent_task_id'', GStr (dgTaskID f)), (''subtask_id'', GStr (dgSubtaskID f)),
               (''action'', GStr (dgAction f)), (''target_agent_nid'', GStr (dgTargetNID f))];
          d = put_any ''inputs'' (dgInputs f) d;
          d = put_any ''config'' (dgConfig f) d;
          d = put_opt ''idempotency_key'' GStr (dgIdempotencyKey f) d
      in put_opt ''target_cluster_anchor'' GStr (dgTargetClusterAnchor f) d)"

definition DelegateFrameFromDict :: "dict \<Rightarrow> DelegateFrame" where
  "DelegateFrameFromDict d =
     \<lparr>dgTaskID = str d ''parent_task_id'', dgSubtaskID = str d ''subtask_id'', dgAction = str d ''action'',
      dgTargetNID = str d ''target_agent_nid'', dgInputs = dget d ''inputs'', dgConfig = dget d ''config'',
      dgIdempotencyKey = optStr d ''idempotency_key'',
      dgTargetClusterAnchor = optStr d ''target_cluster_anchor''\<rparr>"

record SyncFrame =
  syTaskID :: string
  sySyncID :: string
  sySubtaskIDs :: "string list option"
  syMinRequired :: int
  syAggregate :: string
  syTimeoutMs :: "u64 option"

definition SyncFrame_ToDict :: "SyncFrame \<Rightarrow> dict" where
  "SyncFrame_ToDict f =
     put_opt ''timeout_ms'' gu64 (syTimeoutMs f)
       [(''task_id'', GStr (syTaskID f)), (''sync_id'', GStr (sySyncID f)),
        (''wait_for'', typed_nil GStrs (sySubtaskIDs f)), (''min_required'', GNum KInt64 (syMinRequired f)),
        (''aggregate'', GStr (syAggregate f))]"

definition SyncFrameFromDict :: "dict \<Rightarrow> SyncFrame" where
  "SyncFrameFromDict d =
     (let agg = str d ''aggregate''
      in \<lparr>syTaskID = str d ''task_id'', sySyncID = str d ''sync_id'',
          sySubtaskIDs = toSliceStr (dget d ''wait_for''), syMinRequired = toInt64 (dget d ''min_required''),
          syAggregate = (if agg = [] then ''merge'' else agg), syTimeoutMs = optUint64 d ''timeout_ms''\<rparr>)"

record AlignStreamFrame =
  asSyncID :: string
  asTaskID :: string
  asSubtaskID :: string
  asSeq :: u64
  asIsFinal :: bool
  asSourceNID :: "string option"
  asResult :: goany
  asError :: "dict option"
  asWindowSize :: "u64 option"
  asAckSeq :: "u64 option"
  asNakSeq :: "u64 option"

definition AlignStreamFrame_ErrorCode :: "AlignStreamFrame \<Rightarrow> string" where
  "AlignStreamFrame_ErrorCode f = (case asError f of None \<Rightarrow> [] | Some e \<Rightarrow> str e ''error_code'')"

definition AlignStreamFrame_ErrorMessage :: "AlignStreamFrame \<Rightarrow> string" where
  "AlignStreamFrame_ErrorMessage f = (case asError f of None \<Rightarrow> [] | Some e \<Rightarrow> str e ''message'')"

definition AlignStreamFrame_ToDict :: "AlignStreamFrame \<Rightarrow> dict" where
  "AlignStreamFrame_ToDict f =
     (let d = [(''stream_id'', GStr (asSyncID f)), (''task_id'', GStr (asTaskID f)),
               (''subtask_id'', GStr (asSubtaskID f)), (''seq'', gu64 (asSeq f)),
               (''is_final'', GBool (asIsFinal f))];
          d = put_opt ''sender_nid'' GStr (asSourceNID f) d;
          d = put_any ''result'' (asResult f) d;
          d = put_opt ''error'' GMap (asError f) d;
          d = put_opt ''window_size'' gu64 (asWindowSize f) d;
          d = put_opt ''ack_seq'' gu64 (asAckSeq f) d
      in put_opt ''nak_seq'' gu64 (asNakSeq f) d)"

definition AlignStreamFrameFromDict :: "dict \<Rightarrow> AlignStreamFrame" where
  "AlignStreamFrameFromDict d =
     \<lparr>asSyncID = str d ''stream_id'', asTaskID = str d ''task_id'', asSubtaskID = str d ''subtask_id'',
      asSeq = nop_toUint64 (dget d ''seq''), asIsFinal = bool_or_false (dget d ''is_final''),
      asSourceNID = optStr d ''sender_nid'', asResult = dget d ''result'', asError = toMap (dget d ''error''),
      asWindowSize = optUint64 d ''window_size'', asAckSeq = optUint64 d ''ack_seq'',
      asNakSeq = optUint64 d ''nak_seq''\<rparr>"

section \<open>Round trips\<close>

lemma dget_put_any [simp, dict_simps]: "dget (put_any k v d) j = (if j = k \<and> v \<noteq> GNil then v else dget d j)"
  by (simp add: put_any_def)

lemma dhas_put_any [simp, dict_simps]: "dhas (put_any k v d) j \<longleftrightarrow> (j = k \<and> v \<noteq> GNil) \<or> dhas d j"
  by (auto simp: put_any_def)

lemma nop_read_back [simp]: "nop_toUint64 (gu64 w) = w" "toSliceStr (typed_nil GStrs ss) = ss" "toMap (GMap m) = Some m"
  by (cases ss; simp add: typed_nil_def)+

lemmas nop_frame_reads = str_def optStr_def optUint64_def optInt64_def Let_def

text \<open>Every frame survives its dictionary, up to the defaults the readers fill in.\<close>

lemma nop_frames_dict_roundtrip:
  "TaskFrameFromDict (TaskFrame_ToDict t) = t\<lparr>tfResultTtlSeconds := or_default 3600 (tfResultTtlSeconds t)\<rparr>"
  "DelegateFrameFromDict (DelegateFrame_ToDict g) = g"
  "SyncFrameFromDict (SyncFrame_ToDict s) = s\<lparr>syAggregate := (if syAggregate s = [] then ''merge'' else syAggregate s)\<rparr>"
  "AlignStreamFrameFromDict (AlignStreamFrame_ToDict a) = a"
proof -
  show "TaskFrameFromDict (TaskFrame_ToDict t) = t\<lparr>tfResultTtlSeconds := or_default 3600 (tfResultTtlSeconds t)\<rparr>"
    by (rule TaskFrame.equality)
       (simp_all add: TaskFrameFromDict_def TaskFrame_ToDict_def nop_frame_reads split: option.split)
  show "DelegateFrameFromDict (DelegateFrame_ToDict g) = g"
    by (rule DelegateFrame.equality)
       (simp_all add: DelegateFrameFromDict_def DelegateFrame_ToDict_def nop_frame_reads split: option.split)
  show "SyncFrameFromDict (SyncFrame_ToDict s) = s\<lparr>syAggregate := (if syAggregate s = [] then ''merge'' else syAggregate s)\<rparr>"
    by (rule SyncFrame.equality)
       (simp_all add: SyncFrameFromDict_def SyncFrame_ToDict_def nop_frame_reads split: option.split)
  show "AlignStreamFrameFromDict (AlignStreamFrame_ToDict a) = a"
    by (rule AlignStreamFrame.equality)
       (simp_all add: AlignStreamFrameFromDict_def AlignStreamFrame_ToDict_def nop_frame_reads split: option.split)
qed

end
