(* ===== verification/Go_Struct.thy ===== *)
theory Go_Struct
  imports Go_Raw
begin

text \<open>
  \<open>json.Unmarshal\<close> into a struct.  The members of the object are taken in order; each goes to the field whose
  tag is the key, or else to one whose tag is the key up to letter case, and is decoded there over what the
  field already holds, so that of several members for one field the last counts.  A member of the wrong type
  leaves its field alone; decoding goes on and the error is returned at the end.  Members of no field are
  skipped.
\<close>

section \<open>Keys and fields\<close>

definition unmarshal_members :: "raw \<Rightarrow> (string \<times> raw) list option" where
  "unmarshal_members r =
     (case parse_json r of
        Some JNull \<Rightarrow> Some []
      | Some (JObj kvs) \<Rightarrow> Some (map (\<lambda>m. (member_key m, raw_text (drop 2 m))) (raw_members (raw_tokens r)))
      | _ \<Rightarrow> None)"

text \<open>Case folding, as far as it can meet a name in ASCII: besides the capital letters the long s and the
  Kelvin sign.\<close>

fun fold_key :: "string \<Rightarrow> string" where
  "fold_key [] = []"
| "fold_key (c # s) =
     (if c = CHR 0xC5 \<and> take 1 s = [CHR 0xBF] then CHR ''s'' # fold_key (drop 1 s)
      else if c = CHR 0xE2 \<and> take 2 s = [CHR 0x84, CHR 0xAA] then CHR ''k'' # fold_key (drop 2 s)
      else lower_char c # fold_key s)"

definition goes_to :: "string list \<Rightarrow> string \<Rightarrow> string \<Rightarrow> bool" where
  "goes_to tags name k \<longleftrightarrow> k = name \<or> k \<notin> set tags \<and> fold_key k = fold_key name"

definition field_values :: "string list \<Rightarrow> (string \<times> raw) list \<Rightarrow> string \<Rightarrow> raw list" where
  "field_values tags kvs name = map snd (filter (\<lambda>(k, r). goes_to tags name k) kvs)"

text \<open>A decoder takes what the field holds and the text of a value; \<open>None\<close> is a value of the wrong type.\<close>

type_synonym 'a decoder = "'a \<Rightarrow> raw \<Rightarrow> 'a option"

fun decode_field :: "'a decoder \<Rightarrow> 'a \<Rightarrow> raw list \<Rightarrow> 'a \<times> bool" where
  "decode_field dcd v [] = (v, True)"
| "decode_field dcd v (r # rs) =
     (case dcd v r of
        Some v' \<Rightarrow> decode_field dcd v' rs
      | None \<Rightarrow> (fst (decode_field dcd v rs), False))"

definition struct_field :: "string list \<Rightarrow> (string \<times> raw) list \<Rightarrow> string \<Rightarrow> 'a decoder \<Rightarrow> 'a \<Rightarrow> 'a \<times> bool" where
  "struct_field tags kvs name dcd v = decode_field dcd v (field_values tags kvs name)"

section \<open>Decoders\<close>

definition dec_string :: "string decoder" where
  "dec_string v r = (case parse_json r of Some JNull \<Rightarrow> Some v | Some (JStr s) \<Rightarrow> Some (unquote s) | _ \<Rightarrow> None)"

definition dec_bool :: "bool decoder" where
  "dec_bool v r =
     (case parse_json r of Some JNull \<Rightarrow> Some v | Some (JBool b) \<Rightarrow> Some b | _ \<Rightarrow> None)"

definition dec_u64 :: "u64 decoder" where
  "dec_u64 v r = (case parse_json r of Some JNull \<Rightarrow> Some v | Some (JNum s) \<Rightarrow> ParseUint64 s | _ \<Rightarrow> None)"

definition dec_u32 :: "u32 decoder" where
  "dec_u32 v r =
     (case parse_json r of
        Some JNull \<Rightarrow> Some v
      | Some (JNum s) \<Rightarrow> (case ParseUint64 s of
            Some n \<Rightarrow> if n < 0x100000000 then Some (ucast n) else None
          | None \<Rightarrow> None)
      | _ \<Rightarrow> None)"

definition dec_int64 :: "int decoder" where
  "dec_int64 v r = (case parse_json r of Some JNull \<Rightarrow> Some v | Some (JNum s) \<Rightarrow> ParseInt64 s | _ \<Rightarrow> None)"

text \<open>A raw message takes every value as it is, \<open>null\<close> included.\<close>

definition dec_raw :: "raw decoder" where
  "dec_raw v r = Some r"

text \<open>A pointer becomes nil for \<open>null\<close> and otherwise points to what it pointed to or to a new zero value.\<close>

definition dec_ptr :: "'a \<Rightarrow> 'a decoder \<Rightarrow> 'a option decoder" where
  "dec_ptr zero dcd v r =
     (if parse_json r = Some JNull then Some None
      else map_option Some (dcd (case v of Some x \<Rightarrow> x | None \<Rightarrow> zero) r))"

text \<open>A slice of strings.\<close>

definition dec_strings :: "string list option decoder" where
  "dec_strings v r =
     (if parse_json r = Some JNull then Some None
      else case unmarshal_slice r of
        None \<Rightarrow> None
      | Some rs \<Rightarrow> map_option Some (those (map (dec_string []) rs)))"

section \<open>Encoding\<close>

text \<open>\<open>json.Marshal\<close> of a struct writes its fields in the order of their declaration, of a map in the order
  of its keys.  Fields that \<open>omitempty\<close> leaves out are not listed.\<close>

definition jstruct :: "(string \<times> json res) list \<Rightarrow> json res" where
  "jstruct kvs = bindr (all_res (map (\<lambda>(k, r). bindr r (\<lambda>j. Inr (json_quote k, j))) kvs)) (\<lambda>ms. Inr (JObj ms))"

definition jmap :: "(string \<times> json res) list \<Rightarrow> json res" where
  "jmap kvs = bindr (all_res (map (\<lambda>(k, r). bindr r (\<lambda>j. Inr (k, j))) kvs)) (\<lambda>ms. Inr (jobj ms))"

definition jstring :: "string \<Rightarrow> json res" where
  "jstring s = Inr (JStr (json_quote s))"

definition jint :: "int \<Rightarrow> json res" where
  "jint i = Inr (JNum (dec_int i))"

definition jbool :: "bool \<Rightarrow> json res" where
  "jbool b = Inr (JBool b)"

definition jstrings :: "string list option \<Rightarrow> json res" where
  "jstrings ss = (case ss of None \<Rightarrow> Inr JNull | Some xs \<Rightarrow> Inr (JArr (map (\<lambda>s. JStr (json_quote s)) xs)))"

definition jlist :: "json res list \<Rightarrow> json res" where
  "jlist rs = bindr (all_res rs) (\<lambda>js. Inr (JArr js))"

text \<open>A raw message is written in compact form with the HTML characters in its strings escaped.\<close>

fun json_escape :: "json \<Rightarrow> json" where
  "json_escape (JStr s) = JStr (escape_html s)"
| "json_escape (JArr js) = JArr (map json_escape js)"
| "json_escape (JObj kvs) = JObj (map (\<lambda>(k, j). (escape_html k, json_escape j)) kvs)"
| "json_escape j = j"

definition jraw :: "raw \<Rightarrow> json res" where
  "jraw r = (if r = [] then Inr JNull
             else case parse_json r of None \<Rightarrow> Inl json_error | Some j \<Rightarrow> Inr (json_escape j))"

definition optional :: "string \<Rightarrow> ('a \<Rightarrow> json res) \<Rightarrow> 'a option \<Rightarrow> (string \<times> json res) list" where
  "optional k f v = (case v of None \<Rightarrow> [] | Some x \<Rightarrow> [(k, f x)])"

definition optional_raw :: "string \<Rightarrow> raw \<Rightarrow> (string \<times> json res) list" where
  "optional_raw k r = (if r = [] then [] else [(k, jraw r)])"

text \<open>\<open>Encode\<close> of a \<open>json.Encoder\<close> writes the value and a line feed, and nothing when it fails.\<close>

definition encode_line :: "json res \<Rightarrow> string" where
  "encode_line r = (case r of Inl e \<Rightarrow> [] | Inr j \<Rightarrow> json_text j @ [CHR 0x0A])"

section \<open>Compact objects\<close>

lemma unmarshal_members_text:
  assumes "json_ok 10000 (JObj kvs)"
  shows "unmarshal_members (json_text (JObj kvs)) = Some (map (\<lambda>(k, j). (unquote k, json_text j)) kvs)"
  using parse_json_text [OF assms] raw_tokens_text [OF assms]
  by (simp add: unmarshal_members_def raw_members_obj comp_def case_prod_unfold
      member_key_def raw_text_pad json_text_def del: toks.simps)

text \<open>When every member belongs to one field or to none, the decoder sees at most one value.\<close>

definition keys_ok :: "string list \<Rightarrow> string list \<Rightarrow> bool" where
  "keys_ok tags ks \<longleftrightarrow> distinct ks \<and> list_all (\<lambda>k. k \<in> set tags \<or> fold_key k \<notin> fold_key ` set tags) ks"

lemma struct_field_lookup:
  assumes "keys_ok tags (map fst kvs)" and "name \<in> set tags"
  shows "struct_field tags kvs name dcd v =
     (case map_of kvs name of
        None \<Rightarrow> (v, True)
      | Some r \<Rightarrow> (case dcd v r of Some x \<Rightarrow> (x, True) | None \<Rightarrow> (v, False)))"
proof -
  have "goes_to tags name k \<longleftrightarrow> k = name" if "k \<in> fst ` set kvs" for k
    using that assms by (auto simp: goes_to_def keys_ok_def list_all_iff)
  then have "field_values tags kvs name = map snd (filter (\<lambda>(k, r). k = name) kvs)"
    by (force simp: field_values_def intro!: arg_cong [of _ _ "map snd"] filter_cong)
  moreover have "distinct (map fst ys) \<Longrightarrow> map snd (filter (\<lambda>(k, r). k = name) ys)
      = (case map_of ys name of None \<Rightarrow> [] | Some r \<Rightarrow> [r])" for ys :: "(string \<times> raw) list"
    by (induction ys) (auto split: option.split simp: filter_empty_conv image_iff)
  ultimately show ?thesis
    using assms(1) by (auto simp: struct_field_def keys_ok_def split: option.split)
qed

text \<open>The text of what an encoder made, and that it can be read back.\<close>

definition jtext :: "json res \<Rightarrow> raw" where
  "jtext r = (case r of Inr j \<Rightarrow> json_text j | Inl e \<Rightarrow> [])"

definition jok :: "int \<Rightarrow> json res \<Rightarrow> bool" where
  "jok d r = (case r of Inr j \<Rightarrow> json_ok d j | Inl e \<Rightarrow> False)"

lemma all_res_Inr: "all_res (map (\<lambda>x. Inr (f x)) xs) = Inr (map f xs)"
  by (induction xs) simp_all

lemma jok_fields:
  assumes "list_all (\<lambda>(k, r). jok d r) kvs"
  shows "all_res (map (\<lambda>(k, r). bindr r (\<lambda>j. Inr (g k, j))) kvs) = Inr (map (\<lambda>(k, r). (g k, projr r)) kvs)"
proof -
  have "map (\<lambda>(k, r). bindr r (\<lambda>j. Inr (g k, j))) kvs = map (\<lambda>x. Inr ((\<lambda>(k, r). (g k, projr r)) x)) kvs"
    using assms by (auto simp: list_all_iff jok_def split: sum.splits)
  then show ?thesis by (simp only: all_res_Inr)
qed

lemma jstruct_fields: "list_all (\<lambda>(k, r). jok d r) kvs \<Longrightarrow> jstruct kvs = Inr (JObj (map (\<lambda>(k, r). (json_quote k, projr r)) kvs))"
  by (simp add: jstruct_def jok_fields)

lemma jmap_fields: "list_all (\<lambda>(k, r). jok d r) kvs \<Longrightarrow> jmap kvs = Inr (jobj (map (\<lambda>(k, r). (k, projr r)) kvs))"
  by (simp add: jmap_def jok_fields)

lemma jok_projr: "jok d r \<Longrightarrow> json_ok d (projr r)"
  by (cases r) (simp_all add: jok_def)

lemma jok_Inr: "jok d (Inr j) \<longleftrightarrow> json_ok d j"
  by (simp add: jok_def)

lemma jok_jstruct:
  assumes "0 < d" and "list_all (\<lambda>(k, r). jok (d - 1) r) kvs"
  shows "jok d (jstruct kvs)"
  using assms by (auto simp: jstruct_fields [OF assms(2)] jok_Inr list_all_iff str_lit_quote intro: jok_projr)

lemma jok_jmap:
  assumes "0 < d" and "list_all (\<lambda>(k, r). jok (d - 1) r) kvs"
  shows "jok d (jmap kvs)"
  using assms by (auto simp: jmap_fields [OF assms(2)] jobj_def jok_Inr list_all_iff str_lit_quote intro: jok_projr)

text \<open>Reading an encoded struct or map gives its fields and their texts.\<close>

definition field_texts :: "(string \<times> json res) list \<Rightarrow> (string \<times> raw) list" where
  "field_texts kvs = map (\<lambda>(k, r). (k, jtext r)) kvs"

lemma jtext_projr: "jok d r \<Longrightarrow> json_text (projr r) = jtext r"
  by (cases r) (simp_all add: jok_def jtext_def)

lemma unmarshal_jstruct:
  assumes "list_all (\<lambda>(k, r). utf8_valid k \<and> jok 9999 r) kvs"
  shows "unmarshal_members (jtext (jstruct kvs)) = Some (field_texts kvs)"
proof -
  have j: "list_all (\<lambda>(k, r). jok 9999 r) kvs" using assms by (auto simp: list_all_iff)
  have "jok 10000 (jstruct kvs)" using jok_jstruct [of 10000 kvs] j by simp
  then have "json_ok 10000 (JObj (map (\<lambda>(k, r). (json_quote k, projr r)) kvs))"
    by (simp add: jstruct_fields [OF j] jok_def)
  from unmarshal_members_text [OF this] show ?thesis
    using assms by (auto simp: jstruct_fields [OF j] jtext_def [of "Inr _"] field_texts_def list_all_iff
      unquote_json_quote jtext_projr)
qed

lemma unmarshal_jmap:
  assumes "list_all (\<lambda>(k, r). utf8_valid k \<and> jok 9999 r) kvs"
  shows "unmarshal_members (jtext (jmap kvs)) = Some (sort_key fst (field_texts kvs))"
proof -
  have j: "list_all (\<lambda>(k, r). jok 9999 r) kvs" using assms by (auto simp: list_all_iff)
  let ?js = "map (\<lambda>(k, r). (json_quote k, r)) (sort_key fst (map (\<lambda>(k, r). (k, projr r)) kvs))"
  have "jok 10000 (jmap kvs)" using jok_jmap [of 10000 kvs] j by simp
  then have "json_ok 10000 (JObj ?js)" by (simp add: jmap_fields [OF j] jok_def jobj_def)
  from unmarshal_members_text [OF this]
  have "unmarshal_members (jtext (jmap kvs)) = Some (map (\<lambda>(k, j). (unquote k, json_text j)) ?js)"
    by (simp add: jmap_fields [OF j] jtext_def jobj_def)
  also have "map (\<lambda>(k, j). (unquote k, json_text j)) ?js = map (\<lambda>(k, j). (k, json_text j)) (sort_key fst (map (\<lambda>(k, r). (k, projr r)) kvs))"
    using assms by (auto simp: list_all_iff unquote_json_quote)
  also have "\<dots> = sort_key fst (map (\<lambda>(k, j). (k, json_text j)) (map (\<lambda>(k, r). (k, projr r)) kvs))"
    using sort_key_map_snd [of json_text "map (\<lambda>(k, r). (k, projr r)) kvs"] by (simp add: case_prod_unfold)
  also have "map (\<lambda>(k, j). (k, json_text j)) (map (\<lambda>(k, r). (k, projr r)) kvs) = field_texts kvs"
    using assms by (auto simp: field_texts_def list_all_iff jtext_projr)
  finally show ?thesis .
qed

text \<open>The primitive encoders and their decoders.\<close>

lemma jok_prims [simp]:
  "jok d (jstring s)" "jok d (jbool b)" "jok d (jint i)" "0 < d \<Longrightarrow> jok d (jstrings ss)" "jok d (Inr JNull)"
  by (auto simp: jok_def jstring_def jbool_def jint_def jstrings_def str_lit_quote num_lit_dec_int list_all_iff split: option.split)

lemma jlist_elems: "list_all (jok d) rs \<Longrightarrow> jlist rs = Inr (JArr (map projr rs))"
proof -
  have "list_all (jok d) rs \<Longrightarrow> all_res rs = Inr (map projr rs)"
    by (induction rs) (auto simp: jok_def split: sum.splits)
  then show "list_all (jok d) rs \<Longrightarrow> jlist rs = Inr (JArr (map projr rs))" by (simp add: jlist_def)
qed

lemma jok_jlist: "0 < d \<Longrightarrow> list_all (jok (d - 1)) rs \<Longrightarrow> jok d (jlist rs)"
  by (auto simp: jlist_elems [of "d - 1"] jok_Inr list_all_iff intro: jok_projr)

lemma parse_jtext: "jok 10000 r \<Longrightarrow> parse_json (jtext r) = Some (projr r)"
  by (cases r) (simp_all add: jok_def jtext_def parse_json_text)

lemma projr_prims [simp]:
  "projr (jstring s) = JStr (json_quote s)" "projr (jbool b) = JBool b" "projr (jint i) = JNum (dec_int i)"
  "projr (jstrings ss) = (case ss of None \<Rightarrow> JNull | Some xs \<Rightarrow> JArr (map (\<lambda>s. JStr (json_quote s)) xs))"
  by (simp_all add: jstring_def jbool_def jint_def jstrings_def split: option.split)

lemma ParseUint64_dec_int [simp]: "ParseUint64 (dec_int (uint (w :: u64))) = Some w"
  using ParseUint64_dec_unat [of w] by (simp add: dec_int_def)

lemma ParseUint64_u32 [simp]: "ParseUint64 (dec_int (uint (w :: u32))) = Some (ucast w)"
  using ParseUint64_dec_int [of "ucast w"] by (simp add: uint_up_ucast is_up)

lemma dec_prims [simp]:
  "utf8_valid s \<Longrightarrow> dec_string v (jtext (jstring s)) = Some s"
  "dec_bool b0 (jtext (jbool b)) = Some b"
  "dec_u64 n (jtext (jint (uint w))) = Some w"
  "dec_u32 m (jtext (jint (uint x))) = Some x"
  "dec_raw r0 r = Some r"
proof -
  have "ucast x < (0x100000000 :: u64)"
    using uint_bounded [of x] by (simp add: word_less_alt uint_up_ucast is_up)
  then show "dec_u32 m (jtext (jint (uint x))) = Some x"
    by (simp add: dec_u32_def parse_jtext ucast_up_ucast_id is_up)
qed (simp_all add: dec_string_def dec_bool_def dec_u64_def dec_raw_def parse_jtext unquote_json_quote)

lemma dec_ptr_Some:
  assumes "jok 10000 r" and "projr r \<noteq> JNull" and "\<And>x. dcd x (jtext r) = Some y"
  shows "dec_ptr zero dcd v (jtext r) = Some (Some y)"
  using assms by (simp add: dec_ptr_def parse_jtext)

lemma dec_ptr_prims [simp]:
  "utf8_valid s \<Longrightarrow> dec_ptr [] dec_string v (jtext (jstring s)) = Some (Some s)"
  "dec_ptr False dec_bool b0 (jtext (jbool b)) = Some (Some b)"
  "dec_ptr 0 dec_u64 n (jtext (jint (uint w))) = Some (Some w)"
  "dec_ptr 0 dec_u32 m (jtext (jint (uint x))) = Some (Some x)"
  by (simp_all add: dec_ptr_Some)

lemma dec_strings_jtext [simp]:
  assumes "pred_option (list_all utf8_valid) ss"
  shows "dec_strings v (jtext (jstrings ss)) = Some ss"
proof (cases ss)
  case None
  then show ?thesis by (simp add: dec_strings_def parse_jtext)
next
  case (Some xs)
  have "json_ok 10000 (JArr (map (\<lambda>s. JStr (json_quote s)) xs))" by (simp add: list_all_iff str_lit_quote)
  note u = unmarshal_slice_text [OF this]
  have "those (map (\<lambda>s. dec_string [] (json_text (JStr (json_quote s)))) xs) = Some xs"
    if "list_all utf8_valid xs" for xs
    using that
  proof (induction xs)
    case (Cons a xs)
    moreover have "dec_string [] (json_text (JStr (json_quote a))) = Some a"
      using dec_prims(1) [of a "[]"] Cons.prems by (simp add: jtext_def jstring_def)
    ultimately show ?case by simp
  qed simp
  moreover have "jtext (jstrings ss) = json_text (JArr (map (\<lambda>s. JStr (json_quote s)) xs))"
    by (simp add: jtext_def jstrings_def Some)
  moreover have "parse_json (jtext (jstrings ss)) = Some (JArr (map (\<lambda>s. JStr (json_quote s)) xs))"
    by (simp add: parse_jtext Some)
  ultimately show ?thesis
    using assms Some u by (simp add: dec_strings_def comp_def)
qed

text \<open>Looking up the fields of an encoded struct.\<close>

lemma map_of_field_texts [simp]: "map_of (field_texts kvs) k = map_option jtext (map_of kvs k)"
  by (induction kvs) (auto simp: field_texts_def)

lemma map_fst_field_texts [simp]: "map fst (field_texts kvs) = map fst kvs"
  by (simp add: field_texts_def case_prod_unfold)

definition raw_opt :: "raw \<Rightarrow> json res option" where
  "raw_opt r = (if r = [] then None else Some (jraw r))"

lemma map_of_optional [simp]:
  "map_of (optional k f v) j = (if j = k then map_option f v else None)"
  "map_of (optional_raw k r) j = (if j = k then raw_opt r else None)"
  by (auto simp: optional_def optional_raw_def raw_opt_def split: option.split)

lemma map_of_optional_append:
  "map_of (optional k f v @ ys) j = (if j = k then if v = None then map_of ys j else map_option f v else map_of ys j)"
  "map_of (optional_raw k r @ ys) j = (if j = k then if raw_opt r = None then map_of ys j else raw_opt r else map_of ys j)"
  by (auto simp: optional_def optional_raw_def raw_opt_def split: option.split)

lemma if_None_same [simp]: "(if v = None then None else map_option f v) = map_option f v" "(if w = None then None else w) = w"
  by simp_all

text \<open>A raw message in the form in which it is written again unchanged.\<close>

definition raw_ok :: "raw \<Rightarrow> bool" where
  "raw_ok r \<longleftrightarrow> r = [] \<or> (case parse_json r of None \<Rightarrow> False
     | Some j \<Rightarrow> json_text j = r \<and> json_escape j = j \<and> json_ok 9000 j)"

lemma raw_ok_jraw:
  assumes "raw_ok r" and "r \<noteq> []"
  shows "jtext (jraw r) = r" and "jok 9000 (jraw r)"
  using assms by (auto simp: raw_ok_def jraw_def jtext_def jok_def split: option.splits)

text \<open>Reading a field of what was written from a struct or from a map whose keys are all tags.\<close>

definition read_of :: "json res option \<Rightarrow> 'a decoder \<Rightarrow> 'a \<Rightarrow> 'a \<times> bool" where
  "read_of w dcd v =
     (case w of
        None \<Rightarrow> (v, True)
      | Some r \<Rightarrow> (case dcd v (jtext r) of Some x \<Rightarrow> (x, True) | None \<Rightarrow> (v, False)))"

lemma keys_ok_subset: "distinct (map fst kvs) \<Longrightarrow> fst ` set kvs \<subseteq> set tags \<Longrightarrow> keys_ok tags (map fst kvs)"
  by (auto simp: keys_ok_def list_all_iff)

lemma struct_field_written:
  assumes "keys_ok tags (map fst kvs)" and "name \<in> set tags"
  shows "struct_field tags (field_texts kvs) name dcd v = read_of (map_of kvs name) dcd v"
    and "struct_field tags (sort_key fst (field_texts kvs)) name dcd v = read_of (map_of kvs name) dcd v"
proof -
  show "struct_field tags (field_texts kvs) name dcd v = read_of (map_of kvs name) dcd v"
    using assms by (subst struct_field_lookup) (auto simp: read_of_def split: option.split)
  have "set (map fst (sort_key fst (field_texts kvs))) = set (map fst kvs)"
    by (metis list.set_map map_fst_field_texts set_sort)
  moreover have "distinct (map fst (sort_key fst (field_texts kvs)))"
  proof -
    have "distinct (map fst (field_texts kvs))" using assms(1) by (simp add: keys_ok_def)
    then show ?thesis by (simp add: distinct_map del: map_fst_field_texts)
  qed
  ultimately have "keys_ok tags (map fst (sort_key fst (field_texts kvs)))"
    using assms(1) by (simp add: keys_ok_def list_all_iff)
  then show "struct_field tags (sort_key fst (field_texts kvs)) name dcd v = read_of (map_of kvs name) dcd v"
    using assms by (subst struct_field_lookup) (auto simp: map_of_sort_key keys_ok_def read_of_def split: option.split)
qed

definition opt_utf8 :: "string option \<Rightarrow> bool" where
  "opt_utf8 = pred_option utf8_valid"

definition opts_utf8 :: "string list option \<Rightarrow> bool" where
  "opts_utf8 = pred_option (list_all utf8_valid)"

lemma opt_utf8_simps [simp]:
  "opt_utf8 None" "opt_utf8 (Some s) = utf8_valid s" "opts_utf8 None" "opts_utf8 (Some ss) = list_all utf8_valid ss"
  by (simp_all add: opt_utf8_def opts_utf8_def)

lemma dec_strings_ok [simp]: "opts_utf8 ss \<Longrightarrow> dec_strings v (jtext (jstrings ss)) = Some ss"
  by (simp add: opts_utf8_def)

lemma read_of_simps [simp]:
  "read_of None dcd v = (v, True)"
  "dcd v (jtext r) = Some x \<Longrightarrow> read_of (Some r) dcd v = (x, True)"
  by (simp_all add: read_of_def)

lemma read_of_optional [simp]:
  "opt_utf8 a \<Longrightarrow> read_of (map_option jstring a) (dec_ptr [] dec_string) None = (a, True)"
  "read_of (map_option jbool b) (dec_ptr False dec_bool) None = (b, True)"
  "read_of (map_option (\<lambda>n. jint (uint n)) c) (dec_ptr 0 dec_u32) None = (c, True)"
  "read_of (map_option (\<lambda>n. jint (uint n)) d) (dec_ptr 0 dec_u64) None = (d, True)"
  "opts_utf8 ss \<Longrightarrow> read_of (map_option (\<lambda>ts. jstrings (Some ts)) ss) dec_strings None = (ss, True)"
  by (cases a; cases b; cases c; cases d; cases ss; simp)+

lemma read_of_raw [simp]: "raw_ok r \<Longrightarrow> read_of (raw_opt r) dec_raw [] = (r, True)"
  by (auto simp: raw_opt_def raw_ok_jraw)

lemma keys_optional [simp]:
  "distinct (map fst (optional k f v))" "distinct (map fst (optional_raw k r))"
  "fst ` set (optional k f v) = (if v = None then {} else {k})" "fst ` set (optional_raw k r) = (if r = [] then {} else {k})"
  by (auto simp: optional_def optional_raw_def split: option.split)

lemma list_all_optional [simp]:
  "list_all P (optional k f v) \<longleftrightarrow> pred_option (\<lambda>x. P (k, f x)) v"
  "list_all P (optional_raw k r) \<longleftrightarrow> (r = [] \<or> P (k, jraw r))"
  by (auto simp: optional_def optional_raw_def split: option.split)

lemma jok_mono: "jok d r \<Longrightarrow> d \<le> e \<Longrightarrow> jok e r"
  by (cases r) (auto simp: jok_def intro: json_ok_mono)

lemma raw_ok_jok [simp]: "raw_ok r \<Longrightarrow> 9000 \<le> d \<Longrightarrow> r = [] \<or> jok d (jraw r)"
  using raw_ok_jraw(2) jok_mono by blast

section \<open>Escaped text stays as it is\<close>

lemma escape_html_plain:
  "list_all (\<lambda>c. c \<noteq> CHR ''<'' \<and> c \<noteq> CHR ''>'' \<and> c \<noteq> CHR ''&'' \<and> c \<noteq> CHR 0xE2) xs \<Longrightarrow> escape_html (xs @ t) = xs @ escape_html t"
  by (induction xs) simp_all

lemma escape_html_ascii: "code c < 0x80 \<Longrightarrow> escape_html (quote_ascii c @ t) = quote_ascii c @ escape_html t"
proof -
  have h: "d < 16 \<Longrightarrow> hex_low d \<notin> {CHR ''<'', CHR ''>'', CHR ''&'', CHR 0xE2}" for d
    using hex_low_digit [of d] by (auto simp: is_hex_def is_digit_def in_range_def)
  assume c: "code c < 0x80"
  then have "c \<noteq> CHR 0xE2" by auto
  then show ?thesis
    using c h [of "code c div 16"] h [of "code c mod 16"]
    by (intro escape_html_plain) (simp add: quote_ascii_def)
qed

lemma escape_html_seq:
  assumes "utf8_width (a # s) \<noteq> 0" and "\<not> code a < 0x80"
  shows "escape_html (quote_seq (a # take (utf8_width (a # s) - 1) s) @ t)
       = quote_seq (a # take (utf8_width (a # s) - 1) s) @ escape_html t"
  using assms
proof (cases rule: utf8_width_cases)
  case (two b u)
  then have "a \<noteq> CHR 0xE2" "b \<noteq> CHR 0xE2" "a \<noteq> CHR ''<''" "b \<noteq> CHR ''<''" "a \<noteq> CHR ''>''" "b \<noteq> CHR ''>''" "a \<noteq> CHR ''&''" "b \<noteq> CHR ''&''"
    by (auto simp: in_range_def)
  then show ?thesis using two by (simp add: quote_seq_def)
next
  case (three b c u)
  then have "b \<noteq> CHR 0xE2" "c \<noteq> CHR 0xE2" "a \<noteq> CHR ''<''" "b \<noteq> CHR ''<''" "c \<noteq> CHR ''<''" "a \<noteq> CHR ''>''" "b \<noteq> CHR ''>''" "c \<noteq> CHR ''>''"
    "a \<noteq> CHR ''&''" "b \<noteq> CHR ''&''" "c \<noteq> CHR ''&''"
    by (auto simp: in_range_def split: if_splits)
  then show ?thesis using three by (auto simp: quote_seq_def)
next
  case (four b c d u)
  then have "a \<noteq> CHR 0xE2" "b \<noteq> CHR 0xE2" "c \<noteq> CHR 0xE2" "d \<noteq> CHR 0xE2" "a \<noteq> CHR ''<''" "b \<noteq> CHR ''<''" "c \<noteq> CHR ''<''" "d \<noteq> CHR ''<''"
    "a \<noteq> CHR ''>''" "b \<noteq> CHR ''>''" "c \<noteq> CHR ''>''" "d \<noteq> CHR ''>''" "a \<noteq> CHR ''&''" "b \<noteq> CHR ''&''" "c \<noteq> CHR ''&''" "d \<noteq> CHR ''&''"
    by (auto simp: in_range_def split: if_splits)
  then show ?thesis using four by (simp add: quote_seq_def)
qed

lemma escape_json_quote [simp]: "escape_html (json_quote s) = json_quote s"
proof (induction s rule: json_quote.induct)
  case (2 a s)
  show ?case
  proof (cases "code a < 0x80")
    case True
    then show ?thesis using 2 by (simp add: escape_html_ascii)
  next
    case False
    show ?thesis
    proof (cases "utf8_width (a # s) = 0")
      case True
      then show ?thesis using 2 False by simp
    next
      case w: False
      then show ?thesis using 2 False escape_html_seq [OF w False] by (simp add: Let_def del: escape_html.simps)
    qed
  qed
qed simp

lemma raw_ok_jmap:
  assumes "list_all (\<lambda>(k, r). jok 8999 r \<and> json_escape (projr r) = projr r) kvs"
  shows "raw_ok (jtext (jmap kvs))" and "jtext (jmap kvs) \<noteq> []"
proof -
  have j: "list_all (\<lambda>(k, r). jok 8999 r) kvs" using assms by (auto simp: list_all_iff)
  have ok: "json_ok 9000 (projr (jmap kvs))" using jok_projr [OF jok_jmap [of 9000 kvs]] j by simp
  have e: "json_escape (projr (jmap kvs)) = projr (jmap kvs)"
    using assms by (auto simp: jmap_fields [OF j] jobj_def list_all_iff)
  have t: "jtext (jmap kvs) = json_text (projr (jmap kvs))" by (simp add: jmap_fields [OF j] jtext_def)
  show "raw_ok (jtext (jmap kvs))"
    using parse_json_text [OF json_ok_mono [OF ok]] ok e by (simp add: raw_ok_def t)
  show "jtext (jmap kvs) \<noteq> []" by (simp add: jmap_fields [OF j] jtext_def jobj_def json_text_def)
qed

section \<open>Values followed by a line feed\<close>

lemma punct_stops_line: "punct ts \<Longrightarrow> stops (concat (map tok_text ts) @ [CHR 0x0A])"
  by (cases ts) (auto simp: punct_def stops_def num_char_def)

lemma json_lex_line:
  "list_all tok_ok ts \<Longrightarrow> sep_ok ts \<Longrightarrow> json_lex (concat (map tok_text ts) @ [CHR 0x0A]) = Some ts"
proof (induction ts)
  case Nil
  then show ?case by (subst json_lex.simps) (simp add: is_space_def)
next
  case (Cons t ts)
  then show ?case by (subst (1) list.map, simp only: concat.simps append_assoc, subst json_lex_text)
      (auto intro: punct_stops_line)
qed

lemma raw_lex_line:
  "list_all tok_ok ts \<Longrightarrow> sep_ok ts \<Longrightarrow> raw_lex (concat (map tok_text ts) @ [CHR 0x0A]) = Some (pad ts)"
proof (induction ts)
  case (Cons t ts)
  have n: "next_tok (tok_text t @ concat (map tok_text ts) @ [CHR 0x0A]) = Some (t, concat (map tok_text ts) @ [CHR 0x0A])"
    using Cons.prems by (intro next_tok_text) (auto intro: punct_stops_line)
  obtain c r where "tok_text t = c # r" "\<not> is_space c" using tok_text_hd [of t] Cons.prems by auto
  then show ?case using n Cons by (subst raw_lex.simps) simp
qed (subst raw_lex.simps, simp add: is_space_def)

text \<open>The line feed that an encoder appends does not change what is read.\<close>

lemma parse_json_line:
  assumes "json_ok 10000 j"
  shows "parse_json (json_text j @ [CHR 0x0A]) = Some j" and "raw_tokens (json_text j @ [CHR 0x0A]) = raw_tokens (json_text j)"
proof -
  have s: "list_all tok_ok (toks j)" "sep_ok (toks j)"
    using tok_ok_toks [OF assms] sep_ok_toks [of "[]" j] by (simp_all add: punct_def)
  show "parse_json (json_text j @ [CHR 0x0A]) = Some j"
    using json_lex_line [OF s] prun_toks [OF assms, of "[]" "[]"] by (simp add: parse_json_def json_text_def)
  show "raw_tokens (json_text j @ [CHR 0x0A]) = raw_tokens (json_text j)"
    using raw_lex_line [OF s] raw_tokens_text [OF assms] by (simp add: raw_tokens_def json_text_def)
qed

lemma unmarshal_members_line:
  assumes "jok 10000 r"
  shows "unmarshal_members (encode_line r) = unmarshal_members (jtext r)"
  using assms
  by (cases r) (auto simp: jok_def encode_line_def jtext_def unmarshal_members_def parse_json_line parse_json_text split: json.split)

end
