(* ===== verification/Nwp_Topology.thy ===== *)
theory Nwp_Topology
  imports Go_Struct
begin

text \<open>
  The topology of an anchor's cluster: the snapshot and event types of \<open>nwp/anchor_client.go\<close>, the JSON that
  the server writes for them (\<open>eventToEnvelope\<close>, \<open>memberToMap\<close> of \<open>nwp/anchor_server.go\<close> and the struct
  tags), the JSON reader of the client (\<open>parseTopologyEvent\<close>), and the anchor-state events of
  \<open>nwp/anchor_state.go\<close>.  A slice or raw message that is nil is \<open>None\<close> or the empty text.
\<close>

section \<open>Types\<close>

record MemberInfo =
  miNid :: string
  miNodeRoles :: "string list option"
  miActivationMode :: string
  miChildAnchor :: "bool option"
  miMemberCount :: "u32 option"
  miTags :: "string list option"
  miJoinedAt :: "string option"
  miLastSeen :: "string option"
  miCapabilities :: raw
  miMetrics :: raw

record TopologySnapshot =
  tsVersion :: u64
  tsAnchorNid :: string
  tsClusterSize :: u32
  tsMembers :: "MemberInfo list option"
  tsTruncated :: "bool option"
  tsClusterEpoch :: "u64 option"

record TopologyFilter =
  tpTagsAny :: "string list option"
  tpTagsAll :: "string list option"
  tpNodeRoles :: "string list option"

record MemberChanges =
  mcNodeRoles :: "string list option"
  mcActivationMode :: "string option"
  mcTags :: "string list option"
  mcMemberCount :: "u32 option"
  mcLastSeen :: "string option"
  mcCapabilities :: raw
  mcMetrics :: raw

record AnchorStateEvent =
  ansField :: string
  ansDetails :: raw

text \<open>Of the pointer fields of \<open>TopologyEvent\<close> the one that matches the kind is set; an event of a kind that
  is not known has none.\<close>

datatype event_data =
    MemberJoined MemberInfo
  | MemberLeft string
  | MemberUpdated string MemberChanges
  | AnchorState AnchorStateEvent
  | ResyncRequired string
  | OtherEvent string

record TopologyEvent =
  teVersion :: u64
  teData :: event_data

fun teKind :: "event_data \<Rightarrow> string" where
  "teKind (MemberJoined m) = ''member_joined''"
| "teKind (MemberLeft nid) = ''member_left''"
| "teKind (MemberUpdated nid ch) = ''member_updated''"
| "teKind (AnchorState a) = ''anchor_state''"
| "teKind (ResyncRequired r) = ''resync_required''"
| "teKind (OtherEvent k) = k"

section \<open>Writing\<close>

text \<open>A slice with \<open>omitempty\<close>.\<close>

definition optional_strings :: "string \<Rightarrow> string list option \<Rightarrow> (string \<times> json res) list" where
  "optional_strings k v = (case v of Some (x # xs) \<Rightarrow> [(k, jstrings v)] | _ \<Rightarrow> [])"

definition member_json :: "MemberInfo \<Rightarrow> json res" where
  "member_json m =
     jstruct ([(''nid'', jstring (miNid m)), (''node_roles'', jstrings (miNodeRoles m)),
               (''activation_mode'', jstring (miActivationMode m))]
       @ optional ''child_anchor'' jbool (miChildAnchor m)
       @ optional ''member_count'' (\<lambda>n. jint (uint n)) (miMemberCount m)
       @ optional_strings ''tags'' (miTags m)
       @ optional ''joined_at'' jstring (miJoinedAt m)
       @ optional ''last_seen'' jstring (miLastSeen m)
       @ optional_raw ''capabilities'' (miCapabilities m)
       @ optional_raw ''metrics'' (miMetrics m))"

definition snapshot_json :: "TopologySnapshot \<Rightarrow> json res" where
  "snapshot_json s =
     jstruct ([(''version'', jint (uint (tsVersion s))), (''anchor_nid'', jstring (tsAnchorNid s)),
               (''cluster_size'', jint (uint (tsClusterSize s))),
               (''members'', (case tsMembers s of None \<Rightarrow> Inr JNull | Some ms \<Rightarrow> jlist (map member_json ms)))]
       @ optional ''truncated'' jbool (tsTruncated s)
       @ optional ''cluster_epoch'' (\<lambda>e. jint (uint e)) (tsClusterEpoch s))"

definition changes_json :: "MemberChanges \<Rightarrow> json res" where
  "changes_json c =
     jstruct (optional_strings ''node_roles'' (mcNodeRoles c)
       @ optional ''activation_mode'' jstring (mcActivationMode c)
       @ optional_strings ''tags'' (mcTags c)
       @ optional ''member_count'' (\<lambda>n. jint (uint n)) (mcMemberCount c)
       @ optional ''last_seen'' jstring (mcLastSeen c)
       @ optional_raw ''capabilities'' (mcCapabilities c)
       @ optional_raw ''metrics'' (mcMetrics c))"

text \<open>The map for a joined member keeps an empty tag list and writes the others like the struct.\<close>

definition memberToMap :: "MemberInfo \<Rightarrow> (string \<times> json res) list" where
  "memberToMap m =
     [(''nid'', jstring (miNid m)), (''node_roles'', jstrings (miNodeRoles m)),
      (''activation_mode'', jstring (miActivationMode m))]
     @ optional ''child_anchor'' jbool (miChildAnchor m)
     @ optional ''member_count'' (\<lambda>n. jint (uint n)) (miMemberCount m)
     @ optional ''tags'' (\<lambda>ts. jstrings (Some ts)) (miTags m)
     @ optional ''joined_at'' jstring (miJoinedAt m)
     @ optional ''last_seen'' jstring (miLastSeen m)
     @ optional_raw ''capabilities'' (miCapabilities m)
     @ optional_raw ''metrics'' (miMetrics m)"

fun event_payload :: "event_data \<Rightarrow> json res" where
  "event_payload (MemberJoined m) = jmap (memberToMap m)"
| "event_payload (MemberLeft nid) = jmap [(''nid'', jstring nid)]"
| "event_payload (MemberUpdated nid ch) = jmap [(''nid'', jstring nid), (''changes'', changes_json ch)]"
| "event_payload (AnchorState a) = jmap [(''field'', jstring (ansField a)), (''details'', jraw (ansDetails a))]"
| "event_payload (ResyncRequired r) = jmap [(''reason'', jstring r)]"
| "event_payload (OtherEvent k) = jmap []"

definition includes_seq :: "event_data \<Rightarrow> bool" where
  "includes_seq d = (case d of ResyncRequired r \<Rightarrow> False | _ \<Rightarrow> True)"

text \<open>The estimate of the cost is taken from the length of the payload; a payload that cannot be written
  counts as empty.\<close>

definition eventToEnvelope :: "string \<Rightarrow> string \<Rightarrow> TopologyEvent \<Rightarrow> json res" where
  "eventToEnvelope timestamp streamID ev =
     (let payload = event_payload (teData ev);
          len = (case payload of Inr j \<Rightarrow> int (length (json_text j)) | Inl e \<Rightarrow> 0);
          cgnEst = (if len div 4 < 1 then 1 else len div 4)
      in jmap ([(''stream_id'', jstring streamID), (''event_type'', jstring (teKind (teData ev))),
                (''timestamp'', jstring timestamp), (''payload'', payload), (''cgn_est'', jint cgnEst)]
           @ (if includes_seq (teData ev) then [(''seq'', jint (uint (teVersion ev)))] else [])))"

section \<open>Reading\<close>

text \<open>\<open>json.Unmarshal\<close> into the structs of the client.\<close>

definition member_tags :: "string list" where
  "member_tags = [''nid'', ''node_roles'', ''activation_mode'', ''child_anchor'', ''member_count'', ''tags'',
     ''joined_at'', ''last_seen'', ''capabilities'', ''metrics'']"

definition zero_member :: MemberInfo where
  "zero_member = \<lparr>miNid = [], miNodeRoles = None, miActivationMode = [], miChildAnchor = None, miMemberCount = None,
     miTags = None, miJoinedAt = None, miLastSeen = None, miCapabilities = [], miMetrics = []\<rparr>"

definition unmarshal_member :: "MemberInfo decoder" where
  "unmarshal_member m r =
     (case unmarshal_members r of
        None \<Rightarrow> None
      | Some kvs \<Rightarrow>
          let (nid, ok1) = struct_field member_tags kvs ''nid'' dec_string (miNid m);
              (roles, ok2) = struct_field member_tags kvs ''node_roles'' dec_strings (miNodeRoles m);
              (mode, ok3) = struct_field member_tags kvs ''activation_mode'' dec_string (miActivationMode m);
              (child, ok4) = struct_field member_tags kvs ''child_anchor'' (dec_ptr False dec_bool) (miChildAnchor m);
              (cnt, ok5) = struct_field member_tags kvs ''member_count'' (dec_ptr 0 dec_u32) (miMemberCount m);
              (tags, ok6) = struct_field member_tags kvs ''tags'' dec_strings (miTags m);
              (joined, ok7) = struct_field member_tags kvs ''joined_at'' (dec_ptr [] dec_string) (miJoinedAt m);
              (seen, ok8) = struct_field member_tags kvs ''last_seen'' (dec_ptr [] dec_string) (miLastSeen m);
              (caps, ok9) = struct_field member_tags kvs ''capabilities'' dec_raw (miCapabilities m);
              (mets, ok10) = struct_field member_tags kvs ''metrics'' dec_raw (miMetrics m)
          in if ok1 \<and> ok2 \<and> ok3 \<and> ok4 \<and> ok5 \<and> ok6 \<and> ok7 \<and> ok8 \<and> ok9 \<and> ok10
             then Some \<lparr>miNid = nid, miNodeRoles = roles, miActivationMode = mode, miChildAnchor = child,
                    miMemberCount = cnt, miTags = tags, miJoinedAt = joined, miLastSeen = seen,
                    miCapabilities = caps, miMetrics = mets\<rparr>
             else None)"

definition changes_tags :: "string list" where
  "changes_tags = [''node_roles'', ''activation_mode'', ''tags'', ''member_count'', ''last_seen'', ''capabilities'', ''metrics'']"

definition unmarshal_changes :: "raw \<Rightarrow> MemberChanges option" where
  "unmarshal_changes r =
     (case unmarshal_members r of
        None \<Rightarrow> None
      | Some kvs \<Rightarrow>
          let (roles, ok1) = struct_field changes_tags kvs ''node_roles'' dec_strings None;
              (mode, ok2) = struct_field changes_tags kvs ''activation_mode'' (dec_ptr [] dec_string) None;
              (tags, ok3) = struct_field changes_tags kvs ''tags'' dec_strings None;
              (cnt, ok4) = struct_field changes_tags kvs ''member_count'' (dec_ptr 0 dec_u32) None;
              (seen, ok5) = struct_field changes_tags kvs ''last_seen'' (dec_ptr [] dec_string) None;
              (caps, ok6) = struct_field changes_tags kvs ''capabilities'' dec_raw [];
              (mets, ok7) = struct_field changes_tags kvs ''metrics'' dec_raw []
          in if ok1 \<and> ok2 \<and> ok3 \<and> ok4 \<and> ok5 \<and> ok6 \<and> ok7
             then Some \<lparr>mcNodeRoles = roles, mcActivationMode = mode, mcTags = tags, mcMemberCount = cnt,
                    mcLastSeen = seen, mcCapabilities = caps, mcMetrics = mets\<rparr>
             else None)"

definition dec_members :: "MemberInfo list option decoder" where
  "dec_members v r =
     (if parse_json r = Some JNull then Some None
      else case unmarshal_slice r of
        None \<Rightarrow> None
      | Some rs \<Rightarrow> map_option Some (those (map (unmarshal_member zero_member) rs)))"

definition snapshot_tags :: "string list" where
  "snapshot_tags = [''version'', ''anchor_nid'', ''cluster_size'', ''members'', ''truncated'', ''cluster_epoch'']"

definition unmarshal_snapshot :: "raw \<Rightarrow> TopologySnapshot option" where
  "unmarshal_snapshot r =
     (case unmarshal_members r of
        None \<Rightarrow> None
      | Some kvs \<Rightarrow>
          let (v, ok1) = struct_field snapshot_tags kvs ''version'' dec_u64 0;
              (nid, ok2) = struct_field snapshot_tags kvs ''anchor_nid'' dec_string [];
              (size, ok3) = struct_field snapshot_tags kvs ''cluster_size'' dec_u32 0;
              (ms, ok4) = struct_field snapshot_tags kvs ''members'' dec_members None;
              (tr, ok5) = struct_field snapshot_tags kvs ''truncated'' (dec_ptr False dec_bool) None;
              (ep, ok6) = struct_field snapshot_tags kvs ''cluster_epoch'' (dec_ptr 0 dec_u64) None
          in if ok1 \<and> ok2 \<and> ok3 \<and> ok4 \<and> ok5 \<and> ok6
             then Some \<lparr>tsVersion = v, tsAnchorNid = nid, tsClusterSize = size, tsMembers = ms,
                    tsTruncated = tr, tsClusterEpoch = ep\<rparr>
             else None)"

text \<open>The line of a stream.\<close>

record eventEnvelope =
  eeStreamID :: string
  eeSeq :: "u64 option"
  eeEventType :: string
  eePayload :: raw
  eeError :: string
  eeStatus :: string
  eeMessage :: string

definition envelope_tags :: "string list" where
  "envelope_tags = [''stream_id'', ''seq'', ''event_type'', ''payload'', ''error'', ''status'', ''message'']"

definition unmarshal_envelope :: "raw \<Rightarrow> eventEnvelope option" where
  "unmarshal_envelope r =
     (case unmarshal_members r of
        None \<Rightarrow> None
      | Some kvs \<Rightarrow>
          let (sid, ok1) = struct_field envelope_tags kvs ''stream_id'' dec_string [];
              (sq, ok2) = struct_field envelope_tags kvs ''seq'' (dec_ptr 0 dec_u64) None;
              (et, ok3) = struct_field envelope_tags kvs ''event_type'' dec_string [];
              (pl, ok4) = struct_field envelope_tags kvs ''payload'' dec_raw [];
              (er, ok5) = struct_field envelope_tags kvs ''error'' dec_string [];
              (st, ok6) = struct_field envelope_tags kvs ''status'' dec_string [];
              (ms, ok7) = struct_field envelope_tags kvs ''message'' dec_string []
          in if ok1 \<and> ok2 \<and> ok3 \<and> ok4 \<and> ok5 \<and> ok6 \<and> ok7
             then Some \<lparr>eeStreamID = sid, eeSeq = sq, eeEventType = et, eePayload = pl, eeError = er,
                    eeStatus = st, eeMessage = ms\<rparr>
             else None)"

text \<open>A struct with one string field, and one with a string and a raw message.\<close>

definition unmarshal_one :: "string \<Rightarrow> raw \<Rightarrow> string option" where
  "unmarshal_one name r =
     (case unmarshal_members r of
        None \<Rightarrow> None
      | Some kvs \<Rightarrow> let (v, ok) = struct_field [name] kvs name dec_string [] in if ok then Some v else None)"

definition unmarshal_two :: "string \<Rightarrow> string \<Rightarrow> raw \<Rightarrow> (string \<times> raw) option" where
  "unmarshal_two name rname r =
     (case unmarshal_members r of
        None \<Rightarrow> None
      | Some kvs \<Rightarrow>
          let (v, ok) = struct_field [name, rname] kvs name dec_string [];
              (w, ok') = struct_field [name, rname] kvs rname dec_raw []
          in if ok then Some (v, w) else None)"

definition event_data_of :: "string \<Rightarrow> raw \<Rightarrow> event_data option" where
  "event_data_of kind payload =
     (if kind = ''member_joined'' then map_option MemberJoined (unmarshal_member zero_member payload)
      else if kind = ''member_left'' then map_option MemberLeft (unmarshal_one ''nid'' payload)
      else if kind = ''member_updated''
      then (case unmarshal_two ''nid'' ''changes'' payload of
              None \<Rightarrow> None
            | Some (nid, ch) \<Rightarrow> map_option (MemberUpdated nid) (unmarshal_changes ch))
      else if kind = ''anchor_state''
      then map_option (\<lambda>(f, d). AnchorState \<lparr>ansField = f, ansDetails = d\<rparr>) (unmarshal_two ''field'' ''details'' payload)
      else if kind = ''resync_required''
      then Some (ResyncRequired (case unmarshal_one ''reason'' payload of Some r \<Rightarrow> r | None \<Rightarrow> ''unknown''))
      else None)"

definition parseTopologyEvent :: "eventEnvelope \<Rightarrow> TopologyEvent option" where
  "parseTopologyEvent env =
     map_option (\<lambda>d. \<lparr>teVersion = (case eeSeq env of Some v \<Rightarrow> v | None \<Rightarrow> 0), teData = d\<rparr>)
       (event_data_of (eeEventType env) (eePayload env))"

section \<open>Anchor-state events\<close>

definition NewAnchorFailoverEvent :: "string \<Rightarrow> u64 \<Rightarrow> string \<Rightarrow> u64 \<Rightarrow> TopologyEvent" where
  "NewAnchorFailoverEvent successorNid clusterEpoch reason version =
     (let details = jmap [(''successor_nid'', jstring successorNid), (''cluster_epoch'', jint (uint clusterEpoch)),
                          (''reason'', jstring reason)]
      in \<lparr>teVersion = version,
          teData = AnchorState \<lparr>ansField = ''anchor_failover'', ansDetails = (case details of Inr j \<Rightarrow> json_text j | Inl e \<Rightarrow> [])\<rparr>\<rparr>)"

definition NewAnchorFailoverEventDefaults :: "string \<Rightarrow> u64 \<Rightarrow> TopologyEvent" where
  "NewAnchorFailoverEventDefaults successorNid clusterEpoch = NewAnchorFailoverEvent successorNid clusterEpoch ''planned'' 0"

definition NewAnchorQuorumLostEvent :: "u32 \<Rightarrow> u32 \<Rightarrow> u64 \<Rightarrow> TopologyEvent" where
  "NewAnchorQuorumLostEvent quorumSize available version =
     (let details = jmap [(''quorum_size'', jint (uint quorumSize)), (''available'', jint (uint available))]
      in \<lparr>teVersion = version,
          teData = AnchorState \<lparr>ansField = ''anchor_quorum_lost'', ansDetails = (case details of Inr j \<Rightarrow> json_text j | Inl e \<Rightarrow> [])\<rparr>\<rparr>)"

definition NewAnchorQuorumLostEventDefaults :: "u32 \<Rightarrow> u32 \<Rightarrow> TopologyEvent" where
  "NewAnchorQuorumLostEventDefaults quorumSize available = NewAnchorQuorumLostEvent quorumSize available 0"

record AnchorFailoverDetails =
  fdSuccessorNid :: string
  fdClusterEpoch :: u64
  fdReason :: string

record AnchorQuorumLostDetails =
  qdQuorumSize :: u32
  qdAvailable :: u32

definition failover_tags :: "string list" where
  "failover_tags = [''successor_nid'', ''cluster_epoch'', ''reason'']"

definition DecodeAnchorFailover :: "AnchorStateEvent option \<Rightarrow> AnchorFailoverDetails option" where
  "DecodeAnchorFailover ev =
     (case ev of
        None \<Rightarrow> None
      | Some e \<Rightarrow>
          if ansField e \<noteq> ''anchor_failover'' \<or> ansDetails e = [] then None
          else case unmarshal_members (ansDetails e) of
            None \<Rightarrow> None
          | Some kvs \<Rightarrow>
              let (nid, ok1) = struct_field failover_tags kvs ''successor_nid'' dec_string [];
                  (ep, ok2) = struct_field failover_tags kvs ''cluster_epoch'' dec_u64 0;
                  (rsn, ok3) = struct_field failover_tags kvs ''reason'' dec_string []
              in if ok1 \<and> ok2 \<and> ok3 then Some \<lparr>fdSuccessorNid = nid, fdClusterEpoch = ep, fdReason = rsn\<rparr> else None)"

definition DecodeAnchorQuorumLost :: "AnchorStateEvent option \<Rightarrow> AnchorQuorumLostDetails option" where
  "DecodeAnchorQuorumLost ev =
     (case ev of
        None \<Rightarrow> None
      | Some e \<Rightarrow>
          if ansField e \<noteq> ''anchor_quorum_lost'' \<or> ansDetails e = [] then None
          else case unmarshal_members (ansDetails e) of
            None \<Rightarrow> None
          | Some kvs \<Rightarrow>
              let (qs, ok1) = struct_field [''quorum_size'', ''available''] kvs ''quorum_size'' dec_u32 0;
                  (av, ok2) = struct_field [''quorum_size'', ''available''] kvs ''available'' dec_u32 0
              in if ok1 \<and> ok2 then Some \<lparr>qdQuorumSize = qs, qdAvailable = av\<rparr> else None)"

section \<open>The wire keeps events\<close>

text \<open>A member whose text is UTF-8 and whose raw messages are compact.\<close>

definition member_ok :: "MemberInfo \<Rightarrow> bool" where
  "member_ok m \<longleftrightarrow> utf8_valid (miNid m) \<and> opts_utf8 (miNodeRoles m) \<and> utf8_valid (miActivationMode m)
     \<and> opts_utf8 (miTags m) \<and> opt_utf8 (miJoinedAt m) \<and> opt_utf8 (miLastSeen m)
     \<and> raw_ok (miCapabilities m) \<and> raw_ok (miMetrics m)"

definition changes_ok :: "MemberChanges \<Rightarrow> bool" where
  "changes_ok c \<longleftrightarrow> opts_utf8 (mcNodeRoles c) \<and> opt_utf8 (mcActivationMode c) \<and> opts_utf8 (mcTags c)
     \<and> opt_utf8 (mcLastSeen c) \<and> raw_ok (mcCapabilities c) \<and> raw_ok (mcMetrics c)"

text \<open>What the reader makes of an event: an empty list of changed roles or tags is not sent, and missing
  details arrive as \<open>null\<close>.\<close>

definition nonempty :: "'a list option \<Rightarrow> 'a list option" where
  "nonempty v = (case v of Some [] \<Rightarrow> None | _ \<Rightarrow> v)"

definition changes_norm :: "MemberChanges \<Rightarrow> MemberChanges" where
  "changes_norm c = c\<lparr>mcNodeRoles := nonempty (mcNodeRoles c), mcTags := nonempty (mcTags c)\<rparr>"

lemma optional_strings_eq: "optional_strings k v = optional k (\<lambda>ts. jstrings (Some ts)) (nonempty v)"
  by (simp add: optional_strings_def optional_def nonempty_def split: option.split list.split)

lemma opts_utf8_nonempty [simp]: "opts_utf8 v \<Longrightarrow> opts_utf8 (nonempty v)"
  by (auto simp: nonempty_def split: option.split list.split)

lemmas wire_fields = map_of_optional_append optional_strings_eq

lemmas set_member_tags = arg_cong [OF member_tags_def, of set, simplified]

lemma memberToMap_keys: "distinct (map fst (memberToMap m))" "fst ` set (memberToMap m) \<subseteq> set member_tags"
  by (simp_all add: memberToMap_def member_tags_def image_Un split: if_split)

lemma member_fields_ok:
  assumes "member_ok m"
  shows "list_all (\<lambda>(k, r). utf8_valid k \<and> jok 9998 r) (memberToMap m)"
  using assms by (simp add: memberToMap_def member_ok_def utf8_ascii option.pred_True del: utf8_valid.simps)

lemma member_lookups:
  "map_of (memberToMap m) ''nid'' = Some (jstring (miNid m))"
  "map_of (memberToMap m) ''node_roles'' = Some (jstrings (miNodeRoles m))"
  "map_of (memberToMap m) ''activation_mode'' = Some (jstring (miActivationMode m))"
  "map_of (memberToMap m) ''child_anchor'' = map_option jbool (miChildAnchor m)"
  "map_of (memberToMap m) ''member_count'' = map_option (\<lambda>n. jint (uint n)) (miMemberCount m)"
  "map_of (memberToMap m) ''tags'' = map_option (\<lambda>ts. jstrings (Some ts)) (miTags m)"
  "map_of (memberToMap m) ''joined_at'' = map_option jstring (miJoinedAt m)"
  "map_of (memberToMap m) ''last_seen'' = map_option jstring (miLastSeen m)"
  "map_of (memberToMap m) ''capabilities'' = raw_opt (miCapabilities m)"
  "map_of (memberToMap m) ''metrics'' = raw_opt (miMetrics m)"
  by (simp_all add: memberToMap_def wire_fields del: map_of_append)

lemma unmarshal_member_joined:
  assumes "member_ok m"
  shows "unmarshal_member zero_member (jtext (jmap (memberToMap m))) = Some m"
proof -
  have u: "unmarshal_members (jtext (jmap (memberToMap m))) = Some (sort_key fst (field_texts (memberToMap m)))"
    using member_fields_ok [OF assms] by (intro unmarshal_jmap) (auto simp: list_all_iff intro: jok_mono)
  note f = struct_field_written(2) [OF keys_ok_subset [OF memberToMap_keys], of _ m]
  show ?thesis
    using assms by (simp add: unmarshal_member_def u f set_member_tags zero_member_def member_lookups member_ok_def
       del: utf8_valid.simps)
qed

text \<open>The changes of a member.\<close>

definition changes_fields :: "MemberChanges \<Rightarrow> (string \<times> json res) list" where
  "changes_fields c =
     optional_strings ''node_roles'' (mcNodeRoles c)
     @ optional ''activation_mode'' jstring (mcActivationMode c)
     @ optional_strings ''tags'' (mcTags c)
     @ optional ''member_count'' (\<lambda>n. jint (uint n)) (mcMemberCount c)
     @ optional ''last_seen'' jstring (mcLastSeen c)
     @ optional_raw ''capabilities'' (mcCapabilities c)
     @ optional_raw ''metrics'' (mcMetrics c)"

lemma changes_json_fields: "changes_json c = jstruct (changes_fields c)"
  by (simp add: changes_json_def changes_fields_def)

lemmas set_changes_tags = arg_cong [OF changes_tags_def, of set, simplified]

lemma changes_keys: "distinct (map fst (changes_fields c))" "fst ` set (changes_fields c) \<subseteq> set changes_tags"
  by (simp_all add: changes_fields_def changes_tags_def optional_strings_eq image_Un split: if_split)

lemma changes_fields_ok:
  assumes "changes_ok c"
  shows "list_all (\<lambda>(k, r). utf8_valid k \<and> jok 9998 r) (changes_fields c)"
  using assms by (simp add: changes_fields_def changes_ok_def optional_strings_eq utf8_ascii option.pred_True del: utf8_valid.simps)

lemma changes_lookups:
  "map_of (changes_fields c) ''node_roles'' = map_option (\<lambda>ts. jstrings (Some ts)) (nonempty (mcNodeRoles c))"
  "map_of (changes_fields c) ''activation_mode'' = map_option jstring (mcActivationMode c)"
  "map_of (changes_fields c) ''tags'' = map_option (\<lambda>ts. jstrings (Some ts)) (nonempty (mcTags c))"
  "map_of (changes_fields c) ''member_count'' = map_option (\<lambda>n. jint (uint n)) (mcMemberCount c)"
  "map_of (changes_fields c) ''last_seen'' = map_option jstring (mcLastSeen c)"
  "map_of (changes_fields c) ''capabilities'' = raw_opt (mcCapabilities c)"
  "map_of (changes_fields c) ''metrics'' = raw_opt (mcMetrics c)"
  by (simp_all add: changes_fields_def wire_fields del: map_of_append)

lemma unmarshal_changes_written:
  assumes "changes_ok c"
  shows "unmarshal_changes (jtext (changes_json c)) = Some (changes_norm c)"
proof -
  have u: "unmarshal_members (jtext (changes_json c)) = Some (field_texts (changes_fields c))"
    unfolding changes_json_fields
    using changes_fields_ok [OF assms] by (intro unmarshal_jstruct) (auto simp: list_all_iff intro: jok_mono)
  note f = struct_field_written(1) [OF keys_ok_subset [OF changes_keys], of _ c]
  show ?thesis
    using assms by (simp add: unmarshal_changes_def u f set_changes_tags changes_lookups changes_ok_def changes_norm_def)
qed

text \<open>Small payloads.\<close>

lemma unmarshal_one_written:
  assumes "utf8_valid name" and "utf8_valid s"
  shows "unmarshal_one name (jtext (jmap [(name, jstring s)])) = Some s"
  using assms unmarshal_jmap [of "[(name, jstring s)]"] struct_field_written(2) [of "[name]" "[(name, jstring s)]" name dec_string "[]"]
  by (simp add: unmarshal_one_def keys_ok_def)

lemma unmarshal_two_written:
  assumes "utf8_valid name" "utf8_valid rname" "utf8_valid s" "name \<noteq> rname" "jok 9999 r"
  shows "unmarshal_two name rname (jtext (jmap [(name, jstring s), (rname, r)])) = Some (s, jtext r)"
  using assms unmarshal_jmap [of "[(name, jstring s), (rname, r)]"]
    struct_field_written(2) [of "[name, rname]" "[(name, jstring s), (rname, r)]" name dec_string "[]"]
    struct_field_written(2) [of "[name, rname]" "[(name, jstring s), (rname, r)]" rname dec_raw "[]"]
  by (simp add: unmarshal_two_def keys_ok_def)

fun event_ok :: "event_data \<Rightarrow> bool" where
  "event_ok (MemberJoined m) \<longleftrightarrow> member_ok m"
| "event_ok (MemberLeft nid) \<longleftrightarrow> utf8_valid nid"
| "event_ok (MemberUpdated nid ch) \<longleftrightarrow> utf8_valid nid \<and> changes_ok ch"
| "event_ok (AnchorState a) \<longleftrightarrow> utf8_valid (ansField a) \<and> raw_ok (ansDetails a)"
| "event_ok (ResyncRequired r) \<longleftrightarrow> utf8_valid r"
| "event_ok (OtherEvent k) \<longleftrightarrow> False"

fun event_norm :: "event_data \<Rightarrow> event_data" where
  "event_norm (MemberUpdated nid ch) = MemberUpdated nid (changes_norm ch)"
| "event_norm (AnchorState a) = AnchorState (a\<lparr>ansDetails := (if ansDetails a = [] then ''null'' else ansDetails a)\<rparr>)"
| "event_norm d = d"

lemma jraw_text: "raw_ok r \<Longrightarrow> jtext (jraw r) = (if r = [] then ''null'' else r) \<and> jok 9998 (jraw r)"
  using raw_ok_jraw [of r] jok_mono [of 9000 "jraw r" 9998]
  by (cases "r = []") (auto simp: jraw_def jtext_def jok_def json_text_def)

lemma jok_member: "member_ok m \<Longrightarrow> jok 9999 (jmap (memberToMap m))"
  using member_fields_ok [of m] by (intro jok_jmap) (auto simp: list_all_iff)

lemma jok_changes: "changes_ok c \<Longrightarrow> jok 9998 (changes_json c)"
  unfolding changes_json_fields changes_fields_def optional_strings_eq
  by (intro jok_jstruct) (auto simp: changes_ok_def option.pred_True)

lemma jok_payload: "event_ok d \<Longrightarrow> jok 9999 (event_payload d)"
  by (cases d) (auto simp: jok_member jok_changes jraw_text intro!: jok_jmap)

lemma payload_read: "event_ok d \<Longrightarrow> event_data_of (teKind d) (jtext (event_payload d)) = Some (event_norm d)"
proof (cases d)
  case (MemberUpdated nid ch)
  assume "event_ok d"
  then show ?thesis
    using MemberUpdated jok_changes [of ch] jok_mono [of 9998 "changes_json ch" 9999]
    by (simp add: event_data_of_def unmarshal_two_written unmarshal_changes_written utf8_ascii del: utf8_valid.simps)
next
  case (AnchorState a)
  assume "event_ok d"
  then show ?thesis
    using AnchorState jraw_text [of "ansDetails a"] jok_mono [of 9998 "jraw (ansDetails a)" 9999]
    by (simp add: event_data_of_def unmarshal_two_written utf8_ascii del: utf8_valid.simps)
qed (simp_all add: event_data_of_def unmarshal_member_joined unmarshal_one_written utf8_ascii del: utf8_valid.simps)

text \<open>Envelopes.\<close>

definition envelope_fields :: "string \<Rightarrow> string \<Rightarrow> json res \<Rightarrow> int \<Rightarrow> TopologyEvent \<Rightarrow> (string \<times> json res) list" where
  "envelope_fields timestamp streamID payload cgnEst ev =
     [(''stream_id'', jstring streamID), (''event_type'', jstring (teKind (teData ev))),
      (''timestamp'', jstring timestamp), (''payload'', payload), (''cgn_est'', jint cgnEst)]
     @ (if includes_seq (teData ev) then [(''seq'', jint (uint (teVersion ev)))] else [])"

lemma event_kind_utf8 [simp]: "event_ok d \<Longrightarrow> utf8_valid (teKind d)"
  by (cases d) (simp_all add: utf8_ascii del: utf8_valid.simps)

lemma envelope_ok:
  assumes "event_ok (teData ev)"
  shows "list_all (\<lambda>(k, r). utf8_valid k \<and> jok 9999 r) (envelope_fields ts sid (event_payload (teData ev)) c ev)"
  using jok_payload [OF assms] by (simp add: envelope_fields_def utf8_ascii del: utf8_valid.simps)

lemmas set_envelope_tags = arg_cong [OF envelope_tags_def, of set, simplified]

lemma envelope_keys: "keys_ok envelope_tags (map fst (envelope_fields ts sid p c ev))"
  by (simp add: envelope_fields_def keys_ok_def envelope_tags_def lower_char_def)

text \<open>What the reader makes of an event.\<close>

definition received :: "TopologyEvent \<Rightarrow> TopologyEvent" where
  "received ev = \<lparr>teVersion = (if includes_seq (teData ev) then teVersion ev else 0), teData = event_norm (teData ev)\<rparr>"

lemma envelope_read:
  assumes "event_ok (teData ev)" and "utf8_valid sid"
  obtains env where "unmarshal_envelope (jtext (eventToEnvelope ts sid ev)) = Some env"
    and "eeStreamID env = sid" and "eeEventType env = teKind (teData ev)" and "parseTopologyEvent env = Some (received ev)"
proof -
  let ?p = "event_payload (teData ev)"
  obtain c where e: "eventToEnvelope ts sid ev = jmap (envelope_fields ts sid ?p c ev)"
    by (auto simp: eventToEnvelope_def envelope_fields_def Let_def)
  let ?kvs = "envelope_fields ts sid ?p c ev"
  have u: "unmarshal_members (jtext (jmap ?kvs)) = Some (sort_key fst (field_texts ?kvs))"
    using envelope_ok [OF assms(1)] by (rule unmarshal_jmap)
  note f = struct_field_written(2) [OF envelope_keys]
  have l: "map_of ?kvs ''stream_id'' = Some (jstring sid)" "map_of ?kvs ''event_type'' = Some (jstring (teKind (teData ev)))"
    "map_of ?kvs ''payload'' = Some ?p" "map_of ?kvs ''error'' = None" "map_of ?kvs ''status'' = None" "map_of ?kvs ''message'' = None"
    "map_of ?kvs ''seq'' = (if includes_seq (teData ev) then Some (jint (uint (teVersion ev))) else None)"
    by (simp_all add: envelope_fields_def)
  let ?env = "\<lparr>eeStreamID = sid, eeSeq = (if includes_seq (teData ev) then Some (teVersion ev) else None),
      eeEventType = teKind (teData ev), eePayload = jtext ?p, eeError = [], eeStatus = [], eeMessage = []\<rparr>"
  have "unmarshal_envelope (jtext (eventToEnvelope ts sid ev)) = Some ?env"
    using assms by (simp add: unmarshal_envelope_def e u f set_envelope_tags l)
  moreover have "parseTopologyEvent ?env = Some (received ev)"
    using payload_read [OF assms(1)] by (simp add: parseTopologyEvent_def received_def)
  ultimately show thesis by (intro that [of ?env]) simp_all
qed

text \<open>Snapshots.\<close>

definition member_norm :: "MemberInfo \<Rightarrow> MemberInfo" where
  "member_norm m = m\<lparr>miTags := nonempty (miTags m)\<rparr>"

lemma member_json_map: "member_json m = jstruct (memberToMap (member_norm m))"
  by (simp add: member_json_def memberToMap_def member_norm_def optional_strings_eq)

lemma member_norm_ok: "member_ok m \<Longrightarrow> member_ok (member_norm m)"
  by (simp add: member_ok_def member_norm_def)

lemma unmarshal_member_json:
  assumes "member_ok m"
  shows "unmarshal_member zero_member (jtext (member_json m)) = Some (member_norm m)"
proof -
  let ?m = "member_norm m"
  have ok: "member_ok ?m" by (rule member_norm_ok [OF assms])
  have u: "unmarshal_members (jtext (jstruct (memberToMap ?m))) = Some (field_texts (memberToMap ?m))"
    using member_fields_ok [OF ok] by (intro unmarshal_jstruct) (auto simp: list_all_iff intro: jok_mono)
  note f = struct_field_written(1) [OF keys_ok_subset [OF memberToMap_keys], of _ ?m]
  show ?thesis
    using ok unfolding member_json_map
    by (simp add: unmarshal_member_def u f set_member_tags zero_member_def member_lookups member_ok_def
       del: utf8_valid.simps)
qed

lemma jok_member_json: "member_ok m \<Longrightarrow> jok 9996 (member_json m)"
  unfolding member_json_map memberToMap_def
  using member_norm_ok [of m] by (intro jok_jstruct) (auto simp: member_ok_def option.pred_True)

lemma dec_members_written:
  assumes "list_all member_ok ms"
  shows "dec_members v (jtext (jlist (map member_json ms))) = Some (Some (map member_norm ms))"
proof -
  have j: "list_all (jok 9996) (map member_json ms)" using assms by (auto simp: list_all_iff jok_member_json)
  note l = jlist_elems [OF j]
  have ok: "json_ok 10000 (JArr (map projr (map member_json ms)))"
  proof -
    have "list_all (jok 9999) (map member_json ms)" using j by (auto simp: list_all_iff intro: jok_mono)
    then have "jok 10000 (jlist (map member_json ms))" using jok_jlist [of 10000 "map member_json ms"] by simp
    then show ?thesis unfolding l by (simp only: jok_Inr)
  qed
  have "those (map (unmarshal_member zero_member) (map json_text (map projr (map member_json ms)))) = Some (map member_norm ms)"
    using assms
  proof (induction ms)
    case (Cons m ms)
    then have "json_text (projr (member_json m)) = jtext (member_json m)"
      by (intro jtext_projr [of 9996]) (simp add: jok_member_json)
    then show ?case using Cons by (simp add: unmarshal_member_json)
  qed simp
  then show ?thesis
    using unmarshal_slice_text [OF ok] parse_json_text [OF ok] by (simp add: dec_members_def jtext_def l)
qed

definition snapshot_ok :: "TopologySnapshot \<Rightarrow> bool" where
  "snapshot_ok s \<longleftrightarrow> utf8_valid (tsAnchorNid s) \<and> pred_option (list_all member_ok) (tsMembers s)"

definition snapshot_norm :: "TopologySnapshot \<Rightarrow> TopologySnapshot" where
  "snapshot_norm s = s\<lparr>tsMembers := map_option (map member_norm) (tsMembers s)\<rparr>"

lemmas set_snapshot_tags = arg_cong [OF snapshot_tags_def, of set, simplified]

definition members_json :: "TopologySnapshot \<Rightarrow> json res" where
  "members_json s = (case tsMembers s of None \<Rightarrow> Inr JNull | Some ms \<Rightarrow> jlist (map member_json ms))"

lemma members_json_ok:
  assumes "snapshot_ok s"
  shows "jok 9997 (members_json s)"
    and "dec_members v (jtext (members_json s)) = Some (tsMembers (snapshot_norm s))"
proof -
  show "jok 9997 (members_json s)"
    using assms by (auto simp: snapshot_ok_def members_json_def list_all_iff jok_member_json intro!: jok_jlist split: option.split)
  show "dec_members v (jtext (members_json s)) = Some (tsMembers (snapshot_norm s))"
  proof (cases "tsMembers s")
    case None
    have "parse_json (jtext (Inr JNull)) = Some JNull" using parse_jtext [of "Inr JNull"] by simp
    then show ?thesis by (simp add: None members_json_def snapshot_norm_def dec_members_def)
  next
    case (Some ms)
    then show ?thesis
      using assms dec_members_written [of ms v] by (simp add: members_json_def snapshot_norm_def snapshot_ok_def)
  qed
qed

definition snapshot_fields :: "TopologySnapshot \<Rightarrow> (string \<times> json res) list" where
  "snapshot_fields s =
     [(''version'', jint (uint (tsVersion s))), (''anchor_nid'', jstring (tsAnchorNid s)),
      (''cluster_size'', jint (uint (tsClusterSize s))), (''members'', members_json s)]
     @ optional ''truncated'' jbool (tsTruncated s) @ optional ''cluster_epoch'' (\<lambda>e. jint (uint e)) (tsClusterEpoch s)"

lemma snapshot_json_fields: "snapshot_json s = jstruct (snapshot_fields s)"
  by (simp add: snapshot_json_def snapshot_fields_def members_json_def)

lemma snapshot_fields_ok: "snapshot_ok s \<Longrightarrow> list_all (\<lambda>(k, r). utf8_valid k \<and> jok 9997 r) (snapshot_fields s)"
  by (simp add: snapshot_fields_def members_json_ok option.pred_True utf8_ascii del: utf8_valid.simps)

lemma snapshot_json_ok: "snapshot_ok s \<Longrightarrow> jok 9998 (snapshot_json s)"
  using snapshot_fields_ok [of s] by (auto simp: snapshot_json_fields list_all_iff intro!: jok_jstruct)

lemma snapshot_keys: "keys_ok snapshot_tags (map fst (snapshot_fields s))"
  by (rule keys_ok_subset) (simp_all add: snapshot_fields_def snapshot_tags_def image_Un split: if_split)

lemma snapshot_lookups:
  "map_of (snapshot_fields s) ''version'' = Some (jint (uint (tsVersion s)))"
  "map_of (snapshot_fields s) ''anchor_nid'' = Some (jstring (tsAnchorNid s))"
  "map_of (snapshot_fields s) ''cluster_size'' = Some (jint (uint (tsClusterSize s)))"
  "map_of (snapshot_fields s) ''members'' = Some (members_json s)"
  "map_of (snapshot_fields s) ''truncated'' = map_option jbool (tsTruncated s)"
  "map_of (snapshot_fields s) ''cluster_epoch'' = map_option (\<lambda>e. jint (uint e)) (tsClusterEpoch s)"
  by (simp_all add: snapshot_fields_def map_of_optional_append del: map_of_append)

lemma snapshot_read:
  assumes "snapshot_ok s"
  shows "unmarshal_snapshot (jtext (snapshot_json s)) = Some (snapshot_norm s)"
proof -
  have u: "unmarshal_members (jtext (snapshot_json s)) = Some (field_texts (snapshot_fields s))"
    unfolding snapshot_json_fields
    using snapshot_fields_ok [OF assms] by (intro unmarshal_jstruct) (auto simp: list_all_iff intro: jok_mono)
  note f = struct_field_written(1) [OF snapshot_keys]
  have "read_of (Some (members_json s)) dec_members None = (map_option (map member_norm) (tsMembers s), True)"
    using members_json_ok(2) [OF assms] by (simp add: snapshot_norm_def)
  then show ?thesis
    using assms
    by (simp add: unmarshal_snapshot_def u f set_snapshot_tags snapshot_lookups snapshot_ok_def snapshot_norm_def)
qed

end
