(* ===== verification/Go_Http.thy ===== *)
theory Go_Http
  imports Go_Struct
begin

text \<open>
  What the servers use of \<open>net/http\<close>: a request with its method, path, headers and body, and a response that
  is written once.  Header names are canonical in the maps, so that looking one up ignores letter case.
\<close>

definition upper_char :: "char \<Rightarrow> char" where
  "upper_char c = (if 97 \<le> (of_char c :: nat) \<and> (of_char c :: nat) \<le> 122
                   then char_of ((of_char c :: nat) - 32) else c)"

fun canonical_from :: "bool \<Rightarrow> string \<Rightarrow> string" where
  "canonical_from up [] = []"
| "canonical_from up (c # s) = (if up then upper_char c else lower_char c) # canonical_from (c = CHR ''-'') s"

definition CanonicalHeaderKey :: "string \<Rightarrow> string" where
  "CanonicalHeaderKey s = canonical_from True s"

type_synonym http_header = "(string \<times> string) list"

definition header_get :: "http_header \<Rightarrow> string \<Rightarrow> string" where
  "header_get h k = (case map_of h (CanonicalHeaderKey k) of Some v \<Rightarrow> v | None \<Rightarrow> [])"

definition header_set :: "string \<Rightarrow> string \<Rightarrow> http_header \<Rightarrow> http_header" where
  "header_set k v h = AList.update (CanonicalHeaderKey k) v h"

text \<open>A body that cannot be read is an error.\<close>

record http_request =
  rqMethod :: string
  rqPath :: string
  rqHeader :: http_header
  rqBody :: "string res"

record http_response =
  rsStatus :: int
  rsHeader :: http_header
  rsBody :: string

lemma header_get_set [simp]:
  "header_get (header_set k v h) j = (if CanonicalHeaderKey j = CanonicalHeaderKey k then v else header_get h j)"
  by (simp add: header_get_def header_set_def update_conv')

text \<open>\<open>core.ToHttpStatus\<close>.\<close>

definition HttpStatusMap :: "(string \<times> int) list" where
  "HttpStatusMap =
     [(''NPS-OK'', 200), (''NPS-OK-ACCEPTED'', 202), (''NPS-OK-NO-CONTENT'', 204),
      (''NPS-CLIENT-BAD-FRAME'', 400), (''NPS-CLIENT-BAD-PARAM'', 400), (''NPS-CLIENT-NOT-FOUND'', 404),
      (''NPS-CLIENT-CONFLICT'', 409), (''NPS-CLIENT-GONE'', 410), (''NPS-CLIENT-UNPROCESSABLE'', 422),
      (''NPS-AUTH-UNAUTHENTICATED'', 401), (''NPS-AUTH-FORBIDDEN'', 403),
      (''NPS-LIMIT-RATE'', 429), (''NPS-LIMIT-BUDGET'', 429), (''NPS-LIMIT-PAYLOAD'', 413),
      (''NPS-LIMIT-RESOURCE'', 429),
      (''NPS-SERVER-INTERNAL'', 500), (''NPS-SERVER-UNSUPPORTED'', 501), (''NPS-SERVER-UNAVAILABLE'', 503),
      (''NPS-SERVER-TIMEOUT'', 504), (''NPS-SERVER-ENCODING-UNSUPPORTED'', 415),
      (''NPS-DOWNSTREAM-UNAVAILABLE'', 502),
      (''NPS-STREAM-SEQ-GAP'', 422), (''NPS-STREAM-NOT-FOUND'', 404), (''NPS-STREAM-LIMIT'', 429),
      (''NPS-PROTO-VERSION-INCOMPATIBLE'', 426), (''NPS-PROTO-PREAMBLE-INVALID'', 400),
      (''NPS-CLIENT-RATE-LIMITED'', 429), (''NPS-LIMIT-EXCEEDED'', 429),
      (''NPS-CLIENT-REQUEST-TOO-LARGE'', 413)]"

definition ToHttpStatus :: "string \<Rightarrow> int" where
  "ToHttpStatus s = (case map_of HttpStatusMap s of Some h \<Rightarrow> h | None \<Rightarrow> 500)"

end
