(* ===== verification/Nwp_Anchor_Client.thy ===== *)
theory Nwp_Anchor_Client
  imports Nwp_Topology Go_Http
begin

text \<open>
  The anchor client (\<open>nwp/anchor_client.go\<close>): the requests it sends and what it makes of the answer to a snapshot request and of the
  lines of a topology stream.  The transport is a parameter: the client sees a status and a body.  A line of
  64 kB or more ends the stream with an error, as in \<open>bufio.Scanner\<close>.  The subscriber is taken to
  receive every event; cancellation only cuts the list short.
\<close>

section \<open>Requests\<close>

record AnchorNodeClient =
  acBaseURL :: string
  acPathPrefix :: string

definition trim_slashes :: "string \<Rightarrow> string" where
  "trim_slashes s = rev (dropWhile (\<lambda>c. c = CHR ''/'') (rev s))"

definition NewAnchorNodeClient :: "string \<Rightarrow> AnchorNodeClient" where
  "NewAnchorNodeClient baseURL = \<lparr>acBaseURL = trim_slashes baseURL, acPathPrefix = []\<rparr>"

definition WithPathPrefix :: "string \<Rightarrow> AnchorNodeClient \<Rightarrow> AnchorNodeClient" where
  "WithPathPrefix pfx c = c\<lparr>acPathPrefix := trim_slashes pfx\<rparr>"

text \<open>A request that the client hands to the transport: a URL, its headers and its body; the method is POST.\<close>

record client_request =
  cqURL :: string
  cqHeader :: http_header
  cqBody :: string

definition client_post :: "AnchorNodeClient \<Rightarrow> string \<Rightarrow> string \<Rightarrow> json res \<Rightarrow> client_request res" where
  "client_post c route accept body =
     bindr body (\<lambda>j. Inr \<lparr>cqURL = acBaseURL c @ acPathPrefix c @ route,
       cqHeader = header_set ''Accept'' accept (header_set ''Content-Type'' ''application/json'' []), cqBody = json_text j\<rparr>)"

definition snapshotTopologyPayload :: "string \<Rightarrow> string list \<Rightarrow> int \<Rightarrow> string \<Rightarrow> json res" where
  "snapshotTopologyPayload scope incl depth targetNid =
     jstruct ([(''scope'', jstring scope)]
       @ (if incl = [] then [] else [(''include'', jstrings (Some incl))])
       @ (if depth = 0 then [] else [(''depth'', jint depth)])
       @ (if targetNid = [] then [] else [(''target_nid'', jstring targetNid)]))"

definition snapshot_query :: "AnchorNodeClient \<Rightarrow> string \<Rightarrow> string list \<Rightarrow> int \<Rightarrow> string \<Rightarrow> client_request res" where
  "snapshot_query c scope incl depth targetNid =
     client_post c ''/query'' ''application/json''
       (jstruct [(''type'', jstring ''topology.snapshot''),
          (''topology'', snapshotTopologyPayload (if scope = [] then ''cluster'' else scope)
             (if incl = [] then [''members''] else incl) (if depth = 0 then 1 else depth) targetNid)])"

definition filter_json :: "TopologyFilter \<Rightarrow> json res" where
  "filter_json f = jstruct (optional_strings ''tags_any'' (tpTagsAny f) @ optional_strings ''tags_all'' (tpTagsAll f)
     @ optional_strings ''node_roles'' (tpNodeRoles f))"

definition subscribe_query :: "AnchorNodeClient \<Rightarrow> string \<Rightarrow> string \<Rightarrow> TopologyFilter option \<Rightarrow> u64 option \<Rightarrow> client_request res" where
  "subscribe_query c streamID scope flt sinceVersion =
     client_post c ''/subscribe'' ''application/x-ndjson''
       (jstruct [(''type'', jstring ''topology.stream''), (''action'', jstring ''subscribe''), (''stream_id'', jstring streamID),
          (''topology'', jstruct ([(''scope'', jstring (if scope = [] then ''cluster'' else scope))]
             @ optional ''filter'' filter_json flt @ optional ''since_version'' (\<lambda>v. jint (uint v)) sinceVersion))])"

section \<open>Error answers\<close>

record AnchorTopologyError =
  ateNwpErrorCode :: string
  ateNpsStatus :: string
  ateMessage :: string

definition error_tags :: "string list" where
  "error_tags = [''error'', ''status'', ''message'']"

definition parseErrorBody :: "string \<Rightarrow> int \<Rightarrow> AnchorTopologyError" where
  "parseErrorBody body statusCode =
     (let plain = \<lparr>ateNwpErrorCode = ''UNKNOWN'', ateNpsStatus = ''HTTP-'' @ dec_int statusCode,
                   ateMessage = ''anchor: HTTP '' @ dec_int statusCode @ '': '' @ body\<rparr>
      in case unmarshal_members body of
           None \<Rightarrow> plain
         | Some kvs \<Rightarrow>
             let (er, ok1) = struct_field error_tags kvs ''error'' dec_string [];
                 (st, ok2) = struct_field error_tags kvs ''status'' dec_string [];
                 (ms, ok3) = struct_field error_tags kvs ''message'' dec_string []
             in if ok1 \<and> ok2 \<and> ok3 \<and> (er \<noteq> [] \<or> st \<noteq> [])
                then \<lparr>ateNwpErrorCode = er, ateNpsStatus = st,
                      ateMessage = (if ms = [] then ''anchor: HTTP '' @ dec_int statusCode @ '': '' @ er @ '' / '' @ st else ms)\<rparr>
                else plain)"

section \<open>Snapshots\<close>

datatype client_error = ServerError AnchorTopologyError | BadCaps | EmptyData | BadSnapshot

definition dec_raws :: "raw list option decoder" where
  "dec_raws v r = (if parse_json r = Some JNull then Some None else map_option Some (unmarshal_slice r))"

definition snapshot_answer :: "int \<Rightarrow> string \<Rightarrow> client_error + TopologySnapshot" where
  "snapshot_answer statusCode body =
     (if statusCode < 200 \<or> statusCode \<ge> 300 then Inl (ServerError (parseErrorBody body statusCode))
      else case unmarshal_members body of
        None \<Rightarrow> Inl BadCaps
      | Some kvs \<Rightarrow>
          let (data, ok) = struct_field [''data''] kvs ''data'' dec_raws None
          in if \<not> ok then Inl BadCaps
             else case data of
               Some (r # rs) \<Rightarrow> (case unmarshal_snapshot r of Some s \<Rightarrow> Inr s | None \<Rightarrow> Inl BadSnapshot)
             | _ \<Rightarrow> Inl EmptyData)"

section \<open>Streams\<close>

definition drop_cr :: "string \<Rightarrow> string" where
  "drop_cr s = (if s \<noteq> [] \<and> last s = CHR 0x0D then butlast s else s)"

definition body_lines :: "string \<Rightarrow> string list" where
  "body_lines body = (let ps = split_on (CHR 0x0A) body in if last ps = [] then butlast ps else ps)"

datatype stream_end = StreamOver | StreamFailed AnchorTopologyError | LineTooLong

fun stream_events :: "string list \<Rightarrow> TopologyEvent list \<times> stream_end" where
  "stream_events [] = ([], StreamOver)"
| "stream_events (l # ls) =
     (if length l \<ge> 65536 then ([], LineTooLong)
      else if TrimSpace (drop_cr l) = [] then stream_events ls
      else case unmarshal_envelope (drop_cr l) of
        None \<Rightarrow> stream_events ls
      | Some env \<Rightarrow>
          if eeEventType env = []
          then if eeError env \<noteq> [] \<or> eeStatus env \<noteq> []
               then ([], StreamFailed \<lparr>ateNwpErrorCode = eeError env, ateNpsStatus = eeStatus env,
                       ateMessage = (if eeMessage env = [] then ''anchor stream error: '' @ eeError env @ '' / '' @ eeStatus env
                                     else eeMessage env)\<rparr>)
               else stream_events ls
          else case parseTopologyEvent env of
            None \<Rightarrow> stream_events ls
          | Some ev \<Rightarrow>
              if teKind (teData ev) = ''resync_required'' then ([ev], StreamOver)
              else (let (evs, e) = stream_events ls in (ev # evs, e)))"

text \<open>The first line acknowledges the subscription and is dropped.\<close>

definition subscribe_events :: "string \<Rightarrow> TopologyEvent list \<times> stream_end" where
  "subscribe_events body =
     (case body_lines body of
        [] \<Rightarrow> ([], StreamOver)
      | l # ls \<Rightarrow> if length l \<ge> 65536 then ([], LineTooLong) else stream_events ls)"

section \<open>Lines of JSON\<close>

lemma str_lit_no_newline: "str_lit s \<Longrightarrow> CHR 0x0A \<notin> set s"
proof -
  have hex: "\<not> is_hex (CHR 0x0A)" by (simp add: is_hex_def is_digit_def in_range_def)
  have esc: "escape_val (CHR 0x0A) = None" by (simp add: escape_val_def)
  have "scan_str s = Some (b, r) \<Longrightarrow> CHR 0x0A \<notin> set b" for s b r
  proof (induction s arbitrary: b r rule: scan_str.induct)
    case (2 c s)
    show ?case
    proof (cases "c = CHR 0x5C")
      case True
      with "2.prems" obtain e s' where s: "s = e # s'" by (cases s) auto
      show ?thesis
      proof (cases "e = CHR ''u''")
        case u: True
        with "2.prems" True s obtain x1 x2 x3 x4 s'' where "s' = x1 # x2 # x3 # x4 # s''"
          by (auto split: list.splits)
        with "2.prems" True s u show ?thesis
          using "2.IH"(1) [of e s' x1 "x2 # x3 # x4 # s''" x2 "x3 # x4 # s''" x3 "x4 # s''" x4 s''] hex
          by (auto split: if_splits)
      next
        case False
        with "2.prems" True s show ?thesis using "2.IH"(2) [of e s'] esc by (auto split: if_splits)
      qed
    qed (use 2 in \<open>auto split: if_splits\<close>)
  qed simp
  then show "str_lit s \<Longrightarrow> CHR 0x0A \<notin> set s" unfolding str_lit_def by blast
qed

lemma num_lit_no_newline: "num_lit s \<Longrightarrow> CHR 0x0A \<notin> set s"
proof -
  have d: "CHR 0x0A \<notin> set (takeWhile is_digit s)" for s by (auto dest: set_takeWhileD simp: is_digit_def)
  have i: "scan_int s = Some (a, r) \<Longrightarrow> CHR 0x0A \<notin> set a" for s a r
    using d by (auto simp: scan_int_def is_digit_def split: list.splits if_splits)
  have f: "scan_frac s = Some (a, r) \<Longrightarrow> CHR 0x0A \<notin> set a" for s a r
    using d by (auto simp: scan_frac_def scan_digits_def split: list.splits if_splits)
  have e: "scan_exp s = Some (a, r) \<Longrightarrow> CHR 0x0A \<notin> set a" for s a r
    using d by (auto simp: scan_exp_def scan_digits_def split: list.splits if_splits)
  have g: "CHR 0x0A \<notin> set (fst (scan_sign s))" for s by (simp add: scan_sign_def split: list.split)
  have "scan_num s = Some (a, r) \<Longrightarrow> CHR 0x0A \<notin> set a" for s a r
    using g [of s] by (auto simp: scan_num_def dest: i f e split: prod.splits option.splits)
  then show "num_lit s \<Longrightarrow> CHR 0x0A \<notin> set s" unfolding num_lit_def by blast
qed

lemma json_text_no_newline: "json_ok d j \<Longrightarrow> CHR 0x0A \<notin> set (json_text j)"
proof -
  have "tok_ok t \<Longrightarrow> CHR 0x0A \<notin> set (tok_text t)" for t
    by (cases t) (auto simp: str_lit_no_newline num_lit_no_newline)
  then show "json_ok d j \<Longrightarrow> CHR 0x0A \<notin> set (json_text j)"
    using tok_ok_toks [of d j] by (auto simp: json_text_def list_all_iff)
qed

lemma body_lines_written:
  "list_all (\<lambda>l. CHR 0x0A \<notin> set l) ls \<Longrightarrow> body_lines (concat (map (\<lambda>l. l @ [CHR 0x0A]) ls)) = ls"
proof -
  have "list_all (\<lambda>l. CHR 0x0A \<notin> set l) ls \<Longrightarrow> split_on (CHR 0x0A) (concat (map (\<lambda>l. l @ [CHR 0x0A]) ls)) = ls @ [[]]"
    by (induction ls) (simp_all add: split_on_append)
  then show "list_all (\<lambda>l. CHR 0x0A \<notin> set l) ls \<Longrightarrow> body_lines (concat (map (\<lambda>l. l @ [CHR 0x0A]) ls)) = ls"
    by (simp add: body_lines_def)
qed

lemma jobj_line:
  obtains s where "json_text (jobj kvs) = CHR ''{'' # s @ [CHR ''}'']"
  by (auto simp: json_text_def jobj_def)

lemma space_len_0: "list_all (\<lambda>p. hd p \<noteq> c) ps \<Longrightarrow> space_len ps (c # s) = 0"
  by (induction ps) (auto simp: has_prefix_def take_Cons' neq_Nil_conv)

lemma space_len_brace: "space_len utf8_spaces (CHR ''{'' # s) = 0" "space_len (map rev utf8_spaces) (CHR ''}'' # s) = 0"
proof -
  have "list_all (\<lambda>p. hd p \<noteq> CHR ''{'') utf8_spaces" by code_simp
  then show "space_len utf8_spaces (CHR ''{'' # s) = 0" by (rule space_len_0)
  have "list_all (\<lambda>p. hd p \<noteq> CHR ''}'') (map rev utf8_spaces)" by code_simp
  then show "space_len (map rev utf8_spaces) (CHR ''}'' # s) = 0" by (rule space_len_0)
qed

lemma TrimSpace_braces: "TrimSpace (CHR ''{'' # s @ [CHR ''}'']) \<noteq> []"
proof -
  have "trim_left_by utf8_spaces (CHR ''{'' # s @ [CHR ''}'']) = CHR ''{'' # s @ [CHR ''}'']"
    by (subst trim_left_by.simps) (simp add: space_len_brace)
  moreover have "trim_left_by (map rev utf8_spaces) (CHR ''}'' # t) = CHR ''}'' # t" for t
    by (subst trim_left_by.simps) (simp add: space_len_brace)
  ultimately show ?thesis by (simp add: TrimSpace_def)
qed

section \<open>What the client receives\<close>

definition event_line :: "(TopologyEvent \<Rightarrow> string) \<Rightarrow> string \<Rightarrow> TopologyEvent \<Rightarrow> string" where
  "event_line clock sid ev = jtext (eventToEnvelope (clock ev) sid ev)"

lemma event_line_props:
  assumes "event_ok (teData ev)"
  shows "TrimSpace (event_line clock sid ev) \<noteq> []" and "drop_cr (event_line clock sid ev) = event_line clock sid ev"
    and "CHR 0x0A \<notin> set (event_line clock sid ev)"
proof -
  obtain c where e: "eventToEnvelope (clock ev) sid ev = jmap (envelope_fields (clock ev) sid (event_payload (teData ev)) c ev)"
    by (auto simp: eventToEnvelope_def envelope_fields_def Let_def)
  have fs: "list_all (\<lambda>(k, r). jok 9999 r) (envelope_fields (clock ev) sid (event_payload (teData ev)) c ev)"
    using envelope_ok [OF assms, of "clock ev" sid c] by (auto simp: list_all_iff)
  obtain kvs where j: "jmap (envelope_fields (clock ev) sid (event_payload (teData ev)) c ev) = Inr (jobj kvs)"
    using jmap_fields [OF fs] by blast
  obtain s where s: "event_line clock sid ev = CHR ''{'' # s @ [CHR ''}'']"
    using jobj_line [of kvs] by (auto simp: event_line_def e j jtext_def)
  show "TrimSpace (event_line clock sid ev) \<noteq> []" by (simp add: s TrimSpace_braces)
  show "drop_cr (event_line clock sid ev) = event_line clock sid ev" by (simp add: s drop_cr_def)
  have "jok 10000 (jmap (envelope_fields (clock ev) sid (event_payload (teData ev)) c ev))"
    using fs jok_jmap [of 10000] by simp
  then show "CHR 0x0A \<notin> set (event_line clock sid ev)"
    using json_text_no_newline by (auto simp: event_line_def e j jtext_def jok_Inr)
qed

definition is_resync :: "TopologyEvent \<Rightarrow> bool" where
  "is_resync ev \<longleftrightarrow> teKind (teData ev) = ''resync_required''"

text \<open>The events up to and with the first request to resynchronise.\<close>

fun until_resync :: "TopologyEvent list \<Rightarrow> TopologyEvent list" where
  "until_resync [] = []"
| "until_resync (ev # evs) = (if is_resync ev then [ev] else ev # until_resync evs)"

lemma kind_received: "teKind (teData (received ev)) = teKind (teData ev)"
  by (cases "teData ev") (simp_all add: received_def)

lemma kind_nonempty: "event_ok d \<Longrightarrow> teKind d \<noteq> []"
  by (cases d) simp_all

lemma stream_events_written:
  assumes "utf8_valid sid" and "list_all (\<lambda>ev. event_ok (teData ev) \<and> length (event_line clock sid ev) < 65536) evs"
  shows "stream_events (map (event_line clock sid) (until_resync evs)) = (map received (until_resync evs), StreamOver)"
  using assms(2)
proof (induction evs)
  case (Cons ev evs)
  then have ok: "event_ok (teData ev)" and len: "length (event_line clock sid ev) < 65536" by simp_all
  obtain env where env: "unmarshal_envelope (event_line clock sid ev) = Some env" "eeEventType env = teKind (teData ev)"
      "parseTopologyEvent env = Some (received ev)"
    using envelope_read [OF ok assms(1), of "clock ev"] by (auto simp: event_line_def)
  then show ?case
    using Cons len by (simp add: event_line_props [OF ok] kind_received kind_nonempty [OF ok] is_resync_def)
qed simp

end
