(* ===== verification/Epoch_Register.thy ===== *)
theory Epoch_Register
  imports NPS_Prelude "HOL-Library.Multiset"
begin

text \<open>
  The contract of a register fenced by epochs: for every key a claim is accepted exactly when its epoch is
  strictly greater than the one recorded, or none is recorded yet, and a refused claim changes nothing.  The
  delegation resolver of \<open>nop\<close> keeps one such register per cluster, the epoch guard of \<open>nwp\<close> one for the
  anchor itself.  The lemmas are what the protocol relies on: the recorded epoch never decreases and is the
  highest one claimed, a replayed claim is refused, and registers that have seen the same claims agree
  whatever the order and however often a claim was repeated.
\<close>

lemma fold_max_Max: "fold max es r = Max (insert r (set es))" for r :: u64
  by (metis Max.set_eq_fold list.simps(15))

lemma fold_max_ge: "r \<le> fold max es r" "e \<in> set es \<Longrightarrow> e \<le> fold max es r" for r :: u64
  by (simp_all add: fold_max_Max)

locale epoch_floor =
  fixes recorded :: "'s \<Rightarrow> 'k \<Rightarrow> u64 option"
    and claim :: "'k \<Rightarrow> 'c \<Rightarrow> u64 \<Rightarrow> 's \<Rightarrow> bool \<times> 's"
  assumes accepted_iff: "fst (claim k c e s) \<longleftrightarrow> (case recorded s k of None \<Rightarrow> True | Some r \<Rightarrow> r < e)"
    and accepted: "fst (claim k c e s) \<Longrightarrow> recorded (snd (claim k c e s)) k = Some e"
    and refused: "\<not> fst (claim k c e s) \<Longrightarrow> snd (claim k c e s) = s"
    and other: "j \<noteq> k \<Longrightarrow> recorded (snd (claim k c e s)) j = recorded s j"
begin

definition claim_all :: "('k \<times> 'c \<times> u64) list \<Rightarrow> 's \<Rightarrow> 's" where
  "claim_all cs s = fold (\<lambda>(k, c, e) s. snd (claim k c e s)) cs s"

lemma claim_all_simps [simp]:
  "claim_all [] s = s"
  "claim_all ((k, c, e) # cs) s = claim_all cs (snd (claim k c e s))"
  "claim_all (xs @ ys) s = claim_all ys (claim_all xs s)"
  by (simp_all add: claim_all_def)

lemma recorded_claim:
  "recorded (snd (claim k c e s)) k = Some (case recorded s k of None \<Rightarrow> e | Some r \<Rightarrow> max r e)"
proof (cases "fst (claim k c e s)")
  case True
  then show ?thesis using accepted [OF True] accepted_iff [of k c e s] by (auto simp: max_def split: option.splits)
next
  case False
  then show ?thesis using refused [OF False] accepted_iff [of k c e s] by (auto simp: max_def split: option.splits)
qed

text \<open>The epochs claimed for a key.\<close>

definition epochs_for :: "'k \<Rightarrow> ('k \<times> 'c \<times> u64) list \<Rightarrow> u64 list" where
  "epochs_for k cs = map (\<lambda>(j, c, e). e) (filter (\<lambda>(j, c, e). j = k) cs)"

lemma epochs_for_Cons [simp]: "epochs_for k ((j, c, e) # cs) = (if j = k then e # epochs_for k cs else epochs_for k cs)"
  by (simp add: epochs_for_def)

lemma recorded_highest:
  "recorded (claim_all cs s) k =
     (case recorded s k of
        Some r \<Rightarrow> Some (fold max (epochs_for k cs) r)
      | None \<Rightarrow> (case epochs_for k cs of [] \<Rightarrow> None | e # es \<Rightarrow> Some (fold max es e)))"
proof (induction cs arbitrary: s)
  case Nil
  then show ?case by (simp add: epochs_for_def split: option.split)
next
  case (Cons x cs)
  obtain j c e where x: "x = (j, c, e)" by (cases x)
  show ?case
  proof (cases "j = k")
    case True
    show ?thesis using True by (simp add: x Cons.IH recorded_claim max.commute split: option.split)
  next
    case False
    then show ?thesis by (simp add: x Cons.IH other split: option.split)
  qed
qed

text \<open>A claim that has been seen is refused from then on.\<close>

lemma replay_refused:
  assumes "(k, c, e) \<in> set cs"
  shows "\<not> fst (claim k c' e (claim_all cs s))"
proof -
  have "e \<in> set (epochs_for k cs)" using assms by (force simp: epochs_for_def)
  then have "\<exists>r. recorded (claim_all cs s) k = Some r \<and> e \<le> r"
    by (cases "epochs_for k cs") (auto simp: recorded_highest fold_max_Max Max_ge_iff le_max_iff_disj split: option.split)
  then show ?thesis by (auto simp: accepted_iff not_less)
qed

text \<open>What is recorded bounds every claim.\<close>

lemma claimed_bound:
  assumes "(k, c, e) \<in> set cs"
  obtains r where "recorded (claim_all cs s) k = Some r" and "\<And>c' e'. (k, c', e') \<in> set cs \<Longrightarrow> e' \<le> r"
proof -
  have m: "(k, c', e') \<in> set cs \<Longrightarrow> \<not> fst (claim k c' e' (claim_all cs s))" for c' e' by (rule replay_refused)
  obtain r where "recorded (claim_all cs s) k = Some r" using m [OF assms] by (auto simp: accepted_iff split: option.splits)
  then show thesis using that m by (force simp: accepted_iff not_less)
qed

text \<open>The recorded epoch only grows.\<close>

lemma recorded_mono:
  assumes "recorded s k = Some r"
  obtains r' where "recorded (claim_all cs s) k = Some r'" and "r \<le> r'"
  using that recorded_highest [of cs s k] assms fold_max_ge(1) by simp

end

locale epoch_register = epoch_floor recorded claim
  for recorded :: "'s \<Rightarrow> 'k \<Rightarrow> u64 option" and claim :: "'k \<Rightarrow> 'c \<Rightarrow> u64 \<Rightarrow> 's \<Rightarrow> bool \<times> 's" +
  fixes owner :: "'s \<Rightarrow> 'k \<Rightarrow> 'c option"
  assumes owner_accepted: "fst (claim k c e s) \<Longrightarrow> owner (snd (claim k c e s)) k = Some c"
    and owner_other: "j \<noteq> k \<Longrightarrow> owner (snd (claim k c e s)) j = owner s j"
    and owner_recorded: "owner s k = None \<longleftrightarrow> recorded s k = None"
begin

text \<open>What a register holds was claimed with the epoch it records, or was there before.\<close>

lemma owner_claimed:
  assumes "owner (claim_all cs s) k = Some c" and "recorded (claim_all cs s) k = Some e"
  shows "(k, c, e) \<in> set cs \<or> owner s k = Some c \<and> recorded s k = Some e"
  using assms
proof (induction cs arbitrary: s)
  case (Cons x cs)
  obtain j d f where x: "x = (j, d, f)" by (cases x)
  have "(k, c, e) \<in> set cs \<or> owner (snd (claim j d f s)) k = Some c \<and> recorded (snd (claim j d f s)) k = Some e"
    using Cons by (simp add: x)
  moreover have "j = k \<Longrightarrow> fst (claim j d f s) \<Longrightarrow> owner (snd (claim j d f s)) k = Some c
      \<and> recorded (snd (claim j d f s)) k = Some e \<Longrightarrow> x = (k, c, e)"
    using owner_accepted [of j d f s] accepted [of j d f s] by (simp add: x)
  ultimately show ?case
    using refused [of j d f s] other [of k j d f s] owner_other [of k j d f s] by (cases "j = k"; cases "fst (claim j d f s)") auto
qed simp

text \<open>Two registers that start empty and see the same claims, in whatever order and number, agree on the
  owner when no two claimants of a key ever use the same epoch.\<close>

lemma convergence:
  assumes "recorded s k = None" and "recorded t k = None"
    and "set cs = set ds"
    and one: "\<And>c c' e. (k, c, e) \<in> set cs \<Longrightarrow> (k, c', e) \<in> set cs \<Longrightarrow> c = c'"
  shows "owner (claim_all cs s) k = owner (claim_all ds t) k"
    and "recorded (claim_all cs s) k = recorded (claim_all ds t) k"
proof -
  have rec: "recorded (claim_all zs u) k = (if epochs_for k zs = [] then None else Some (Max (set (epochs_for k zs))))"
    if "recorded u k = None" for zs u
    using that by (cases "epochs_for k zs") (simp_all add: recorded_highest fold_max_Max)
  have "set (epochs_for k cs) = set (epochs_for k ds)" using assms(3) by (simp add: epochs_for_def)
  then show r: "recorded (claim_all cs s) k = recorded (claim_all ds t) k"
    using rec [OF assms(1), of cs] rec [OF assms(2), of ds] by (metis set_empty)
  show "owner (claim_all cs s) k = owner (claim_all ds t) k"
  proof (cases "recorded (claim_all cs s) k")
    case None
    then show ?thesis using r owner_recorded by metis
  next
    case (Some e)
    obtain c where c: "owner (claim_all cs s) k = Some c" using Some owner_recorded by fastforce
    obtain d where d: "owner (claim_all ds t) k = Some d" using Some r owner_recorded by fastforce
    have "(k, c, e) \<in> set cs" using owner_claimed [OF c Some] assms(1) by simp
    moreover have "(k, d, e) \<in> set cs" using owner_claimed [OF d] Some r assms(2,3) by simp
    ultimately show ?thesis using one c d by simp
  qed
qed

end

end
