(* ===== verification/Nwp_Epoch.thy ===== *)
theory Nwp_Epoch
  imports Nwp_Topology Epoch_Register
begin

text \<open>
  The epoch guard of an anchor (\<open>nwp/anchor_epoch.go\<close>): the fence that a frame with a higher epoch trips, the
  leader check for writes, loss of quorum and the taking of ownership.  The callbacks \<open>EmitEvent\<close> and
  \<open>CloseStreams\<close> are returned as the list of calls made, in order.  Taking ownership is a register fenced
  by epochs.
\<close>

section \<open>The guard\<close>

record AnchorEpochGuard =
  agAnchorNid :: string
  agOwnEpoch :: u64
  agStandby :: bool
  agDegraded :: bool

datatype guard_call = EmitEvent TopologyEvent | CloseStreams

record TopologyProtocolError =
  tpeNwpErrorCode :: string
  tpeNpsStatus :: string
  tpeMessage :: string

definition NewAnchorEpochGuard :: "string \<Rightarrow> AnchorEpochGuard" where
  "NewAnchorEpochGuard anchorNid = \<lparr>agAnchorNid = anchorNid, agOwnEpoch = 1, agStandby = False, agDegraded = False\<rparr>"

definition OwnEpoch :: "AnchorEpochGuard \<Rightarrow> u64" where
  "OwnEpoch g = agOwnEpoch g"

definition IsActive :: "AnchorEpochGuard \<Rightarrow> bool" where
  "IsActive g \<longleftrightarrow> \<not> agStandby g"

definition IsDegraded :: "AnchorEpochGuard \<Rightarrow> bool" where
  "IsDegraded g \<longleftrightarrow> agDegraded g"

definition epoch_fenced :: "u64 \<Rightarrow> u64 \<Rightarrow> TopologyProtocolError" where
  "epoch_fenced inbound own =
     \<lparr>tpeNwpErrorCode = ''NWP-ANCHOR-EPOCH-FENCED'', tpeNpsStatus = ''NPS-CLIENT-CONFLICT'',
      tpeMessage = ''NWP-ANCHOR-EPOCH-FENCED: inbound cluster_epoch '' @ dec_int (uint inbound)
        @ '' supersedes this Anchor'' @ [CHR 0x27] @ ''s epoch '' @ dec_int (uint own)
        @ ''; it is no longer the cluster owner.''\<rparr>"

definition em_dash :: string where
  "em_dash = [CHR 0xE2, CHR 0x80, CHR 0x94]"

definition not_leader :: "bool \<Rightarrow> TopologyProtocolError" where
  "not_leader standby =
     \<lparr>tpeNwpErrorCode = ''NWP-ANCHOR-NOT-LEADER'', tpeNpsStatus = ''NPS-CLIENT-CONFLICT'',
      tpeMessage = ''NWP-ANCHOR-NOT-LEADER: topology writes are accepted only by the active cluster owner '' @ em_dash @ '' ''
        @ (if standby then ''this Anchor is a standby''
           else ''this Anchor has lost quorum and is read-only-degraded'') @ ''.''\<rparr>"

definition OnInboundFrame ::
    "u64 option \<Rightarrow> string \<Rightarrow> bool \<Rightarrow> AnchorEpochGuard \<Rightarrow> TopologyProtocolError option \<times> guard_call list \<times> AnchorEpochGuard" where
  "OnInboundFrame inboundEpoch senderAnchorNid isTopologyWrite g =
     (let inbound = (case inboundEpoch of None \<Rightarrow> 1 | Some e \<Rightarrow> e)
      in if inbound > agOwnEpoch g
         then (Some (epoch_fenced inbound (agOwnEpoch g)),
               (if agStandby g then []
                else [EmitEvent (NewAnchorFailoverEvent senderAnchorNid inbound ''active_lost'' 0), CloseStreams]),
               g\<lparr>agStandby := True\<rparr>)
         else if isTopologyWrite \<and> (agStandby g \<or> agDegraded g) then (Some (not_leader (agStandby g)), [], g)
         else (None, [], g))"

definition StampSnapshot :: "AnchorEpochGuard option \<Rightarrow> TopologySnapshot \<Rightarrow> TopologySnapshot" where
  "StampSnapshot g snap = (case g of None \<Rightarrow> snap | Some g \<Rightarrow> snap\<lparr>tsClusterEpoch := Some (OwnEpoch g)\<rparr>)"

definition OnQuorumLost :: "u32 \<Rightarrow> u32 \<Rightarrow> AnchorEpochGuard \<Rightarrow> guard_call list \<times> AnchorEpochGuard" where
  "OnQuorumLost quorumSize available g =
     ([EmitEvent (NewAnchorQuorumLostEventDefaults quorumSize available)], g\<lparr>agDegraded := True\<rparr>)"

definition OnQuorumRestored :: "AnchorEpochGuard \<Rightarrow> AnchorEpochGuard" where
  "OnQuorumRestored g = g\<lparr>agDegraded := False\<rparr>"

definition TakeOwnership :: "u64 \<Rightarrow> string \<Rightarrow> AnchorEpochGuard \<Rightarrow> TopologyEvent res \<times> guard_call list \<times> AnchorEpochGuard" where
  "TakeOwnership newEpoch reason g =
     (if newEpoch \<le> agOwnEpoch g
      then (Inl (ErrPlain (''cluster_epoch must strictly increase on every ownership transfer: '' @ dec_int (uint newEpoch)
              @ '' is not greater than the observed '' @ dec_int (uint (agOwnEpoch g)))), [], g)
      else let ev = NewAnchorFailoverEvent (agAnchorNid g) newEpoch (if reason = [] then ''planned'' else reason) 0
           in (Inr ev, [EmitEvent ev], g\<lparr>agOwnEpoch := newEpoch, agStandby := False, agDegraded := False\<rparr>))"

definition ObserveEpoch :: "u64 \<Rightarrow> AnchorEpochGuard \<Rightarrow> AnchorEpochGuard" where
  "ObserveEpoch epoch g = (if epoch > agOwnEpoch g then g\<lparr>agStandby := True\<rparr> else g)"

section \<open>Ownership as a fenced register\<close>

definition guard_claim :: "unit \<Rightarrow> string \<Rightarrow> u64 \<Rightarrow> AnchorEpochGuard \<Rightarrow> bool \<times> AnchorEpochGuard" where
  "guard_claim k reason e g = (case TakeOwnership e reason g of (r, calls, g') \<Rightarrow> (is_ok r, g'))"

lemma guard_claim_eq:
  "guard_claim k reason e g = (agOwnEpoch g < e, if agOwnEpoch g < e then g\<lparr>agOwnEpoch := e, agStandby := False, agDegraded := False\<rparr> else g)"
  by (auto simp: guard_claim_def TakeOwnership_def Let_def)

interpretation guard: epoch_floor "\<lambda>g (k :: unit). Some (OwnEpoch g)" guard_claim
  by unfold_locales (auto simp: guard_claim_eq OwnEpoch_def)

section \<open>Operations in sequence\<close>

datatype guard_op =
    Inbound "u64 option" string bool
  | QuorumLost u32 u32
  | QuorumRestored
  | Take u64 string
  | Observe u64

fun guard_step :: "guard_op \<Rightarrow> AnchorEpochGuard \<Rightarrow> AnchorEpochGuard" where
  "guard_step (Inbound e nid w) g = snd (snd (OnInboundFrame e nid w g))"
| "guard_step (QuorumLost q a) g = snd (OnQuorumLost q a g)"
| "guard_step QuorumRestored g = OnQuorumRestored g"
| "guard_step (Take e r) g = snd (snd (TakeOwnership e r g))"
| "guard_step (Observe e) g = ObserveEpoch e g"

text \<open>The epochs a guard hears of from others.\<close>

fun heard :: "guard_op \<Rightarrow> u64 option" where
  "heard (Inbound e nid w) = Some (case e of None \<Rightarrow> 1 | Some e \<Rightarrow> e)"
| "heard (Observe e) = Some e"
| "heard _ = None"

fun is_take :: "guard_op \<Rightarrow> bool" where
  "is_take (Take e r) = True"
| "is_take _ = False"

lemma guard_step_epoch: "agOwnEpoch g \<le> agOwnEpoch (guard_step x g)"
  by (cases x) (auto simp: OnInboundFrame_def OnQuorumLost_def OnQuorumRestored_def TakeOwnership_def ObserveEpoch_def Let_def)

lemma guard_step_take: "\<not> is_take x \<Longrightarrow> agOwnEpoch (guard_step x g) = agOwnEpoch g \<and> (agStandby g \<longrightarrow> agStandby (guard_step x g))"
  by (cases x) (auto simp: OnInboundFrame_def OnQuorumLost_def OnQuorumRestored_def ObserveEpoch_def Let_def)

lemma guard_steps_standby:
  "agStandby g \<Longrightarrow> list_all (\<lambda>x. \<not> is_take x) xs \<Longrightarrow> agStandby (fold guard_step xs g) \<and> agOwnEpoch (fold guard_step xs g) = agOwnEpoch g"
  by (induction xs arbitrary: g) (auto simp: guard_step_take)

lemma guard_steps_epoch: "agOwnEpoch g \<le> agOwnEpoch (fold guard_step xs g)"
  by (induction xs arbitrary: g) (auto intro: order_trans guard_step_epoch)

lemma heard_fences: "heard x = Some e \<Longrightarrow> agOwnEpoch g < e \<Longrightarrow> agStandby (guard_step x g)"
  by (cases x) (auto simp: OnInboundFrame_def ObserveEpoch_def Let_def)

lemma standby_refuses:
  "agStandby g \<Longrightarrow> \<exists>e. fst (OnInboundFrame i nid True g) = Some e
     \<and> tpeNwpErrorCode e \<in> {''NWP-ANCHOR-EPOCH-FENCED'', ''NWP-ANCHOR-NOT-LEADER''}"
  by (auto simp: OnInboundFrame_def Let_def epoch_fenced_def not_leader_def)

text \<open>C16: An anchor that hears of a higher epoch than its own refuses every topology write from then on,
  whatever else happens, until it takes ownership with an epoch above its own.  Its own epoch never decreases,
  and it never takes ownership again with an epoch that is not above the one it had.\<close>

theorem anchor_fencing:
  assumes "heard x = Some e" and "OwnEpoch (fold guard_step before g) < e" and "list_all (\<lambda>y. \<not> is_take y) after"
    and "h = fold guard_step (before @ x # after) g"
  shows "(\<forall>i nid. \<exists>err. fst (OnInboundFrame i nid True h) = Some err
        \<and> tpeNwpErrorCode err \<in> {''NWP-ANCHOR-EPOCH-FENCED'', ''NWP-ANCHOR-NOT-LEADER''})
    \<and> OwnEpoch g \<le> OwnEpoch h
    \<and> (\<forall>n reason. n \<le> OwnEpoch (fold guard_step before g) \<longrightarrow> \<not> is_ok (fst (TakeOwnership n reason h)))"
proof -
  let ?b = "fold guard_step before g"
  have h: "h = fold guard_step after (guard_step x ?b)" by (simp add: assms(4))
  have "agStandby h"
    unfolding h using guard_steps_standby [OF heard_fences assms(3)] assms(1,2) by (simp add: OwnEpoch_def)
  moreover have "OwnEpoch g \<le> OwnEpoch h" unfolding OwnEpoch_def assms(4) by (rule guard_steps_epoch)
  moreover have "agOwnEpoch ?b \<le> agOwnEpoch h" using guard_steps_epoch [of ?b "x # after"] by (simp add: h)
  ultimately show ?thesis
    using standby_refuses by (auto simp: TakeOwnership_def OwnEpoch_def dest: order_trans)
qed

theorem anchor_fencing_witness:
  "\<exists>err. fst (OnInboundFrame None [] True (fold guard_step ([Take 3 []] @ Inbound (Some 7) ''b'' False # [QuorumRestored])
       (NewAnchorEpochGuard ''a''))) = Some err"
proof -
  have "heard (Inbound (Some 7) ''b'' False) = Some 7" by simp
  moreover have "OwnEpoch (fold guard_step [Take 3 []] (NewAnchorEpochGuard ''a'')) < 7" by code_simp
  moreover have "list_all (\<lambda>y. \<not> is_take y) [QuorumRestored]" by simp
  ultimately show ?thesis using anchor_fencing [OF _ _ _ refl] by blast
qed

text \<open>A guard that has heard of epoch 10 accepts epoch 2: only the own epoch is a floor.\<close>

lemma takeover_below_heard:
  "is_ok (fst (TakeOwnership 2 [] (fold guard_step [Observe 10, Inbound (Some 10) ''b'' True] (NewAnchorEpochGuard ''a''))))"
  by code_simp

section \<open>Failover announcements\<close>

text \<open>The event that announces a new owner can be decoded from what it carries.\<close>

definition failover_details :: "string \<Rightarrow> u64 \<Rightarrow> string \<Rightarrow> raw" where
  "failover_details nid e reason =
     jtext (jmap [(''successor_nid'', jstring nid), (''cluster_epoch'', jint (uint e)), (''reason'', jstring reason)])"

lemma failover_event:
  "NewAnchorFailoverEvent nid e reason v =
     \<lparr>teVersion = v, teData = AnchorState \<lparr>ansField = ''anchor_failover'', ansDetails = failover_details nid e reason\<rparr>\<rparr>"
  by (simp add: NewAnchorFailoverEvent_def failover_details_def jtext_def Let_def)

lemma failover_details_ok: "raw_ok (failover_details nid e reason)" "failover_details nid e reason \<noteq> []"
  unfolding failover_details_def by (rule raw_ok_jmap; simp)+

lemmas set_failover_tags = arg_cong [OF failover_tags_def, of set, simplified]

lemma decode_failover:
  assumes "utf8_valid nid" and "utf8_valid reason"
  shows "DecodeAnchorFailover (Some \<lparr>ansField = ''anchor_failover'', ansDetails = failover_details nid e reason\<rparr>)
    = Some \<lparr>fdSuccessorNid = nid, fdClusterEpoch = e, fdReason = reason\<rparr>"
proof -
  let ?kvs = "[(''successor_nid'', jstring nid), (''cluster_epoch'', jint (uint e)), (''reason'', jstring reason)]"
  have u: "unmarshal_members (failover_details nid e reason) = Some (sort_key fst (field_texts ?kvs))"
    unfolding failover_details_def by (rule unmarshal_jmap) (simp add: utf8_ascii del: utf8_valid.simps)
  have "keys_ok failover_tags (map fst ?kvs)" by (rule keys_ok_subset) (simp_all add: failover_tags_def)
  note f = struct_field_written(2) [OF this]
  show ?thesis
    using assms failover_details_ok(2)
    by (simp add: DecodeAnchorFailover_def u f set_failover_tags del: utf8_valid.simps)
qed

text \<open>A subscriber that reads the announcement of a new owner from the stream learns its name and epoch.\<close>

lemma failover_delivered:
  assumes "utf8_valid nid" and "utf8_valid reason" and "utf8_valid sid"
  obtains env a where "unmarshal_envelope (jtext (eventToEnvelope ts sid (NewAnchorFailoverEvent nid e reason v))) = Some env"
    and "parseTopologyEvent env = Some \<lparr>teVersion = v, teData = AnchorState a\<rparr>"
    and "DecodeAnchorFailover (Some a) = Some \<lparr>fdSuccessorNid = nid, fdClusterEpoch = e, fdReason = reason\<rparr>"
proof -
  let ?ev = "NewAnchorFailoverEvent nid e reason v"
  have "event_ok (teData ?ev)"
    by (simp add: failover_event failover_details_ok utf8_ascii del: utf8_valid.simps)
  then obtain env where env: "unmarshal_envelope (jtext (eventToEnvelope ts sid ?ev)) = Some env" "parseTopologyEvent env = Some (received ?ev)"
    using envelope_read [OF _ assms(3)] by metis
  moreover have "received ?ev = ?ev"
    using failover_details_ok(2) by (simp add: received_def failover_event includes_seq_def)
  ultimately show thesis
    using that decode_failover [OF assms(1,2)] by (simp add: failover_event)
qed

end
