(* ===== verification/Nwp_Reputation.thy ===== *)
theory Nwp_Reputation
  imports Go_Struct Go_Time TTL_Store
begin

text \<open>
  Reputation policies (\<open>nwp/reputation.go\<close>) and assurance levels (\<open>nip/assurance_level.go\<close>): an evaluation
  checks the assurance floor, the bans in force and then the rules against the entries of the reputation logs.
  Parameters are the answers of the log servers, the time of the evaluation (one instant) and the calendar
  subtraction of days in the local time zone.  The evaluator's bans and its cache of log entries are stores
  with expiry.
\<close>

section \<open>Assurance levels\<close>

record AssuranceLevel =
  alWire :: string
  alRank :: int

definition AssuranceAnonymous :: AssuranceLevel where
  "AssuranceAnonymous = \<lparr>alWire = ''anonymous'', alRank = 0\<rparr>"

definition AssuranceAttested :: AssuranceLevel where
  "AssuranceAttested = \<lparr>alWire = ''attested'', alRank = 1\<rparr>"

definition AssuranceVerified :: AssuranceLevel where
  "AssuranceVerified = \<lparr>alWire = ''verified'', alRank = 2\<rparr>"

definition MeetsOrExceeds :: "AssuranceLevel \<Rightarrow> AssuranceLevel \<Rightarrow> bool" where
  "MeetsOrExceeds l required = (alRank l \<ge> alRank required)"

definition assurance_levels :: "AssuranceLevel list" where
  "assurance_levels = [AssuranceAnonymous, AssuranceAttested, AssuranceVerified]"

definition AssuranceFromWire :: "string \<Rightarrow> AssuranceLevel option" where
  "AssuranceFromWire wire =
     (if wire = [] then Some AssuranceAnonymous else find (\<lambda>l. alWire l = wire) assurance_levels)"

definition AssuranceFromRank :: "int \<Rightarrow> AssuranceLevel option" where
  "AssuranceFromRank rank = find (\<lambda>l. alRank l = rank) assurance_levels"

section \<open>Policies\<close>

record ReputationRule =
  rrIncident :: string
  rrSeverity :: string
  rrWithinDays :: "u64 option"
  rrCount :: u64

record ReputationPolicy =
  rpEnabled :: bool
  rpLogSources :: "string list option"
  rpMinAssuranceLevel :: string
  rpCacheTtlSeconds :: u64
  rpBanTtlSeconds :: u64
  rpOnLogUnavailable :: string
  rpThrottleOn :: "ReputationRule list"
  rpRejectOn :: "ReputationRule list"
  rpBanOn :: "ReputationRule list"

datatype ReputationOutcome = RepAccept | RepThrottle | RepReject | RepBan

record ReputationDecision =
  rdOutcome :: ReputationOutcome
  rdMatchedRule :: "ReputationRule option"
  rdErrorCode :: string

text \<open>\<open>strings.ToLower\<close>, as far as its result can be ASCII: besides the capital letters the dotted I and the
  Kelvin sign.\<close>

fun lower_text :: "string \<Rightarrow> string" where
  "lower_text [] = []"
| "lower_text (c # s) =
     (if c = CHR 0xC4 \<and> take 1 s = [CHR 0xB0] then CHR ''i'' # lower_text (drop 1 s)
      else if c = CHR 0xE2 \<and> take 2 s = [CHR 0x84, CHR 0xAA] then CHR ''k'' # lower_text (drop 2 s)
      else lower_char c # lower_text s)"

fun position :: "'a \<Rightarrow> 'a list \<Rightarrow> int" where
  "position x [] = -1"
| "position x (y # ys) = (if x = y then 0 else let i = position x ys in if i < 0 then -1 else i + 1)"

definition severityIndex :: "string \<Rightarrow> int" where
  "severityIndex s = position (lower_text s) [''info'', ''minor'', ''moderate'', ''major'', ''critical'']"

definition assuranceIndex :: "string \<Rightarrow> int" where
  "assuranceIndex s = position (lower_text s) [''anonymous'', ''attested'', ''verified'']"

section \<open>Rules\<close>

record logEntry =
  leIncident :: string
  leSeverity :: string
  leTimestamp :: instant

definition incidentMatches :: "string \<Rightarrow> string \<Rightarrow> bool" where
  "incidentMatches pattern incident \<longleftrightarrow> pattern = ''*'' \<or> fold_key pattern = fold_key incident"

definition severityMatches :: "bool \<Rightarrow> int \<Rightarrow> string \<Rightarrow> bool" where
  "severityMatches geq threshold actual \<longleftrightarrow>
     (let idx = severityIndex actual in idx \<ge> 0 \<and> (if geq then idx \<ge> threshold else idx = threshold))"

definition parseSeverityPredicate :: "string \<Rightarrow> bool \<times> int" where
  "parseSeverityPredicate s =
     (if has_prefix s ''>='' then (True, severityIndex (drop 2 s)) else (False, severityIndex s))"

definition entry_matches :: "(u64 \<Rightarrow> instant) \<Rightarrow> ReputationRule \<Rightarrow> logEntry \<Rightarrow> bool" where
  "entry_matches daysAgo rule e \<longleftrightarrow>
     (case rrWithinDays rule of None \<Rightarrow> True | Some d \<Rightarrow> \<not> leTimestamp e < daysAgo d)
     \<and> incidentMatches (rrIncident rule) (leIncident e)
     \<and> (case parseSeverityPredicate (rrSeverity rule) of (geq, threshold) \<Rightarrow> severityMatches geq threshold (leSeverity e))"

fun count_matches :: "(u64 \<Rightarrow> instant) \<Rightarrow> ReputationRule \<Rightarrow> u64 \<Rightarrow> u64 \<Rightarrow> logEntry list \<Rightarrow> bool" where
  "count_matches daysAgo rule cnt matched [] = False"
| "count_matches daysAgo rule cnt matched (e # es) =
     (if \<not> entry_matches daysAgo rule e then count_matches daysAgo rule cnt matched es
      else if matched + 1 \<ge> cnt then True
      else count_matches daysAgo rule cnt (matched + 1) es)"

definition ruleMatches :: "(u64 \<Rightarrow> instant) \<Rightarrow> ReputationRule \<Rightarrow> logEntry list \<Rightarrow> bool" where
  "ruleMatches daysAgo rule entries =
     count_matches daysAgo rule (if rrCount rule = 0 then 1 else rrCount rule) 0 entries"

section \<open>Log entries\<close>

text \<open>\<open>UnmarshalJSON\<close> of \<open>time.Time\<close> reads the text between the quotes, stricter than \<open>time.Parse\<close>: an hour
  of two digits, no comma, an offset in range.\<close>

definition parse_strict_rfc3339 :: "string \<Rightarrow> instant option" where
  "parse_strict_rfc3339 s =
     (case parse_rfc3339 s of
        None \<Rightarrow> None
      | Some t \<Rightarrow>
          if s ! 12 = CHR '':'' \<or> s ! 19 = CHR '','' then None
          else if last s \<noteq> CHR ''Z'' \<and> (digits_int (take 2 (drop (length s - 5) s)) > 23 \<or> digits_int (drop (length s - 2) s) > 59)
          then None
          else Some t)"

definition dec_time :: "instant decoder" where
  "dec_time v r =
     (case parse_json r of Some JNull \<Rightarrow> Some v | Some (JStr s) \<Rightarrow> parse_strict_rfc3339 s | _ \<Rightarrow> None)"

definition zero_time :: instant where
  "zero_time = -62135596800 * second_ns"

definition entry_tags :: "string list" where
  "entry_tags = [''incident'', ''severity'', ''timestamp'']"

definition unmarshal_entry :: "raw \<Rightarrow> logEntry option" where
  "unmarshal_entry r =
     (case unmarshal_members r of
        None \<Rightarrow> None
      | Some kvs \<Rightarrow>
          let (inc, ok1) = struct_field entry_tags kvs ''incident'' dec_string [];
              (sev, ok2) = struct_field entry_tags kvs ''severity'' dec_string [];
              (tm, ok3) = struct_field entry_tags kvs ''timestamp'' dec_time zero_time
          in if ok1 \<and> ok2 \<and> ok3 then Some \<lparr>leIncident = inc, leSeverity = sev, leTimestamp = tm\<rparr> else None)"

definition dec_entries :: "logEntry list option decoder" where
  "dec_entries v r =
     (if parse_json r = Some JNull then Some None
      else case unmarshal_slice r of
        None \<Rightarrow> None
      | Some rs \<Rightarrow> map_option Some (those (map unmarshal_entry rs)))"

definition unmarshal_log :: "string \<Rightarrow> logEntry list option option" where
  "unmarshal_log body =
     (case unmarshal_members body of
        None \<Rightarrow> None
      | Some kvs \<Rightarrow> let (es, ok) = struct_field [''entries''] kvs ''entries'' dec_entries None in if ok then Some es else None)"

section \<open>The evaluator\<close>

record reputationEvaluator =
  reBans :: "(string \<times> instant) list"
  reLogs :: "(string \<times> instant \<times> logEntry list option) list"

definition NewReputationEvaluator :: reputationEvaluator where
  "NewReputationEvaluator = \<lparr>reBans = [], reLogs = []\<rparr>"

definition isBanned :: "instant \<Rightarrow> string \<Rightarrow> reputationEvaluator \<Rightarrow> bool" where
  "isBanned now nid ev = (case map_of (reBans ev) nid of Some e \<Rightarrow> now < e | None \<Rightarrow> False)"

definition setBan :: "string \<Rightarrow> instant \<Rightarrow> reputationEvaluator \<Rightarrow> reputationEvaluator" where
  "setBan nid e ev = ev\<lparr>reBans := AList.update nid e (reBans ev)\<rparr>"

definition ClearBan :: "string \<Rightarrow> reputationEvaluator \<Rightarrow> reputationEvaluator" where
  "ClearBan nid ev = ev\<lparr>reBans := AList.delete nid (reBans ev)\<rparr>"

text \<open>The answer of a log source: none, or a status and a body.\<close>

type_synonym log_source = "string \<Rightarrow> string \<Rightarrow> (int \<times> string) option"

fun first_log :: "log_source \<Rightarrow> string \<Rightarrow> string list \<Rightarrow> logEntry list option" where
  "first_log get nid [] = None"
| "first_log get nid (source # sources) =
     (case get source nid of
        None \<Rightarrow> first_log get nid sources
      | Some (status, body) \<Rightarrow>
          if status < 200 \<or> status \<ge> 300 then first_log get nid sources
          else case unmarshal_log body of
            None \<Rightarrow> first_log get nid sources
          | Some es \<Rightarrow> es)"

definition fetched_entries :: "log_source \<Rightarrow> instant \<Rightarrow> string \<Rightarrow> ReputationPolicy \<Rightarrow> logEntry list option" where
  "fetched_entries get now nid p =
     (let es = first_log get nid (case rpLogSources p of None \<Rightarrow> [] | Some ss \<Rightarrow> ss)
      in if es = None \<and> fold_key (rpOnLogUnavailable p) = fold_key ''deny''
         then Some [\<lparr>leIncident = ''*'', leSeverity = ''critical'', leTimestamp = now\<rparr>] else es)"

definition fetchEntries ::
    "log_source \<Rightarrow> instant \<Rightarrow> string \<Rightarrow> ReputationPolicy \<Rightarrow> reputationEvaluator \<Rightarrow> logEntry list option \<times> reputationEvaluator" where
  "fetchEntries get now nid p ev =
     (let fresh = fetched_entries get now nid p
      in if rpCacheTtlSeconds p > 0
         then (case map_of (reLogs ev) nid of
                 Some (e, es) \<Rightarrow> if now < e then (es, ev)
                   else (fresh, ev\<lparr>reLogs := AList.update nid (now + seconds (uint (rpCacheTtlSeconds p)), fresh) (reLogs ev)\<rparr>)
               | None \<Rightarrow> (fresh, ev\<lparr>reLogs := AList.update nid (now + seconds (uint (rpCacheTtlSeconds p)), fresh) (reLogs ev)\<rparr>))
         else (fresh, ev))"

definition rep_decision :: "ReputationOutcome \<Rightarrow> ReputationRule option \<Rightarrow> string \<Rightarrow> ReputationDecision" where
  "rep_decision oc rule ec = \<lparr>rdOutcome = oc, rdMatchedRule = rule, rdErrorCode = ec\<rparr>"

definition Evaluate ::
    "log_source \<Rightarrow> (u64 \<Rightarrow> instant) \<Rightarrow> instant \<Rightarrow> string \<Rightarrow> string \<Rightarrow> ReputationPolicy \<Rightarrow> reputationEvaluator
     \<Rightarrow> ReputationDecision \<times> reputationEvaluator" where
  "Evaluate get daysAgo now nid assurance p ev =
     (if \<not> rpEnabled p then (rep_decision RepAccept None [], ev)
      else if assuranceIndex (rpMinAssuranceLevel p) > assuranceIndex assurance
      then (rep_decision RepReject None ''NWP-AUTH-ASSURANCE-TOO-LOW'', ev)
      else if isBanned now nid ev then (rep_decision RepBan None ''NWP-AUTH-REPUTATION-BLOCKED'', ev)
      else
        let (fetched, ev1) = fetchEntries get now nid p ev;
            entries = (case fetched of None \<Rightarrow> [] | Some es \<Rightarrow> es);
            matches = (\<lambda>r. ruleMatches daysAgo r entries)
        in case find matches (rpBanOn p) of
             Some r \<Rightarrow> (rep_decision RepBan (Some r) ''NWP-AUTH-REPUTATION-BLOCKED'', setBan nid (now + seconds (uint (rpBanTtlSeconds p))) ev1)
           | None \<Rightarrow>
               (case find matches (rpRejectOn p) of
                  Some r \<Rightarrow> (rep_decision RepReject (Some r) ''NWP-AUTH-REPUTATION-BLOCKED'', ev1)
                | None \<Rightarrow>
                    (case find matches (rpThrottleOn p) of
                       Some r \<Rightarrow> (rep_decision RepThrottle (Some r) [], ev1)
                     | None \<Rightarrow> (rep_decision RepAccept None [], ev1))))"

section \<open>Rules count entries\<close>

definition matching :: "(u64 \<Rightarrow> instant) \<Rightarrow> ReputationRule \<Rightarrow> logEntry list \<Rightarrow> nat" where
  "matching daysAgo rule es = length (filter (entry_matches daysAgo rule) es)"

lemma count_matches_iff:
  "matched < cnt \<Longrightarrow> count_matches daysAgo rule cnt matched es \<longleftrightarrow> unat cnt \<le> unat matched + matching daysAgo rule es"
proof (induction es arbitrary: matched)
  case (Cons e es)
  show ?case
  proof (cases "entry_matches daysAgo rule e")
    case True
    have u: "unat (matched + 1) = unat matched + 1"
      using Cons.prems unsigned_less [where ?'a = nat, of cnt] by (subst unat_add_lem [THEN iffD1]) (auto simp: word_less_nat_alt)
    show ?thesis
    proof (cases "matched + 1 \<ge> cnt")
      case ge: True
      then show ?thesis using True u by (simp add: matching_def word_le_nat_alt)
    next
      case False
      then show ?thesis using Cons.IH [of "matched + 1"] True u by (simp add: matching_def)
    qed
  qed (use Cons in \<open>simp add: matching_def\<close>)
qed (simp add: matching_def word_less_nat_alt)

text \<open>A rule matches when the log has as many matching entries as it asks for, at least one.\<close>

lemma ruleMatches_count: "ruleMatches daysAgo rule es \<longleftrightarrow> max 1 (unat (rrCount rule)) \<le> matching daysAgo rule es"
proof -
  have "unat (rrCount rule) = 0 \<longleftrightarrow> rrCount rule = 0" by (simp add: unat_eq_zero)
  then show ?thesis
    by (auto simp: ruleMatches_def count_matches_iff word_gt_0 max_def)
qed

section \<open>Bans hold\<close>

datatype rep_op = Evaluated log_source "u64 \<Rightarrow> instant" instant string string ReputationPolicy | Cleared instant string

fun clears :: "string \<Rightarrow> rep_op \<Rightarrow> bool" where
  "clears nid (Cleared t n) \<longleftrightarrow> n = nid"
| "clears nid (Evaluated get ago t n a p) \<longleftrightarrow> False"

fun op_time :: "rep_op \<Rightarrow> instant" where
  "op_time (Evaluated get ago t nid a p) = t"
| "op_time (Cleared t nid) = t"

fun rep_step :: "rep_op \<Rightarrow> reputationEvaluator \<Rightarrow> reputationEvaluator" where
  "rep_step (Evaluated get ago t nid a p) ev = snd (Evaluate get ago t nid a p ev)"
| "rep_step (Cleared t nid) ev = ClearBan nid ev"

lemma fetch_bans [simp]: "reBans (snd (fetchEntries get now nid p ev)) = reBans ev"
  by (auto simp: fetchEntries_def Let_def split: option.splits prod.splits if_splits)

text \<open>An evaluation changes at most the ban of its subject, and only when none is in force.\<close>

lemma Evaluate_bans:
  "map_of (reBans (snd (Evaluate get ago t nid a p ev))) n = map_of (reBans ev) n \<or> (n = nid \<and> \<not> isBanned t nid ev)"
proof (cases "rpEnabled p \<and> \<not> assuranceIndex (rpMinAssuranceLevel p) > assuranceIndex a \<and> \<not> isBanned t nid ev")
  case True
  obtain es ev1 where f: "fetchEntries get t nid p ev = (es, ev1)" by force
  then have "reBans ev1 = reBans ev" using fetch_bans [of get t nid p ev] by simp
  then show ?thesis
    using True f by (auto simp: Evaluate_def Let_def setBan_def update_conv' split: option.splits)
qed (auto simp: Evaluate_def)

lemma ban_kept:
  assumes "map_of (reBans ev) nid = Some e" and "list_all (\<lambda>x. op_time x < e) xs"
    and "list_all (\<lambda>x. \<not> clears nid x) xs"
  shows "map_of (reBans (fold rep_step xs ev)) nid = Some e"
  using assms
proof (induction xs arbitrary: ev)
  case (Cons x xs)
  have "map_of (reBans (rep_step x ev)) nid = Some e"
  proof (cases x)
    case (Evaluated get ago t n a p)
    then show ?thesis using Cons.prems Evaluate_bans [of get ago t n a p ev nid] by (auto simp: isBanned_def)
  next
    case (Cleared t n)
    then show ?thesis using Cons.prems by (auto simp: ClearBan_def delete_conv')
  qed
  then show ?case using Cons by simp
qed simp

lemma ban_set:
  assumes "rdOutcome (fst (Evaluate get ago t nid a p ev)) = RepBan" and "rdMatchedRule (fst (Evaluate get ago t nid a p ev)) \<noteq> None"
  shows "map_of (reBans (snd (Evaluate get ago t nid a p ev))) nid = Some (t + seconds (uint (rpBanTtlSeconds p)))"
  using assms by (auto simp: Evaluate_def rep_decision_def setBan_def Let_def update_conv' split: option.splits if_splits prod.splits)

text \<open>C18: Once a rule has banned a subject, no evaluation under an enabled policy lets it pass before the ban
  has run out, whatever is evaluated in between and whatever the logs say by then, unless the ban is cleared.\<close>

theorem reputation_ban_holds:
  assumes "rdOutcome (fst (Evaluate get ago t nid a p ev)) = RepBan" and "rdMatchedRule (fst (Evaluate get ago t nid a p ev)) \<noteq> None"
    and "list_all (\<lambda>x. op_time x < t + seconds (uint (rpBanTtlSeconds p)) \<and> \<not> clears nid x) xs"
    and "now < t + seconds (uint (rpBanTtlSeconds p))" and "rpEnabled q"
  shows "rdOutcome (fst (Evaluate get' ago' now nid b q (fold rep_step xs (snd (Evaluate get ago t nid a p ev))))) \<in> {RepBan, RepReject}"
proof -
  have "map_of (reBans (fold rep_step xs (snd (Evaluate get ago t nid a p ev)))) nid = Some (t + seconds (uint (rpBanTtlSeconds p)))"
    using ban_kept [OF ban_set [OF assms(1,2)]] assms(3) by (auto simp: list_all_iff)
  then have "isBanned now nid (fold rep_step xs (snd (Evaluate get ago t nid a p ev)))"
    using assms(4) by (simp add: isBanned_def)
  then show ?thesis using assms(5) by (simp add: Evaluate_def rep_decision_def)
qed

definition deny_policy :: ReputationPolicy where
  "deny_policy = \<lparr>rpEnabled = True, rpLogSources = None, rpMinAssuranceLevel = [], rpCacheTtlSeconds = 0, rpBanTtlSeconds = 60,
     rpOnLogUnavailable = ''deny'', rpThrottleOn = [], rpRejectOn = [],
     rpBanOn = [\<lparr>rrIncident = ''*'', rrSeverity = ''>=major'', rrWithinDays = None, rrCount = 0\<rparr>]\<rparr>"

theorem reputation_ban_holds_witness:
  "rdOutcome (fst (Evaluate (\<lambda>s n. None) (\<lambda>d. 0) 5 ''x'' [] deny_policy
     (fold rep_step [Cleared 3 ''y''] (snd (Evaluate (\<lambda>s n. None) (\<lambda>d. 0) 0 ''x'' [] deny_policy NewReputationEvaluator))))) \<in> {RepBan, RepReject}"
  by (rule reputation_ban_holds; code_simp)

end
