(* ===== verification/Nwp_Anchor_Server.thy ===== *)
theory Nwp_Anchor_Server
  imports Nwp_Anchor_Client Nwp_Epoch Nwp_Reputation Go_Http Ncp_Frames
begin

text \<open>
  The anchor node server (\<open>nwp/anchor_server.go\<close>).  A request is handled by a function of the application's
  configuration, what the request meets (\<open>anchor_env\<close>) and the state that lives between requests: the epoch
  guard and the reputation evaluator.  The host's parts are parameters of the environment: the invoke handler,
  the topology service, the rate limiter, the clock, random names and the wording of the JSON library's errors.
  What the server does besides answering is the list of its effects, in order.
\<close>

section \<open>Configuration, environment and state\<close>

record AnchorActionSpec =
  asDescription :: string
  asParamsAnchor :: string
  asResultAnchor :: string
  asEstimatedCgn :: int
  asTimeoutMsDefault :: int
  asTimeoutMsMax :: int
  asRequiredCapability :: string
  asAsync :: bool
  asTopologyWrite :: bool

record AnchorNodeOptions =
  aoNodeID :: string
  aoPathPrefix :: string
  aoActions :: "(string \<times> AnchorActionSpec) list"
  aoDisplayName :: string
  aoRequireAuth :: "bool option"
  aoRequiredCapabilities :: "string list option"
  aoRequireTopologyCapability :: bool
  aoDefaultTimeoutMs :: int
  aoMaxTimeoutMs :: int
  aoDefaultTokenBudget :: int
  aoCgnLimit :: int
  aoAssuranceHintURL :: string
  aoReputationPolicy :: "ReputationPolicy option"
  aoTrustAnchors :: "string list"
  aoRateLimits :: "json res option"
  aoAutoInjectTraceContext :: "bool option"

record AnchorSnapshotRequest =
  snScope :: string
  snInclude :: "string list"
  snDepth :: int
  snTargetNid :: string

record AnchorStreamRequest =
  srScope :: string
  srFilter :: "TopologyFilter option"
  srSinceVersion :: "u64 option"

record InvokeContext =
  icAgentNid :: string
  icEffectiveTimeoutMs :: int
  icBudgetCgn :: int
  icTraceID :: string
  icSpanID :: string

record RateDecision =
  rtAllowed :: bool
  rtRetryAfterSeconds :: int
  rtReason :: string

record AnchorActionError =
  aaeHTTPStatus :: int
  aaeNpsStatus :: string
  aaeErrorCode :: string
  aaeMessage :: string
  aaeDetails :: "json res option"

datatype handler_error = ActionError AnchorActionError | OtherHandlerError

text \<open>A handler returns what \<open>json.Marshal\<close> makes of its result, or nil.\<close>

type_synonym invoke_handler = "string \<Rightarrow> raw \<Rightarrow> InvokeContext \<Rightarrow> handler_error + json res option"

datatype topology_error = ProtocolError TopologyProtocolError | OtherTopologyError

record topology_service =
  tvSnapshot :: "AnchorSnapshotRequest \<Rightarrow> topology_error + TopologySnapshot"
  tvSubscribe :: "AnchorStreamRequest \<Rightarrow> topology_error + TopologyEvent list"

record AnchorNodeApp =
  apOpt :: AnchorNodeOptions
  apHandler :: "invoke_handler option"
  apTopology :: "topology_service option"
  apEvaluates :: bool

record anchor_env =
  aeNow :: instant
  aeDaysAgo :: "u64 \<Rightarrow> instant"
  aeLogs :: log_source
  aeTryAcquire :: "string \<Rightarrow> int \<Rightarrow> RateDecision"
  aeTraceID :: string
  aeSpanID :: string
  aeTaskID :: string
  aeStreamID :: string
  aeTimestamp :: "TopologyEvent \<Rightarrow> string"
  aeJsonError :: "string \<Rightarrow> string"
  aeReadError :: "nps_error \<Rightarrow> string"

record anchor_state =
  avGuard :: "AnchorEpochGuard option"
  avEvaluator :: reputationEvaluator

datatype anchor_effect =
    GuardCall guard_call
  | Acquired string int
  | HandlerRun string raw InvokeContext bool
  | Released string

type_synonym anchor_outcome = "http_response \<times> anchor_state \<times> anchor_effect list"

section \<open>Answers\<close>

definition write_json :: "int \<Rightarrow> http_header \<Rightarrow> json res \<Rightarrow> http_response" where
  "write_json status hs body = \<lparr>rsStatus = status, rsHeader = hs, rsBody = encode_line body\<rparr>"

definition writeError ::
    "int \<Rightarrow> string \<Rightarrow> string \<Rightarrow> string \<Rightarrow> json res option \<Rightarrow> (string \<times> string) list \<Rightarrow> http_response" where
  "writeError status npsStatus errorCode message details extra =
     write_json status (header_set ''Content-Type'' ''application/json'' (fold (\<lambda>(k, v). header_set k v) extra []))
       (jmap ([(''status'', jstring npsStatus), (''error'', jstring errorCode), (''message'', jstring message)]
              @ optional ''details'' (\<lambda>d. d) details))"

definition writeTopologyError :: "TopologyProtocolError \<Rightarrow> http_response" where
  "writeTopologyError e =
     writeError (if tpeNpsStatus e \<noteq> [] then ToHttpStatus (tpeNpsStatus e) else 400)
       (tpeNpsStatus e) (tpeNwpErrorCode e) (tpeMessage e) None []"

definition method_not_allowed :: http_response where
  "method_not_allowed = \<lparr>rsStatus = 405, rsHeader = [], rsBody = []\<rparr>"

definition section_sign :: string where
  "section_sign = [CHR 0xC2, CHR 0xA7]"

section \<open>Reading requests\<close>

text \<open>A number outside the range of \<open>float64\<close> is an error; where the code drops it, the value stays nil.\<close>

fun jlenient :: "json \<Rightarrow> goany" where
  "jlenient JNull = GNil"
| "jlenient (JBool b) = GBool b"
| "jlenient (JNum n) = (case ParseFloat n of None \<Rightarrow> GNil | Some x \<Rightarrow> GF64 x)"
| "jlenient (JStr s) = GStr (unquote s)"
| "jlenient (JArr js) = GList (map jlenient js)"
| "jlenient (JObj kvs) = GMap (fold (\<lambda>(k, v) d. dput k v d) (map (\<lambda>(k, j). (unquote k, jlenient j)) kvs) [])"

definition lenient_dict :: "string \<Rightarrow> dict" where
  "lenient_dict s = (case parse_json s of Some j \<Rightarrow> (case jlenient j of GMap d \<Rightarrow> d | _ \<Rightarrow> []) | None \<Rightarrow> [])"

definition readJSON :: "anchor_env \<Rightarrow> http_request \<Rightarrow> string + dict" where
  "readJSON env r =
     (case rqBody r of
        Inl e \<Rightarrow> Inl (aeReadError env e)
      | Inr raw \<Rightarrow>
          if raw = [] then Inr []
          else case unmarshal_dict raw of Inl e \<Rightarrow> Inl (aeJsonError env raw) | Inr m \<Rightarrow> Inr m)"

definition scope_error :: "string \<Rightarrow> TopologyProtocolError" where
  "scope_error m = \<lparr>tpeNwpErrorCode = ''NWP-TOPOLOGY-UNSUPPORTED-SCOPE'', tpeNpsStatus = ''NPS-CLIENT-BAD-PARAM'', tpeMessage = m\<rparr>"

definition filter_error :: "string \<Rightarrow> TopologyProtocolError" where
  "filter_error m = \<lparr>tpeNwpErrorCode = ''NWP-TOPOLOGY-FILTER-UNSUPPORTED'', tpeNpsStatus = ''NPS-CLIENT-BAD-PARAM'', tpeMessage = m\<rparr>"

definition sq :: "string \<Rightarrow> string" where
  "sq s = [CHR 0x27] @ s @ [CHR 0x27]"

definition parseScope :: "dict \<Rightarrow> TopologyProtocolError + string" where
  "parseScope topo =
     (let s = str topo ''scope''
      in if s = [] then Inr ''cluster''
         else if s = ''cluster'' \<or> s = ''member'' then Inr s
         else Inl (scope_error (''unknown topology.scope '' @ sq s @ ''.'')))"

definition parseInclude :: "dict \<Rightarrow> string list" where
  "parseInclude topo =
     (let known = [''members'', ''capabilities'', ''tags'', ''metrics''];
          out = (case dget topo ''include'' of GList xs \<Rightarrow> filter (\<lambda>s. s \<in> set known) (strings_in xs) | _ \<Rightarrow> [])
      in if out = [] then [''members''] else remdups out)"

definition parseDepth :: "dict \<Rightarrow> int" where
  "parseDepth topo = (case dget topo ''depth'' of GF64 d \<Rightarrow> if f64_less (f64_of_int 0) d then f64_to_int d else 1 | _ \<Rightarrow> 1)"

definition parseSnapshotRequest :: "dict \<Rightarrow> TopologyProtocolError + AnchorSnapshotRequest" where
  "parseSnapshotRequest body =
     (case dget body ''topology'' of
        GMap topo \<Rightarrow>
          (case parseScope topo of
             Inl e \<Rightarrow> Inl e
           | Inr scope \<Rightarrow>
               let targetNid = str topo ''target_nid''
               in if scope = ''member'' \<and> targetNid = []
                  then Inl (scope_error (''topology.target_nid is required when topology.scope = '' @ [CHR 0x22] @ ''member'' @ [CHR 0x22] @ ''.''))
                  else Inr \<lparr>snScope = scope, snInclude = parseInclude topo, snDepth = parseDepth topo, snTargetNid = targetNid\<rparr>)
      | _ \<Rightarrow> Inl (scope_error (''topology.snapshot requires a '' @ sq ''topology'' @ '' object per NPS-2 '' @ section_sign @ ''12.1.'')))"

text \<open>The keys are checked in the order of the list; the code takes the order of a Go map.\<close>

fun validateFilterKeys :: "dict \<Rightarrow> TopologyProtocolError option" where
  "validateFilterKeys [] = None"
| "validateFilterKeys ((k, v) # f) =
     (if k \<in> {''tags_any'', ''tags_all'', ''node_roles''} then validateFilterKeys f
      else if k = ''node_kind'' then Some (filter_error ''topology.filter.node_kind expired after alpha.5; use node_roles.'')
      else Some (filter_error (''topology.filter key '' @ sq k @ '' is not recognized.'')))"

definition toStringSlice :: "goany \<Rightarrow> string list option" where
  "toStringSlice v = (case v of GList xs \<Rightarrow> Some (strings_in xs) | _ \<Rightarrow> None)"

definition since_version :: "dict \<Rightarrow> dict \<Rightarrow> u64 option" where
  "since_version topo body =
     (case dget topo ''since_version'' of
        GF64 sv \<Rightarrow> Some (f64_to_u64 sv)
      | _ \<Rightarrow> (case dget body ''resume_from_seq'' of GF64 rfs \<Rightarrow> Some (f64_to_u64 rfs) | _ \<Rightarrow> None))"

definition parseStreamRequest :: "anchor_env \<Rightarrow> dict \<Rightarrow> TopologyProtocolError + AnchorStreamRequest \<times> string" where
  "parseStreamRequest env body =
     (case dget body ''topology'' of
        GMap topo \<Rightarrow>
          (case parseScope topo of
             Inl e \<Rightarrow> Inl e
           | Inr scope \<Rightarrow>
               let flt = (case dget topo ''filter'' of
                            GMap f \<Rightarrow> (case validateFilterKeys f of
                                Some e \<Rightarrow> Inl e
                              | None \<Rightarrow> Inr (Some \<lparr>tpTagsAny = toStringSlice (dget f ''tags_any''), tpTagsAll = toStringSlice (dget f ''tags_all''),
                                  tpNodeRoles = toStringSlice (dget f ''node_roles'')\<rparr>))
                          | _ \<Rightarrow> Inr None);
                   sid = str body ''stream_id''
               in case flt of
                    Inl e \<Rightarrow> Inl e
                  | Inr f \<Rightarrow> Inr (\<lparr>srScope = scope, srFilter = f, srSinceVersion = since_version topo body\<rparr>,
                               if sid = [] then aeStreamID env else sid))
      | _ \<Rightarrow> Inl (scope_error (''topology.stream requires a '' @ sq ''topology'' @ '' object per NPS-2 '' @ section_sign @ ''12.2.'')))"

section \<open>Gates\<close>

definition requireAuth :: "AnchorNodeOptions \<Rightarrow> bool" where
  "requireAuth opt = (case aoRequireAuth opt of None \<Rightarrow> True | Some b \<Rightarrow> b)"

definition inboundClusterEpoch :: "dict \<Rightarrow> u64 option \<times> string" where
  "inboundClusterEpoch body =
     (let sender = (let s = str body ''anchor_nid'' in if s = [] then str body ''sender_anchor_nid'' else s)
      in case dget body ''cluster_epoch'' of
           GF64 x \<Rightarrow> (Some (f64_to_u64 x), sender)
         | GNum KUint64 x \<Rightarrow> (Some (word_of_int x), sender)
         | GNum KInt64 x \<Rightarrow> (Some (word_of_int x), sender)
         | GNum KInt x \<Rightarrow> (Some (word_of_int x), sender)
         | _ \<Rightarrow> (None, sender))"

definition guardInbound :: "dict \<Rightarrow> bool \<Rightarrow> anchor_state \<Rightarrow> http_response option \<times> anchor_state \<times> anchor_effect list" where
  "guardInbound body isTopologyWrite st =
     (case avGuard st of
        None \<Rightarrow> (None, st, [])
      | Some g \<Rightarrow>
          (case inboundClusterEpoch body of (inbound, sender) \<Rightarrow>
           (case OnInboundFrame inbound sender isTopologyWrite g of (perr, calls, g') \<Rightarrow>
              (map_option writeTopologyError perr, st\<lparr>avGuard := Some g'\<rparr>, map GuardCall calls))))"

definition checkTopologyCapability :: "AnchorNodeOptions \<Rightarrow> http_request \<Rightarrow> http_response option" where
  "checkTopologyCapability opt r =
     (if \<not> aoRequireTopologyCapability opt then None
      else if list_ex (\<lambda>c. fold_key (TrimSpace c) = fold_key ''topology:read'') (split_on CHR '','' (header_get (rqHeader r) ''X-NWP-Capabilities''))
      then None
      else Some (writeError 403 ''NPS-AUTH-FORBIDDEN'' ''NWP-TOPOLOGY-UNAUTHORIZED''
             (''Caller must declare '' @ sq ''topology:read'' @ '' in X-NWP-Capabilities to access topology endpoints.'') None []))"

definition clampTimeout :: "AnchorNodeOptions \<Rightarrow> int \<Rightarrow> AnchorActionSpec \<Rightarrow> int" where
  "clampTimeout opt requested spec =
     (let maxOpt = (if aoMaxTimeoutMs opt = 0 then 300000 else aoMaxTimeoutMs opt);
          specMax = (if asTimeoutMsMax spec = 0 then maxOpt else asTimeoutMsMax spec);
          hardMax = (if maxOpt < specMax then maxOpt else specMax)
      in if requested \<le> 0
         then (if asTimeoutMsDefault spec > 0 then asTimeoutMsDefault spec
               else if aoDefaultTimeoutMs opt > 0 then aoDefaultTimeoutMs opt else 30000)
         else if requested > hardMax then hardMax else requested)"

definition readEffectiveBudget :: "AnchorNodeOptions \<Rightarrow> http_request \<Rightarrow> int" where
  "readEffectiveBudget opt r =
     (let raw = header_get (rqHeader r) ''X-NWP-Budget'';
          agentBudget = (if raw \<noteq> [] then (case ParseInt64 raw of Some v \<Rightarrow> v | None \<Rightarrow> aoDefaultTokenBudget opt) else aoDefaultTokenBudget opt)
      in if aoCgnLimit opt = 0 then agentBudget
         else if agentBudget = 0 then aoCgnLimit opt
         else if aoCgnLimit opt < agentBudget then aoCgnLimit opt else agentBudget)"

definition extractIdentAssurance :: "http_request \<Rightarrow> AssuranceLevel" where
  "extractIdentAssurance r =
     (let raw = header_get (rqHeader r) ''X-NWP-Ident''
      in if raw = [] then AssuranceAnonymous
         else case unmarshal_dict raw of
           Inl e \<Rightarrow> AssuranceAnonymous
         | Inr doc \<Rightarrow>
             (case dget doc ''assurance_level'' of
                GStr lvl \<Rightarrow> (case AssuranceFromWire lvl of Some a \<Rightarrow> a | None \<Rightarrow> AssuranceAnonymous)
              | _ \<Rightarrow> AssuranceAnonymous))"

section \<open>Topology endpoints\<close>

definition unsupported_type :: "string \<Rightarrow> string \<Rightarrow> dict \<Rightarrow> http_response" where
  "unsupported_type route kind body =
     (let t = str body ''type''
      in writeError 501 ''NPS-SERVER-UNSUPPORTED'' ''NWP-RESERVED-TYPE-UNSUPPORTED''
           (if t \<noteq> [] then ''Reserved '' @ kind @ '' type '' @ sq t @ '' is not implemented by this Anchor Node.''
            else ''Anchor '' @ route @ '' requires a reserved type per NPS-2 '' @ section_sign @ ''12.'') None [])"

definition no_topology :: "string \<Rightarrow> http_response" where
  "no_topology what =
     writeError 501 ''NPS-SERVER-UNSUPPORTED'' ''NWP-NODE-UNAVAILABLE''
       (what @ '' is not available '' @ em_dash @ '' no topology service registered.'') None []"

definition capsule_headers :: "string \<Rightarrow> http_header" where
  "capsule_headers schema =
     (let hs = header_set ''X-NWP-Node-Type'' ''anchor'' (header_set ''Content-Type'' ''application/nwp-capsule'' [])
      in if schema = [] then hs else header_set ''X-NWP-Schema'' schema hs)"

definition snapshot_caps :: "TopologySnapshot \<Rightarrow> json res" where
  "snapshot_caps snap =
     jmap [(''anchor_ref'', jstring ''nps:system:topology:snapshot''), (''count'', jint 1), (''data'', jlist [snapshot_json snap])]"

definition bad_body :: "string \<Rightarrow> string \<Rightarrow> http_response" where
  "bad_body ec msg = writeError 400 ''NPS-CLIENT-BAD-REQUEST'' ec msg None []"

definition handleQuery :: "AnchorNodeApp \<Rightarrow> anchor_env \<Rightarrow> http_request \<Rightarrow> anchor_state \<Rightarrow> anchor_outcome" where
  "handleQuery a env r st =
     (case checkTopologyCapability (apOpt a) r of
        Some resp \<Rightarrow> (resp, st, [])
      | None \<Rightarrow>
          (case readJSON env r of
             Inl msg \<Rightarrow> (bad_body ''NWP-QUERY-FILTER-INVALID'' msg, st, [])
           | Inr body \<Rightarrow>
               (case guardInbound body False st of
                  (Some resp, st', effs) \<Rightarrow> (resp, st', effs)
                | (None, st', effs) \<Rightarrow>
                    if dget body ''type'' \<noteq> GStr ''topology.snapshot'' then (unsupported_type ''/query'' ''query'' body, st', effs)
                    else case apTopology a of
                      None \<Rightarrow> (no_topology ''topology.snapshot'', st', effs)
                    | Some svc \<Rightarrow>
                        (case parseSnapshotRequest body of
                           Inl e \<Rightarrow> (writeTopologyError e, st', effs)
                         | Inr req \<Rightarrow>
                             (case tvSnapshot svc req of
                                Inl (ProtocolError e) \<Rightarrow> (writeTopologyError e, st', effs)
                              | Inl OtherTopologyError \<Rightarrow>
                                  (writeError 500 ''NPS-SERVER-INTERNAL'' ''NWP-NODE-UNAVAILABLE'' ''topology snapshot failed.'' None [], st', effs)
                              | Inr snap \<Rightarrow>
                                  (write_json 200 (capsule_headers ''nps:system:topology:snapshot'')
                                     (snapshot_caps (StampSnapshot (avGuard st') snap)), st', effs))))))"

definition stream_ack :: "string \<Rightarrow> AnchorStreamRequest \<Rightarrow> AnchorEpochGuard option \<Rightarrow> json res" where
  "stream_ack streamID req g =
     jmap ([(''kind'', jstring ''ack''), (''stream_id'', jstring streamID), (''status'', jstring ''subscribed''),
            (''last_seq'', jint 0), (''resumed'', jbool (srSinceVersion req \<noteq> None))]
           @ optional ''cluster_epoch'' (\<lambda>g. jint (uint (OwnEpoch g))) g)"

definition handleSubscribe :: "AnchorNodeApp \<Rightarrow> anchor_env \<Rightarrow> http_request \<Rightarrow> anchor_state \<Rightarrow> anchor_outcome" where
  "handleSubscribe a env r st =
     (case checkTopologyCapability (apOpt a) r of
        Some resp \<Rightarrow> (resp, st, [])
      | None \<Rightarrow>
          (case readJSON env r of
             Inl msg \<Rightarrow> (bad_body ''NWP-QUERY-FILTER-INVALID'' msg, st, [])
           | Inr body \<Rightarrow>
               (case guardInbound body False st of
                  (Some resp, st', effs) \<Rightarrow> (resp, st', effs)
                | (None, st', effs) \<Rightarrow>
                    if dget body ''type'' \<noteq> GStr ''topology.stream'' then (unsupported_type ''/subscribe'' ''subscribe'' body, st', effs)
                    else case apTopology a of
                      None \<Rightarrow> (no_topology ''topology.stream'', st', effs)
                    | Some svc \<Rightarrow>
                        (case parseStreamRequest env body of
                           Inl e \<Rightarrow> (writeTopologyError e, st', effs)
                         | Inr (req, streamID) \<Rightarrow>
                             (case tvSubscribe svc req of
                                Inl e \<Rightarrow>
                                  (writeError 500 ''NPS-SERVER-INTERNAL'' ''NWP-NODE-UNAVAILABLE'' ''topology stream failed.'' None [], st', effs)
                              | Inr evs \<Rightarrow>
                                  (\<lparr>rsStatus = 200, rsHeader = capsule_headers [],
                                    rsBody = encode_line (stream_ack streamID req (avGuard st'))
                                      @ concat (map (\<lambda>ev. encode_line (eventToEnvelope (aeTimestamp env ev) streamID ev)) (until_resync evs))\<rparr>,
                                   st', effs))))))"

section \<open>Invoking actions\<close>

record invokeBody =
  ibActionID :: string
  ibParams :: raw
  ibAsync :: bool
  ibTimeoutMs :: int

definition invoke_tags :: "string list" where
  "invoke_tags = [''action_id'', ''params'', ''async'', ''timeout_ms'']"

definition unmarshal_invoke :: "raw \<Rightarrow> invokeBody option" where
  "unmarshal_invoke r =
     (case unmarshal_members r of
        None \<Rightarrow> None
      | Some kvs \<Rightarrow>
          let (act, ok1) = struct_field invoke_tags kvs ''action_id'' dec_string [];
              (ps, ok2) = struct_field invoke_tags kvs ''params'' dec_raw [];
              (asy, ok3) = struct_field invoke_tags kvs ''async'' dec_bool False;
              (tms, ok4) = struct_field invoke_tags kvs ''timeout_ms'' dec_int64 0
          in if ok1 \<and> ok2 \<and> ok3 \<and> ok4 then Some \<lparr>ibActionID = act, ibParams = ps, ibAsync = asy, ibTimeoutMs = tms\<rparr> else None)"

definition incident_details :: "ReputationRule option \<Rightarrow> json res option" where
  "incident_details rule =
     (case rule of
        Some r \<Rightarrow> if rrIncident r \<noteq> []
                  then Some (jmap [(''matched_incident'', jstring (rrIncident r)), (''matched_severity'', jstring (rrSeverity r))]) else None
      | None \<Rightarrow> None)"

definition incident_text :: "string \<Rightarrow> ReputationRule option \<Rightarrow> string \<Rightarrow> string \<Rightarrow> string" where
  "incident_text before rule after plain =
     (case rule of
        Some r \<Rightarrow> if rrIncident r \<noteq> [] then before @ rrIncident r @ '' ('' @ rrSeverity r @ '')'' @ after else plain
      | None \<Rightarrow> plain)"

definition applyReputation :: "AnchorNodeOptions \<Rightarrow> ReputationDecision \<Rightarrow> ReputationPolicy \<Rightarrow> AssuranceLevel \<Rightarrow> http_response option" where
  "applyReputation opt d policy assurance =
     (let rule = rdMatchedRule d; details = incident_details rule
      in case rdOutcome d of
           RepAccept \<Rightarrow> None
         | RepBan \<Rightarrow> Some (writeError 403 ''NPS-AUTH-FORBIDDEN'' ''NWP-REPUTATION-BANNED''
               (incident_text ''Request rejected: '' rule ('' '' @ em_dash @ '' NID temporarily banned.'')
                  ''Request rejected: NID temporarily banned.'') details [])
         | RepReject \<Rightarrow>
             (if rdErrorCode d = ''NWP-AUTH-ASSURANCE-TOO-LOW''
              then Some (writeError 403 ''NPS-AUTH-FORBIDDEN'' ''NWP-AUTH-ASSURANCE-TOO-LOW''
                     (''Assurance level too low: requires ''
                      @ sq (if rpMinAssuranceLevel policy = [] then ''anonymous'' else rpMinAssuranceLevel policy)
                      @ '', caller declared '' @ sq (alWire assurance) @ ''.'')
                     (Some (jmap [(''matched_incident'', Inr JNull), (''hint'', jstring (aoAssuranceHintURL opt))])) [])
              else Some (writeError 403 ''NPS-AUTH-FORBIDDEN'' ''NWP-REPUTATION-REJECTED''
                     (incident_text ''Request rejected: '' rule ''.'' ''Request rejected by reputation policy.'') details []))
         | RepThrottle \<Rightarrow> Some (writeError 429 ''NPS-CLIENT-RATE-LIMITED'' ''NWP-REPUTATION-THROTTLED''
               (incident_text ''Request rate-limited: '' rule ''.'' ''Request rate-limited by reputation policy.'') details
               [(''Retry-After'', ''60'')]))"

definition check_reputation :: "AnchorNodeApp \<Rightarrow> anchor_env \<Rightarrow> http_request \<Rightarrow> string \<Rightarrow> anchor_state \<Rightarrow> http_response option \<times> anchor_state" where
  "check_reputation a env r consumerKey st =
     (case aoReputationPolicy (apOpt a) of
        None \<Rightarrow> (None, st)
      | Some p \<Rightarrow>
          if apEvaluates a \<and> rpEnabled p
          then (let assurance = extractIdentAssurance r;
                    (d, ev) = Evaluate (aeLogs env) (aeDaysAgo env) (aeNow env) consumerKey (alWire assurance) p (avEvaluator st)
                in (applyReputation (apOpt a) d p assurance, st\<lparr>avEvaluator := ev\<rparr>))
          else (None, st))"

definition rate_limited :: "RateDecision \<Rightarrow> http_response" where
  "rate_limited rate =
     writeError 429 ''NPS-LIMIT-RATE'' ''NWP-BUDGET-EXCEEDED'' (if rtReason rate = [] then ''rate limit exceeded.'' else rtReason rate) None
       (if rtRetryAfterSeconds rate > 0 then [(''Retry-After'', dec_int (rtRetryAfterSeconds rate))] else [])"

definition invoke_context :: "AnchorNodeApp \<Rightarrow> anchor_env \<Rightarrow> http_request \<Rightarrow> int \<Rightarrow> int \<Rightarrow> InvokeContext" where
  "invoke_context a env r timeoutMs budget =
     (let auto = (case aoAutoInjectTraceContext (apOpt a) of None \<Rightarrow> True | Some b \<Rightarrow> b)
      in \<lparr>icAgentNid = header_get (rqHeader r) ''X-NWP-Agent'', icEffectiveTimeoutMs = timeoutMs, icBudgetCgn = budget,
          icTraceID = (if auto then aeTraceID env else []), icSpanID = (if auto then aeSpanID env else [])\<rparr>)"

definition path_prefix :: "AnchorNodeOptions \<Rightarrow> string" where
  "path_prefix opt = rev (dropWhile (\<lambda>c. c = CHR ''/'') (rev (aoPathPrefix opt)))"

definition async_accepted :: "AnchorNodeApp \<Rightarrow> anchor_env \<Rightarrow> http_response" where
  "async_accepted a env =
     write_json 202 (header_set ''X-NWP-Node-Type'' ''anchor'' (header_set ''Content-Type'' ''application/json'' []))
       (jmap [(''task_id'', jstring (aeTaskID env)), (''status'', jstring ''pending''),
              (''poll_url'', jstring (path_prefix (apOpt a) @ ''/invoke''))])"

definition invoke_result :: "AnchorActionSpec \<Rightarrow> handler_error + json res option \<Rightarrow> http_response" where
  "invoke_result spec result =
     (case result of
        Inl (ActionError e) \<Rightarrow> writeError (aaeHTTPStatus e) (aaeNpsStatus e) (aaeErrorCode e) (aaeMessage e) (aaeDetails e) []
      | Inl OtherHandlerError \<Rightarrow>
          writeError 500 ''NPS-SERVER-INTERNAL'' ''NWP-NODE-UNAVAILABLE'' ''anchor task execution failed.'' None []
      | Inr v \<Rightarrow>
          let hs = capsule_headers (asResultAnchor spec);
              hs = (if asEstimatedCgn spec > 0 then header_set ''X-NWP-Tokens'' (dec_int (asEstimatedCgn spec)) hs else hs)
          in write_json 200 hs
               (jmap [(''anchor_ref'', jstring (asResultAnchor spec)), (''count'', jint (if v = None then 0 else 1)),
                      (''data'', jlist (case v of None \<Rightarrow> [] | Some j \<Rightarrow> [j]))]))"

text \<open>What happens once the limiter has let a request in; the deferred release comes last.\<close>

definition run_admitted ::
    "AnchorNodeApp \<Rightarrow> anchor_env \<Rightarrow> http_request \<Rightarrow> invokeBody \<Rightarrow> AnchorActionSpec \<Rightarrow> string \<Rightarrow> anchor_state \<Rightarrow> anchor_outcome" where
  "run_admitted a env r frame spec consumerKey st =
     (let budget = readEffectiveBudget (apOpt a) r; cost = asEstimatedCgn spec
      in case check_reputation a env r consumerKey st of
           (Some resp, st') \<Rightarrow> (resp, st', [])
         | (None, st') \<Rightarrow>
             if budget > 0 \<and> cost > 0 \<and> cost > budget
             then (writeError 400 ''NPS-CLIENT-REQUEST-TOO-LARGE'' ''NWP-CGN-LIMIT-EXCEEDED'' ''estimated CGN exceeds effective budget.''
                     (Some (jmap [(''effective_budget'', jint budget), (''estimated_cgn'', jint cost)])) [], st', [])
             else case apHandler a of
               None \<Rightarrow> (writeError 501 ''NPS-SERVER-UNSUPPORTED'' ''NWP-NODE-UNAVAILABLE''
                          ''no invoke handler registered on this Anchor Node.'' None [], st', [])
             | Some h \<Rightarrow>
                 let ic = invoke_context a env r (clampTimeout (apOpt a) (ibTimeoutMs frame) spec) budget;
                     run = HandlerRun (ibActionID frame) (ibParams frame) ic (ibAsync frame)
                 in if ibAsync frame then (async_accepted a env, st', [run])
                    else (invoke_result spec (h (ibActionID frame) (ibParams frame) ic), st', [run]))"

definition handleInvoke :: "AnchorNodeApp \<Rightarrow> anchor_env \<Rightarrow> http_request \<Rightarrow> anchor_state \<Rightarrow> anchor_outcome" where
  "handleInvoke a env r st =
     (case rqBody r of
        Inl e \<Rightarrow> (bad_body ''NWP-ACTION-PARAMS-INVALID'' (aeReadError env e), st, [])
      | Inr raw \<Rightarrow>
          (case unmarshal_invoke raw of
             None \<Rightarrow> (bad_body ''NWP-ACTION-PARAMS-INVALID'' ''invalid ActionFrame: missing action_id.'', st, [])
           | Some frame \<Rightarrow>
               if ibActionID frame = []
               then (bad_body ''NWP-ACTION-PARAMS-INVALID'' ''invalid ActionFrame: missing action_id.'', st, [])
               else case map_of (aoActions (apOpt a)) (ibActionID frame) of
                 None \<Rightarrow> (writeError 404 ''NPS-CLIENT-NOT-FOUND'' ''NWP-ACTION-NOT-FOUND''
                            (''Unknown action_id '' @ sq (ibActionID frame) @ ''.'') None [], st, [])
               | Some spec \<Rightarrow>
                   if ibAsync frame \<and> \<not> asAsync spec
                   then (bad_body ''NWP-ACTION-PARAMS-INVALID''
                           (''action '' @ sq (ibActionID frame) @ '' does not support async execution.''), st, [])
                   else
                     (case guardInbound (lenient_dict raw) (asTopologyWrite spec) st of
                        (Some resp, st', effs) \<Rightarrow> (resp, st', effs)
                      | (None, st', effs) \<Rightarrow>
                          let agent = header_get (rqHeader r) ''X-NWP-Agent'';
                              consumerKey = (if agent = [] then ''anonymous'' else agent);
                              rate = aeTryAcquire env consumerKey (asEstimatedCgn spec);
                              acq = Acquired consumerKey (asEstimatedCgn spec)
                          in if \<not> rtAllowed rate then (rate_limited rate, st', effs @ [acq])
                             else (case run_admitted a env r frame spec consumerKey st' of
                                     (resp, st'', es) \<Rightarrow> (resp, st'', effs @ [acq] @ es @ [Released consumerKey])))))"

section \<open>Manifest and actions\<close>

definition rule_json :: "ReputationRule \<Rightarrow> json res" where
  "rule_json r =
     jmap ([(''incident'', jstring (rrIncident r)), (''severity'', jstring (rrSeverity r))]
           @ optional ''within_days'' (\<lambda>d. jint (uint d)) (rrWithinDays r)
           @ (if rrCount r \<noteq> 0 then [(''count'', jint (uint (rrCount r)))] else []))"

definition reputationPolicyToMap :: "ReputationPolicy \<Rightarrow> json res" where
  "reputationPolicyToMap p =
     jmap [(''enabled'', jbool (rpEnabled p)), (''log_sources'', jstrings (rpLogSources p)),
           (''min_assurance_level'', jstring (rpMinAssuranceLevel p)),
           (''cache_ttl_seconds'', jint (uint (rpCacheTtlSeconds p))), (''ban_ttl_seconds'', jint (uint (rpBanTtlSeconds p))),
           (''on_log_unavailable'', jstring (rpOnLogUnavailable p)),
           (''throttle_on'', jlist (map rule_json (rpThrottleOn p))),
           (''reject_on'', jlist (map rule_json (rpRejectOn p))),
           (''ban_on'', jlist (map rule_json (rpBanOn p)))]"

definition nonempty_text :: "string \<Rightarrow> string \<Rightarrow> (string \<times> json res) list" where
  "nonempty_text k s = (if s \<noteq> [] then [(k, jstring s)] else [])"

definition nonzero_int :: "string \<Rightarrow> int \<Rightarrow> (string \<times> json res) list" where
  "nonzero_int k i = (if i \<noteq> 0 then [(k, jint i)] else [])"

definition action_json :: "string \<Rightarrow> AnchorActionSpec \<Rightarrow> json res" where
  "action_json aid spec =
     jmap ([(''action_id'', jstring aid), (''async'', jbool (asAsync spec))]
           @ nonempty_text ''description'' (asDescription spec)
           @ nonempty_text ''params_anchor'' (asParamsAnchor spec)
           @ nonempty_text ''result_anchor'' (asResultAnchor spec)
           @ nonzero_int ''cgn_est'' (asEstimatedCgn spec)
           @ nonzero_int ''timeout_ms_default'' (asTimeoutMsDefault spec)
           @ nonzero_int ''timeout_ms_max'' (asTimeoutMsMax spec)
           @ nonempty_text ''required_capability'' (asRequiredCapability spec))"

definition actionsMap :: "AnchorNodeOptions \<Rightarrow> (string \<times> json res) list" where
  "actionsMap opt = map (\<lambda>(aid, spec). (aid, action_json aid spec)) (aoActions opt)"

definition buildManifest :: "AnchorNodeOptions \<Rightarrow> json res" where
  "buildManifest o' =
     (let base = path_prefix o'
      in jmap ([(''nwp'', jstring ''0.4''), (''node_id'', jstring (aoNodeID o')), (''node_type'', jstring ''anchor'')]
           @ nonempty_text ''display_name'' (aoDisplayName o')
           @ [(''wire_formats'', jstrings (Some [''ncp-capsule'', ''json''])), (''preferred_format'', jstring ''json''),
              (''capabilities'', jmap [(''query'', jbool False), (''stream'', jbool False), (''subscribe'', jbool False),
                 (''vector_search'', jbool False), (''token_budget_hint'', jbool True), (''ext_frame'', jbool False)]),
              (''auth'', jmap ([(''required'', jbool (requireAuth o')),
                  (''identity_type'', jstring (if requireAuth o' then ''nip-cert'' else ''none''))]
                 @ optional ''required_capabilities'' (\<lambda>cs. jstrings (Some cs)) (aoRequiredCapabilities o'))),
              (''endpoints'', jmap [(''invoke'', jstring (base @ ''/invoke'')), (''schema'', jstring (base @ ''/.schema''))])]
           @ (if aoCgnLimit o' > 0 then [(''token_budget'', jmap [(''cgn_limit'', jint (aoCgnLimit o')), (''profile'', jstring ''cgn.v1'')])] else [])
           @ optional ''rate_limits'' (\<lambda>l. l) (aoRateLimits o')
           @ (case aoReputationPolicy o' of
                Some p \<Rightarrow> if rpEnabled p then [(''reputation_policy'', reputationPolicyToMap p)] else []
              | None \<Rightarrow> [])
           @ (if aoTrustAnchors o' \<noteq> [] then [(''trust_anchors'', jstrings (Some (aoTrustAnchors o')))] else [])
           @ [(''actions'', jlist (map snd (sort_key fst (actionsMap o'))))]))"

section \<open>Routing\<close>

definition isKnownRoute :: "string \<Rightarrow> bool" where
  "isKnownRoute sub \<longleftrightarrow>
     sub \<in> {''/.nwm'', ''/.nwm/'', ''/.schema'', ''/.schema/'', ''/actions'', ''/actions/'',
            ''/invoke'', ''/invoke/'', ''/query'', ''/query/'', ''/subscribe'', ''/subscribe/''}"

definition not_found :: "string \<Rightarrow> http_response" where
  "not_found m = writeError 404 ''NPS-CLIENT-NOT-FOUND'' ''NWP-ACTION-NOT-FOUND'' m None []"

definition post_only :: "http_request \<Rightarrow> (http_request \<Rightarrow> anchor_state \<Rightarrow> anchor_outcome) \<Rightarrow> anchor_state \<Rightarrow> anchor_outcome" where
  "post_only r h st = (if rqMethod r \<noteq> ''POST'' then (method_not_allowed, st, []) else h r st)"

definition ServeHTTP :: "AnchorNodeApp \<Rightarrow> anchor_env \<Rightarrow> http_request \<Rightarrow> anchor_state \<Rightarrow> anchor_outcome" where
  "ServeHTTP a env r st =
     (let prefix = path_prefix (apOpt a); sub = drop (length prefix) (rqPath r)
      in if \<not> has_prefix (rqPath r) prefix then (not_found ''no NWP node at this path.'', st, [])
         else if \<not> isKnownRoute sub then (not_found ''unknown anchor sub-path.'', st, [])
         else if requireAuth (apOpt a) \<and> header_get (rqHeader r) ''X-NWP-Agent'' = []
         then (writeError 401 ''NPS-AUTH-UNAUTHENTICATED'' ''NWP-AUTH-NID-SCOPE-VIOLATION'' ''X-NWP-Agent header is required.'' None [], st, [])
         else if sub \<in> {''/.nwm'', ''/.nwm/''}
         then (\<lparr>rsStatus = 200,
                rsHeader = header_set ''X-NWP-Node-Type'' ''anchor'' (header_set ''Content-Type'' ''application/nwp-manifest+json'' []),
                rsBody = jtext (buildManifest (apOpt a))\<rparr>, st, [])
         else if sub \<in> {''/.schema'', ''/.schema/'', ''/actions'', ''/actions/''}
         then (\<lparr>rsStatus = 200, rsHeader = header_set ''Content-Type'' ''application/json'' [],
                rsBody = jtext (jmap [(''actions'', jmap (actionsMap (apOpt a)))])\<rparr>, st, [])
         else if sub \<in> {''/invoke'', ''/invoke/''} then post_only r (handleInvoke a env) st
         else if sub \<in> {''/query'', ''/query/''} then post_only r (handleQuery a env) st
         else post_only r (handleSubscribe a env) st)"

section \<open>The in-memory topology service and the default limiter\<close>

record InMemoryAnchorTopologyService =
  imNid :: string
  imMembers :: "MemberInfo list option"
  imVersion :: u64
  imEvents :: "TopologyEvent list"

definition GetSnapshot :: "InMemoryAnchorTopologyService \<Rightarrow> AnchorSnapshotRequest \<Rightarrow> topology_error + TopologySnapshot" where
  "GetSnapshot s req =
     Inr \<lparr>tsVersion = imVersion s, tsAnchorNid = imNid s,
          tsClusterSize = of_nat (length (case imMembers s of None \<Rightarrow> [] | Some ms \<Rightarrow> ms)),
          tsMembers = (if ''members'' \<in> set (snInclude req) then imMembers s else None),
          tsTruncated = None, tsClusterEpoch = None\<rparr>"

definition Subscribe :: "InMemoryAnchorTopologyService \<Rightarrow> AnchorStreamRequest \<Rightarrow> topology_error + TopologyEvent list" where
  "Subscribe s req = Inr (imEvents s)"

definition in_memory_service :: "InMemoryAnchorTopologyService \<Rightarrow> topology_service" where
  "in_memory_service s = \<lparr>tvSnapshot = GetSnapshot s, tvSubscribe = Subscribe s\<rparr>"

definition AllowAll :: "string \<Rightarrow> int \<Rightarrow> RateDecision" where
  "AllowAll consumerKey costHint = \<lparr>rtAllowed = True, rtRetryAfterSeconds = 0, rtReason = []\<rparr>"

section \<open>What a client reads\<close>


lemma StampSnapshot_ok [simp]: "snapshot_ok (StampSnapshot g s) = snapshot_ok s"
  by (simp add: StampSnapshot_def snapshot_ok_def split: option.split)

lemma snapshot_caps_read:
  assumes "snapshot_ok s"
  shows "snapshot_answer 200 (encode_line (snapshot_caps s)) = Inr (snapshot_norm s)"
proof -
  let ?fs = "[(''anchor_ref'', jstring ''nps:system:topology:snapshot''), (''count'', jint 1), (''data'', jlist [snapshot_json s])]"
  have j: "jok 9998 (snapshot_json s)" by (rule snapshot_json_ok [OF assms])
  then have a9: "jok 9999 (jlist [snapshot_json s])" by (intro jok_jlist) simp_all
  then have a10: "jok 10000 (jlist [snapshot_json s])" by (rule jok_mono) simp
  obtain t where t: "snapshot_json s = Inr t" using j by (cases "snapshot_json s") (auto simp: jok_def)
  have a: "json_ok 10000 (JArr [t])" using a10 by (simp add: jok_def jlist_def t)
  have fs: "list_all (\<lambda>(k, r). utf8_valid k \<and> jok 9999 r) ?fs" using a9 by (simp add: utf8_ascii del: utf8_valid.simps)
  then have "jok 10000 (snapshot_caps s)"
    unfolding snapshot_caps_def by (intro jok_jmap) (auto simp: list_all_iff)
  then have u: "unmarshal_members (encode_line (snapshot_caps s)) = Some (sort_key fst (field_texts ?fs))"
    using unmarshal_jmap [OF fs] by (simp add: unmarshal_members_line snapshot_caps_def)
  have k: "keys_ok [''data''] (map fst ?fs)" by code_simp
  have d: "dec_raws None (jtext (jlist [snapshot_json s])) = Some (Some [jtext (snapshot_json s)])"
    using parse_json_text [OF a] unmarshal_slice_text [OF a]
    by (simp add: dec_raws_def jlist_def t jtext_def)
  show ?thesis
    using struct_field_written(2) [OF k, of "''data''" dec_raws None] snapshot_read [OF assms] d
    by (simp add: snapshot_answer_def u)
qed

lemma eventToEnvelope_line:
  assumes "event_ok (teData ev)"
  shows "encode_line (eventToEnvelope (clock ev) sid ev) = event_line clock sid ev @ [CHR 0x0A]"
proof -
  have "TrimSpace [] = []" by code_simp
  then show ?thesis
    using event_line_props(1) [OF assms, of clock sid]
    by (auto simp: event_line_def encode_line_def jtext_def split: sum.split)
qed

lemma until_resync_subset: "set (until_resync evs) \<subseteq> set evs"
  by (induction evs) auto

lemma stream_ack_ok: "jok 10000 (stream_ack sid req g)"
  unfolding stream_ack_def by (intro jok_jmap) (simp_all add: option.pred_True)

lemma stream_read:
  assumes "utf8_valid sid" and ev: "list_all (\<lambda>ev. event_ok (teData ev) \<and> length (event_line clock sid ev) < 65536) evs"
    and ack: "length (jtext (stream_ack sid req g)) < 65536"
  shows "subscribe_events (encode_line (stream_ack sid req g)
           @ concat (map (\<lambda>ev. encode_line (eventToEnvelope (clock ev) sid ev)) (until_resync evs)))
         = (map received (until_resync evs), StreamOver)"
proof -
  let ?ls = "jtext (stream_ack sid req g) # map (event_line clock sid) (until_resync evs)"
  obtain j where j: "stream_ack sid req g = Inr j" "json_ok 10000 j"
    using stream_ack_ok [of sid req g] by (cases "stream_ack sid req g") (auto simp: jok_def)
  have ok: "event_ok (teData ev)" if "ev \<in> set (until_resync evs)" for ev
    using that until_resync_subset [of evs] ev by (auto simp: list_all_iff)
  have "encode_line (stream_ack sid req g) @ concat (map (\<lambda>ev. encode_line (eventToEnvelope (clock ev) sid ev)) (until_resync evs))
      = concat (map (\<lambda>l. l @ [CHR 0x0A]) ?ls)"
    using ok by (simp add: j encode_line_def [of "Inr _"] jtext_def [of "Inr _"] eventToEnvelope_line comp_def cong: map_cong)
  moreover have "list_all (\<lambda>l. CHR 0x0A \<notin> set l) ?ls"
    using ok json_text_no_newline [OF j(2)] by (auto simp: list_all_iff event_line_props j jtext_def [of "Inr _"])
  note body_lines_written [OF this]
  ultimately show ?thesis
    using stream_events_written [OF assms(1,2)] ack by (simp only: subscribe_events_def) simp
qed

section \<open>Topology over the wire\<close>

text \<open>A request that reaches a topology endpoint: the right path, method, agent and capability, a body that
  reads, and an epoch that does not fence the anchor.\<close>

definition topology_request :: "AnchorNodeApp \<Rightarrow> anchor_env \<Rightarrow> string \<Rightarrow> http_request \<Rightarrow> dict \<Rightarrow> anchor_state \<Rightarrow> bool" where
  "topology_request a env route r body st \<longleftrightarrow>
     rqPath r = path_prefix (apOpt a) @ route \<and> rqMethod r = ''POST''
     \<and> (requireAuth (apOpt a) \<longrightarrow> header_get (rqHeader r) ''X-NWP-Agent'' \<noteq> [])
     \<and> checkTopologyCapability (apOpt a) r = None \<and> readJSON env r = Inr body
     \<and> (case avGuard st of None \<Rightarrow> True
        | Some g \<Rightarrow> (case fst (inboundClusterEpoch body) of None \<Rightarrow> 1 | Some e \<Rightarrow> e) \<le> OwnEpoch g)"

lemma guard_reads:
  assumes "topology_request a env route r body st"
  shows "guardInbound body False st = (None, st, [])"
proof (cases "avGuard st")
  case (Some g)
  then have "st\<lparr>avGuard := Some g\<rparr> = st" by (cases st) simp
  with assms Some show ?thesis
    by (auto simp: topology_request_def guardInbound_def OnInboundFrame_def OwnEpoch_def Let_def split: prod.split)
qed (simp add: guardInbound_def)

lemma has_prefix_append [simp]: "has_prefix (p @ s) p"
  by (simp add: has_prefix_def)

lemma ServeHTTP_topology:
  assumes "topology_request a env route r body st"
  shows "route = ''/query'' \<Longrightarrow> ServeHTTP a env r st = handleQuery a env r st"
    and "route = ''/subscribe'' \<Longrightarrow> ServeHTTP a env r st = handleSubscribe a env r st"
  using assms by (auto simp: topology_request_def ServeHTTP_def Let_def post_only_def isKnownRoute_def)

lemma query_answered:
  assumes "topology_request a env ''/query'' r body st" and "dget body ''type'' = GStr ''topology.snapshot''"
    and "apTopology a = Some svc" and "parseSnapshotRequest body = Inr req" and "tvSnapshot svc req = Inr snap"
  shows "ServeHTTP a env r st =
    (write_json 200 (capsule_headers ''nps:system:topology:snapshot'') (snapshot_caps (StampSnapshot (avGuard st) snap)), st, [])"
  using assms guard_reads [OF assms(1)]
  by (simp add: ServeHTTP_topology(1) [OF assms(1) refl] handleQuery_def topology_request_def)

text \<open>C15: a snapshot arrives as it was taken: for a snapshot request that reaches the endpoint, the client reads from
  the answer the snapshot that the topology service gave, stamped with the epoch of the anchor's guard; the
  request changes no state and has no effects.
\<close>

theorem snapshot_served:
  assumes "topology_request a env ''/query'' r body st" and "dget body ''type'' = GStr ''topology.snapshot''"
    and "apTopology a = Some svc" and "parseSnapshotRequest body = Inr req"
    and "tvSnapshot svc req = Inr snap" and "snapshot_ok snap"
  shows "\<exists>resp. ServeHTTP a env r st = (resp, st, []) \<and> rsStatus resp = 200
           \<and> snapshot_answer (rsStatus resp) (rsBody resp) = Inr (snapshot_norm (StampSnapshot (avGuard st) snap))"
  using query_answered [OF assms(1-5)] snapshot_caps_read [of "StampSnapshot (avGuard st) snap"] assms(6)
  by (simp add: write_json_def)

text \<open>C14: a subscriber receives the events in the order the topology service gave them, up to and with the first
  request to resynchronise, and the stream ends without an error, as long as no line exceeds what the client's
  scanner takes.
\<close>

theorem stream_served:
  assumes "topology_request a env ''/subscribe'' r body st" and "dget body ''type'' = GStr ''topology.stream''"
    and "apTopology a = Some svc" and "parseStreamRequest env body = Inr (req, sid)"
    and "tvSubscribe svc req = Inr evs" and "utf8_valid sid"
    and "list_all (\<lambda>ev. event_ok (teData ev) \<and> length (event_line (aeTimestamp env) sid ev) < 65536) evs"
    and "length (jtext (stream_ack sid req (avGuard st))) < 65536"
  shows "\<exists>resp. ServeHTTP a env r st = (resp, st, []) \<and> rsStatus resp = 200
           \<and> subscribe_events (rsBody resp) = (map received (until_resync evs), StreamOver)"
proof -
  have "\<exists>resp. handleSubscribe a env r st = (resp, st, []) \<and> rsStatus resp = 200
      \<and> rsBody resp = encode_line (stream_ack sid req (avGuard st))
          @ concat (map (\<lambda>ev. encode_line (eventToEnvelope (aeTimestamp env ev) sid ev)) (until_resync evs))"
    using assms guard_reads [OF assms(1)] by (simp add: handleSubscribe_def topology_request_def)
  then show ?thesis
    using stream_read [OF assms(6,7,8)] by (auto simp: ServeHTTP_topology(2) [OF assms(1) refl])
qed

section \<open>Gates before a handler\<close>











section \<open>The client and the server\<close>

text \<open>The request as the server sees it, when the URL leads to this path.\<close>

definition arrives :: "string \<Rightarrow> client_request \<Rightarrow> http_request" where
  "arrives path q = \<lparr>rqMethod = ''POST'', rqPath = path, rqHeader = cqHeader q, rqBody = Inr (cqBody q)\<rparr>"

definition default_body :: dict where
  "default_body = [(''type'', GStr ''topology.snapshot''),
     (''topology'', GMap [(''scope'', GStr ''cluster''), (''include'', GList [GStr ''members'']), (''depth'', GF64 (f64_of_int 1))])]"

definition default_request :: AnchorSnapshotRequest where
  "default_request = \<lparr>snScope = ''cluster'', snInclude = [''members''], snDepth = 1, snTargetNid = []\<rparr>"

lemma default_text:
  obtains q where "snapshot_query c [] [] 0 [] = Inr q" "unmarshal_dict (cqBody q) = Inr default_body" "cqBody q \<noteq> []"
    "cqHeader q = header_set ''Accept'' ''application/json'' (header_set ''Content-Type'' ''application/json'' [])"
proof -
  let ?j = "jstruct [(''type'', jstring ''topology.snapshot''), (''topology'', snapshotTopologyPayload ''cluster'' [''members''] 1 [])]"
  have "(case ?j of Inl e \<Rightarrow> False | Inr j \<Rightarrow> unmarshal_dict (json_text j) = Inr default_body \<and> json_text j \<noteq> [])"
    by code_simp
  then obtain j where "?j = Inr j" "unmarshal_dict (json_text j) = Inr default_body" "json_text j \<noteq> []"
    by (cases ?j) auto
  then show ?thesis
    using that [of "\<lparr>cqURL = acBaseURL c @ acPathPrefix c @ ''/query'',
        cqHeader = header_set ''Accept'' ''application/json'' (header_set ''Content-Type'' ''application/json'' []), cqBody = json_text j\<rparr>"]
    by (simp add: snapshot_query_def client_post_def)
qed

lemma writeError_status: "rsStatus (writeError hs st er ms d ex) = hs"
  by (simp add: writeError_def write_json_def)

lemma error_read:
  assumes "jok 10000 (jmap [(''status'', jstring st), (''error'', jstring er), (''message'', jstring ms)])"
    and "list_all utf8_valid [st, er, ms]" and "er \<noteq> []" and "ms \<noteq> []"
  shows "parseErrorBody (rsBody (writeError hs st er ms None [])) status
           = \<lparr>ateNwpErrorCode = er, ateNpsStatus = st, ateMessage = ms\<rparr>"
proof -
  let ?fs = "[(''status'', jstring st), (''error'', jstring er), (''message'', jstring ms)]"
  have "list_all (\<lambda>(k, r). utf8_valid k \<and> jok 9999 r) ?fs" by (simp add: utf8_ascii del: utf8_valid.simps)
  then have u: "unmarshal_members (rsBody (writeError hs st er ms None [])) = Some (sort_key fst (field_texts ?fs))"
    using assms(1) unmarshal_jmap [of ?fs] by (simp add: writeError_def write_json_def optional_def unmarshal_members_line)
  have "keys_ok error_tags (map fst ?fs)" by (rule keys_ok_subset) (simp_all add: error_tags_def)
  note f = struct_field_written(2) [OF this]
  have "set error_tags = {''error'', ''status'', ''message''}" by (simp add: error_tags_def)
  then show ?thesis using assms(2-) by (simp add: parseErrorBody_def u f del: utf8_valid.simps)
qed

lemma client_header:
  assumes "cqHeader q = header_set ''Accept'' ''application/json'' (header_set ''Content-Type'' ''application/json'' [])"
  shows "header_get (rqHeader (arrives p q)) ''X-NWP-Agent'' = []" and "header_get (rqHeader (arrives p q)) ''X-NWP-Capabilities'' = []"
proof -
  have "header_get (header_set ''Accept'' ''application/json'' (header_set ''Content-Type'' ''application/json'' [])) k = []"
    if "k \<in> {''X-NWP-Agent'', ''X-NWP-Capabilities''}" for k
    using that by (elim insertE emptyE; hypsubst) code_simp+
  then show "header_get (rqHeader (arrives p q)) ''X-NWP-Agent'' = []" "header_get (rqHeader (arrives p q)) ''X-NWP-Capabilities'' = []"
    by (simp_all add: arrives_def assms)
qed

text \<open>C39: what the client and the server make of each other: a client's default snapshot request is served when the anchor
  requires neither an agent nor a capability; when the anchor requires an agent, its default, the request is refused,
  because the client never sends the header that names one.
\<close>

theorem client_meets_server:
  assumes "apTopology a = Some svc" and "tvSnapshot svc default_request = Inr snap" and "snapshot_ok snap"
    and "pred_option (\<lambda>g. 1 \<le> OwnEpoch g) (avGuard st)" and "snapshot_query c [] [] 0 [] = Inr q"
  shows "\<exists>resp. ServeHTTP a env (arrives (path_prefix (apOpt a) @ ''/query'') q) st = (resp, st, [])
           \<and> snapshot_answer (rsStatus resp) (rsBody resp)
             = (if requireAuth (apOpt a)
                then Inl (ServerError \<lparr>ateNwpErrorCode = ''NWP-AUTH-NID-SCOPE-VIOLATION'', ateNpsStatus = ''NPS-AUTH-UNAUTHENTICATED'',
                       ateMessage = ''X-NWP-Agent header is required.''\<rparr>)
                else if aoRequireTopologyCapability (apOpt a)
                then Inl (ServerError \<lparr>ateNwpErrorCode = ''NWP-TOPOLOGY-UNAUTHORIZED'', ateNpsStatus = ''NPS-AUTH-FORBIDDEN'',
                       ateMessage = ''Caller must declare '' @ sq ''topology:read''
                         @ '' in X-NWP-Capabilities to access topology endpoints.''\<rparr>)
                else Inr (snapshot_norm (StampSnapshot (avGuard st) snap)))"
proof -
  let ?r = "arrives (path_prefix (apOpt a) @ ''/query'') q"
  have q: "unmarshal_dict (cqBody q) = Inr default_body" "cqBody q \<noteq> []"
      "cqHeader q = header_set ''Accept'' ''application/json'' (header_set ''Content-Type'' ''application/json'' [])"
    using default_text [of c] assms(5) by (metis sum.inject(2))+
  note h = client_header [OF q(3), of "path_prefix (apOpt a) @ ''/query''"]
  have err: "parseErrorBody (rsBody (writeError hs st er ms None [])) status = \<lparr>ateNwpErrorCode = er, ateNpsStatus = st, ateMessage = ms\<rparr>"
    if "list_all utf8_valid [st, er, ms]" "er \<noteq> []" "ms \<noteq> []" for hs st er ms status
    using that by (intro error_read jok_jmap) simp_all
  consider (auth) "requireAuth (apOpt a)" | (cap) "\<not> requireAuth (apOpt a)" "aoRequireTopologyCapability (apOpt a)"
    | (served) "\<not> requireAuth (apOpt a)" "\<not> aoRequireTopologyCapability (apOpt a)" by blast
  then show ?thesis
  proof cases
    case auth
    then have "ServeHTTP a env ?r st = (writeError 401 ''NPS-AUTH-UNAUTHENTICATED'' ''NWP-AUTH-NID-SCOPE-VIOLATION''
        ''X-NWP-Agent header is required.'' None [], st, [])"
      using h by (simp add: ServeHTTP_def Let_def isKnownRoute_def) (simp add: arrives_def)
    then show ?thesis using auth by (simp add: snapshot_answer_def err utf8_ascii writeError_status del: utf8_valid.simps)
  next
    case cap
    have "split_on CHR '','' [] = [[]]" "fold_key (TrimSpace []) \<noteq> fold_key ''topology:read''" by code_simp+
    then have "checkTopologyCapability (apOpt a) ?r = Some (writeError 403 ''NPS-AUTH-FORBIDDEN'' ''NWP-TOPOLOGY-UNAUTHORIZED''
        (''Caller must declare '' @ sq ''topology:read'' @ '' in X-NWP-Capabilities to access topology endpoints.'') None [])"
      using cap h by (simp add: checkTopologyCapability_def)
    then show ?thesis
      using cap by (simp add: ServeHTTP_def Let_def isKnownRoute_def post_only_def handleQuery_def arrives_def
        snapshot_answer_def err utf8_ascii writeError_status sq_def del: utf8_valid.simps)
  next
    case served
    have b: "fst (inboundClusterEpoch default_body) = None" "dget default_body ''type'' = GStr ''topology.snapshot''"
        "parseSnapshotRequest default_body = Inr default_request" by code_simp+
    have "topology_request a env ''/query'' ?r default_body st"
      using served q assms(4) by (auto simp: topology_request_def arrives_def checkTopologyCapability_def readJSON_def b split: option.split)
    from query_answered [OF this b(2) assms(1) b(3) assms(2)] show ?thesis
      using served snapshot_caps_read [of "StampSnapshot (avGuard st) snap"] assms(3) by (simp add: write_json_def)
  qed
qed

section \<open>A small anchor\<close>

definition ping_spec :: AnchorActionSpec where
  "ping_spec = \<lparr>asDescription = ''ping'', asParamsAnchor = [], asResultAnchor = [], asEstimatedCgn = 5, asTimeoutMsDefault = 0,
     asTimeoutMsMax = 0, asRequiredCapability = [], asAsync = False, asTopologyWrite = True\<rparr>"

definition small_policy :: ReputationPolicy where
  "small_policy = \<lparr>rpEnabled = True, rpLogSources = Some [''log''], rpMinAssuranceLevel = ''anonymous'', rpCacheTtlSeconds = 0,
     rpBanTtlSeconds = 60, rpOnLogUnavailable = ''allow'', rpThrottleOn = [], rpRejectOn = [],
     rpBanOn = [\<lparr>rrIncident = ''*'', rrSeverity = ''>=major'', rrWithinDays = None, rrCount = 1\<rparr>]\<rparr>"

definition small_options :: AnchorNodeOptions where
  "small_options = \<lparr>aoNodeID = ''n'', aoPathPrefix = ''/a/'', aoActions = [(''ping'', ping_spec)], aoDisplayName = [],
     aoRequireAuth = None, aoRequiredCapabilities = None, aoRequireTopologyCapability = True, aoDefaultTimeoutMs = 0,
     aoMaxTimeoutMs = 0, aoDefaultTokenBudget = 0, aoCgnLimit = 10, aoAssuranceHintURL = [],
     aoReputationPolicy = Some small_policy, aoTrustAnchors = [], aoRateLimits = None, aoAutoInjectTraceContext = Some False\<rparr>"

definition small_service :: InMemoryAnchorTopologyService where
  "small_service = \<lparr>imNid = ''urn:a'', imMembers = Some [zero_member\<lparr>miNid := ''urn:m'', miNodeRoles := Some [''memory'']\<rparr>], imVersion = 7,
     imEvents = [\<lparr>teVersion = 8, teData = MemberLeft ''urn:m''\<rparr>, \<lparr>teVersion = 0, teData = ResyncRequired ''gap''\<rparr>, \<lparr>teVersion = 9, teData = MemberLeft ''urn:x''\<rparr>]\<rparr>"

definition small_app :: AnchorNodeApp where
  "small_app = \<lparr>apOpt = small_options, apHandler = Some (\<lambda>act ps ic. Inr None),
     apTopology = Some (in_memory_service small_service), apEvaluates = True\<rparr>"

definition small_env :: anchor_env where
  "small_env = \<lparr>aeNow = 0, aeDaysAgo = (\<lambda>d. 0), aeLogs = (\<lambda>source nid. None), aeTryAcquire = AllowAll, aeTraceID = [], aeSpanID = [],
     aeTaskID = ''t'', aeStreamID = ''s'', aeTimestamp = (\<lambda>ev. ''now''), aeJsonError = (\<lambda>s. []), aeReadError = (\<lambda>e. [])\<rparr>"

definition small_state :: anchor_state where
  "small_state = \<lparr>avGuard = Some (NewAnchorEpochGuard ''urn:a''), avEvaluator = NewReputationEvaluator\<rparr>"

definition small_request :: "string \<Rightarrow> (string \<times> json) list \<Rightarrow> http_request" where
  "small_request path kvs = \<lparr>rqMethod = ''POST'', rqPath = ''/a'' @ path,
     rqHeader = header_set ''X-NWP-Agent'' ''urn:c'' (header_set ''X-NWP-Capabilities'' ''topology:read'' []),
     rqBody = Inr (json_text (JObj kvs))\<rparr>"


definition snapshot_request :: http_request where
  "snapshot_request = small_request ''/query'' [(''type'', JStr ''topology.snapshot''), (''topology'', JObj [])]"

definition stream_request :: http_request where
  "stream_request = small_request ''/subscribe'' [(''type'', JStr ''topology.stream''), (''topology'', JObj [])]"


lemma small_snapshot_ok:
  "snapshot_ok \<lparr>tsVersion = 7, tsAnchorNid = ''urn:a'', tsClusterSize = 1, tsMembers = imMembers small_service, tsTruncated = None,
     tsClusterEpoch = None\<rparr>"
  by (simp add: snapshot_ok_def small_service_def zero_member_def member_ok_def raw_ok_def utf8_ascii del: utf8_valid.simps)


theorem snapshot_served_witness:
  "\<exists>resp snap. ServeHTTP small_app small_env snapshot_request small_state = (resp, small_state, [])
     \<and> snapshot_answer (rsStatus resp) (rsBody resp) = Inr snap \<and> tsVersion snap = 7 \<and> tsClusterEpoch snap = Some 1"
proof -
  let ?body = "[(''type'', GStr ''topology.snapshot''), (''topology'', GMap [])]"
  let ?req = "\<lparr>snScope = ''cluster'', snInclude = [''members''], snDepth = 1, snTargetNid = []\<rparr>"
  let ?snap = "\<lparr>tsVersion = 7, tsAnchorNid = ''urn:a'', tsClusterSize = 1, tsMembers = imMembers small_service, tsTruncated = None,
      tsClusterEpoch = None\<rparr>"
  have 1: "topology_request small_app small_env ''/query'' snapshot_request ?body small_state" by code_simp
  have 2: "dget ?body ''type'' = GStr ''topology.snapshot''" by code_simp
  have 3: "apTopology small_app = Some (in_memory_service small_service)" by (simp add: small_app_def)
  have 4: "parseSnapshotRequest ?body = Inr ?req" by code_simp
  have 5: "tvSnapshot (in_memory_service small_service) ?req = Inr ?snap" by (simp add: in_memory_service_def GetSnapshot_def small_service_def)
  show ?thesis
    using snapshot_served [OF 1 2 3 4 5 small_snapshot_ok]
    by (auto simp: snapshot_norm_def StampSnapshot_def small_state_def NewAnchorEpochGuard_def OwnEpoch_def)
qed

theorem stream_served_witness:
  "\<exists>resp. ServeHTTP small_app small_env stream_request small_state = (resp, small_state, [])
     \<and> subscribe_events (rsBody resp) = (map received (take 2 (imEvents small_service)), StreamOver)"
proof -
  let ?body = "[(''type'', GStr ''topology.stream''), (''topology'', GMap [])]"
  let ?req = "\<lparr>srScope = ''cluster'', srFilter = None, srSinceVersion = None\<rparr>"
  have 1: "topology_request small_app small_env ''/subscribe'' stream_request ?body small_state" by code_simp
  have 2: "dget ?body ''type'' = GStr ''topology.stream''" by code_simp
  have 3: "apTopology small_app = Some (in_memory_service small_service)" by (simp add: small_app_def)
  have 4: "parseStreamRequest small_env ?body = Inr (?req, ''s'')" by code_simp
  have 5: "tvSubscribe (in_memory_service small_service) ?req = Inr (imEvents small_service)"
    by (simp add: in_memory_service_def Subscribe_def)
  have 6: "utf8_valid ''s''" by code_simp
  have "list_all (\<lambda>ev. event_ok (teData ev) \<and> length (event_line (aeTimestamp small_env) ''s'' ev) < 200) (imEvents small_service)"
    by code_simp
  then have 7: "list_all (\<lambda>ev. event_ok (teData ev) \<and> length (event_line (aeTimestamp small_env) ''s'' ev) < 65536) (imEvents small_service)"
    by (rule list.pred_mono_strong) simp
  have "length (jtext (stream_ack ''s'' ?req (avGuard small_state))) < 200" by code_simp
  then have 8: "length (jtext (stream_ack ''s'' ?req (avGuard small_state))) < 65536" by simp
  have "until_resync (imEvents small_service) = take 2 (imEvents small_service)" by code_simp
  then show ?thesis using stream_served [OF 1 2 3 4 5 6 7 8] by auto
qed

theorem client_meets_server_witness:
  "\<exists>q resp. snapshot_query (NewAnchorNodeClient ''http://a/'') [] [] 0 [] = Inr q
     \<and> ServeHTTP small_app small_env (arrives ''/a/query'' q) small_state = (resp, small_state, [])
     \<and> snapshot_answer (rsStatus resp) (rsBody resp)
       = Inl (ServerError \<lparr>ateNwpErrorCode = ''NWP-AUTH-NID-SCOPE-VIOLATION'', ateNpsStatus = ''NPS-AUTH-UNAUTHENTICATED'',
           ateMessage = ''X-NWP-Agent header is required.''\<rparr>)"
proof -
  obtain q where q: "snapshot_query (NewAnchorNodeClient ''http://a/'') [] [] 0 [] = Inr q" using default_text by metis
  let ?snap = "\<lparr>tsVersion = 7, tsAnchorNid = ''urn:a'', tsClusterSize = 1, tsMembers = imMembers small_service, tsTruncated = None,
      tsClusterEpoch = None\<rparr>"
  have 1: "apTopology small_app = Some (in_memory_service small_service)" by (simp add: small_app_def)
  have 2: "tvSnapshot (in_memory_service small_service) default_request = Inr ?snap"
    by (simp add: in_memory_service_def GetSnapshot_def small_service_def default_request_def)
  have 4: "pred_option (\<lambda>g. 1 \<le> OwnEpoch g) (avGuard small_state)"
    by (simp add: small_state_def NewAnchorEpochGuard_def OwnEpoch_def)
  have "path_prefix (apOpt small_app) = ''/a''" "requireAuth (apOpt small_app)" by code_simp+
  then show ?thesis using client_meets_server [OF 1 2 small_snapshot_ok 4 q, of small_env] q by auto
qed

end
