(* ===== verification/Nop_Cluster.thy ===== *)
theory Nop_Cluster
  imports Nop_Frames Epoch_Register
begin

text \<open>
  The delegation resolver (\<open>nop/cluster_delegation.go\<close>): it maps a delegate frame to the agent that should
  receive it and caches the active anchor of every cluster.  The lookup is a parameter.  \<open>ResolveActive\<close> looks
  up outside the lock; \<open>store_fresh\<close> is its second critical section, so that any operation can run between
  the two.  Failover events and lookup results are claims on one register fenced by epochs.
\<close>

section \<open>The resolver\<close>

record ClusterAnchorInfo =
  caActiveNid :: string
  caClusterEpoch :: u64

type_synonym resolver = "(string \<times> ClusterAnchorInfo) list"

type_synonym cluster_lookup = "string \<Rightarrow> ClusterAnchorInfo option res"

definition NewClusterDelegationResolver :: resolver where
  "NewClusterDelegationResolver = []"

definition isNpsNid :: "string \<Rightarrow> bool" where
  "isNpsNid s \<longleftrightarrow> length s > length ''urn:nps:'' \<and> take (length ''urn:nps:'') s = ''urn:nps:''"

definition store_fresh :: "string \<Rightarrow> ClusterAnchorInfo \<Rightarrow> resolver \<Rightarrow> ClusterAnchorInfo \<times> resolver" where
  "store_fresh clusterAnchor fresh r =
     (case map_of r clusterAnchor of
        Some cur \<Rightarrow> if caClusterEpoch fresh \<le> caClusterEpoch cur then (cur, r)
                    else (fresh, AList.update clusterAnchor fresh r)
      | None \<Rightarrow> (fresh, AList.update clusterAnchor fresh r))"

definition ResolveActive :: "cluster_lookup \<Rightarrow> string \<Rightarrow> resolver \<Rightarrow> ClusterAnchorInfo option res \<times> resolver" where
  "ResolveActive resolveCluster clusterAnchor r =
     (if clusterAnchor = [] then (Inl (ErrPlain ''nop: clusterAnchor is required''), r)
      else case map_of r clusterAnchor of
        Some cached \<Rightarrow> (Inr (Some cached), r)
      | None \<Rightarrow>
          (case resolveCluster clusterAnchor of
             Inl e \<Rightarrow> (Inl e, r)
           | Inr None \<Rightarrow> (Inr None, r)
           | Inr (Some fresh) \<Rightarrow> (case store_fresh clusterAnchor fresh r of (info, r') \<Rightarrow> (Inr (Some info), r'))))"

text \<open>The empty name means that the cluster has no live owner.\<close>

definition ResolveDelegateTarget :: "cluster_lookup \<Rightarrow> DelegateFrame option \<Rightarrow> resolver \<Rightarrow> string res \<times> resolver" where
  "ResolveDelegateTarget resolveCluster frame r =
     (case frame of
        None \<Rightarrow> (Inl (ErrPlain ''nop: frame is required''), r)
      | Some f \<Rightarrow>
          (case dgTargetClusterAnchor f of
             None \<Rightarrow> (Inr (dgTargetNID f), r)
           | Some cluster \<Rightarrow>
               if cluster = [] then (Inr (dgTargetNID f), r)
               else if \<not> isNpsNid cluster
               then (Inl (ErrPlain (''nop: target_cluster_anchor must be a urn:nps: NID, not a URL: '' @ cluster)), r)
               else (case ResolveActive resolveCluster cluster r of
                       (Inl e, r') \<Rightarrow> (Inl e, r')
                     | (Inr None, r') \<Rightarrow> (Inr [], r')
                     | (Inr (Some info), r') \<Rightarrow> (Inr (caActiveNid info), r'))))"

definition OnAnchorFailover :: "string \<Rightarrow> string \<Rightarrow> u64 \<Rightarrow> resolver \<Rightarrow> bool res \<times> resolver" where
  "OnAnchorFailover clusterAnchor successorNid clusterEpoch r =
     (if clusterAnchor = [] then (Inl (ErrPlain ''nop: clusterAnchor is required''), r)
      else if successorNid = [] then (Inl (ErrPlain ''nop: successorNid is required''), r)
      else let accept = (Inr True, AList.update clusterAnchor \<lparr>caActiveNid = successorNid, caClusterEpoch = clusterEpoch\<rparr> r)
           in case map_of r clusterAnchor of
                Some cur \<Rightarrow> if clusterEpoch \<le> caClusterEpoch cur then (Inr False, r) else accept
              | None \<Rightarrow> accept)"

definition InvalidateCluster :: "string \<Rightarrow> resolver \<Rightarrow> resolver" where
  "InvalidateCluster clusterAnchor r = AList.delete clusterAnchor r"

section \<open>A register fenced by epochs\<close>

definition active_epoch :: "resolver \<Rightarrow> string \<Rightarrow> u64 option" where
  "active_epoch r c = map_option caClusterEpoch (map_of r c)"

definition active_nid :: "resolver \<Rightarrow> string \<Rightarrow> string option" where
  "active_nid r c = map_option caActiveNid (map_of r c)"

definition resolver_claim :: "string \<Rightarrow> string \<Rightarrow> u64 \<Rightarrow> resolver \<Rightarrow> bool \<times> resolver" where
  "resolver_claim c nid e r =
     (let s = snd (store_fresh c \<lparr>caActiveNid = nid, caClusterEpoch = e\<rparr> r)
      in (case map_of r c of None \<Rightarrow> True | Some cur \<Rightarrow> caClusterEpoch cur < e, s))"

interpretation delegation: epoch_register active_epoch resolver_claim active_nid
  by unfold_locales
    (auto simp: resolver_claim_def store_fresh_def active_epoch_def active_nid_def update_conv' Let_def split: option.splits if_splits)

text \<open>Both writers of the cache make claims.\<close>

lemma failover_claim:
  "c \<noteq> [] \<Longrightarrow> nid \<noteq> [] \<Longrightarrow> OnAnchorFailover c nid e r = (Inr (fst (resolver_claim c nid e r)), snd (resolver_claim c nid e r))"
  by (auto simp: OnAnchorFailover_def resolver_claim_def store_fresh_def Let_def split: option.split)

lemma fresh_claim: "snd (store_fresh c info r) = snd (resolver_claim c (caActiveNid info) (caClusterEpoch info) r)"
  by (cases info) (simp add: resolver_claim_def Let_def)

lemma failover_invalid: "c = [] \<or> nid = [] \<Longrightarrow> snd (OnAnchorFailover c nid e r) = r"
  by (auto simp: OnAnchorFailover_def)

section \<open>Interleavings\<close>

text \<open>What changes the cache: a failover event, and the end of a lookup that may have started at any earlier
  time.\<close>

datatype cache_op = Failover string string u64 | LookedUp string ClusterAnchorInfo

fun cache_step :: "cache_op \<Rightarrow> resolver \<Rightarrow> resolver" where
  "cache_step (Failover c nid e) r = snd (OnAnchorFailover c nid e r)"
| "cache_step (LookedUp c info) r = snd (store_fresh c info r)"

fun claims :: "cache_op \<Rightarrow> (string \<times> string \<times> u64) list" where
  "claims (Failover c nid e) = (if c = [] \<or> nid = [] then [] else [(c, nid, e)])"
| "claims (LookedUp c info) = [(c, caActiveNid info, caClusterEpoch info)]"

lemma cache_step_claims: "cache_step x r = delegation.claim_all (claims x) r"
  by (cases x) (simp_all add: failover_claim fresh_claim failover_invalid)

lemma cache_steps_claims: "fold cache_step xs r = delegation.claim_all (concat (map claims xs)) r"
  by (induction xs arbitrary: r) (simp_all add: cache_step_claims)

text \<open>Asking for the target of a frame that names a cached cluster.\<close>

lemma target_cached:
  assumes "isNpsNid c" and "dgTargetClusterAnchor f = Some c" and "active_nid r c = Some nid"
  shows "ResolveDelegateTarget lookup (Some f) r = (Inr nid, r)"
proof -
  have "c \<noteq> []" using assms(1) by (auto simp: isNpsNid_def)
  then show ?thesis using assms by (auto simp: ResolveDelegateTarget_def ResolveActive_def active_nid_def)
qed

text \<open>C17: Two resolvers that have seen the same failover events and lookup results, in whatever order and
  however often, send a frame for a cluster to the same agent, without a lookup; it is the one with the highest
  epoch.  The condition is that no two claimants of the cluster ever used one epoch.\<close>

theorem delegation_converges:
  assumes "set (concat (map claims xs)) = set (concat (map claims ys))"
    and "\<forall>nid nid' e. (c, nid, e) \<in> set (concat (map claims xs)) \<longrightarrow> (c, nid', e) \<in> set (concat (map claims xs)) \<longrightarrow> nid = nid'"
    and "(c, n0, e0) \<in> set (concat (map claims xs))"
    and "isNpsNid c" and "dgTargetClusterAnchor f = Some c"
  shows "\<exists>nid e. (c, nid, e) \<in> set (concat (map claims xs))
     \<and> (\<forall>nid' e'. (c, nid', e') \<in> set (concat (map claims xs)) \<longrightarrow> e' \<le> e)
     \<and> fst (ResolveDelegateTarget lookup (Some f) (fold cache_step xs NewClusterDelegationResolver)) = Inr nid
     \<and> fst (ResolveDelegateTarget lookup' (Some f) (fold cache_step ys NewClusterDelegationResolver)) = Inr nid"
proof -
  let ?xs = "concat (map claims xs)" and ?ys = "concat (map claims ys)" and ?n = NewClusterDelegationResolver
  have none: "active_epoch ?n c = None" by (simp add: active_epoch_def NewClusterDelegationResolver_def)
  have same: "active_nid (delegation.claim_all ?xs ?n) c = active_nid (delegation.claim_all ?ys ?n) c"
    using delegation.convergence(1) [OF none none assms(1)] assms(2) by blast
  obtain e where e: "active_epoch (delegation.claim_all ?xs ?n) c = Some e" "\<And>nid' e'. (c, nid', e') \<in> set ?xs \<Longrightarrow> e' \<le> e"
    using delegation.claimed_bound [OF assms(3)] by metis
  then obtain nid where nid: "active_nid (delegation.claim_all ?xs ?n) c = Some nid"
    by (auto simp: active_epoch_def active_nid_def)
  have "(c, nid, e) \<in> set ?xs" using delegation.owner_claimed [OF nid e(1)] none by simp
  then show ?thesis
    using target_cached [OF assms(4,5)] nid same e(2) by (auto simp: cache_steps_claims)
qed

definition sample_delegate :: DelegateFrame where
  "sample_delegate = \<lparr>dgTaskID = ''t'', dgSubtaskID = ''s'', dgAction = ''run'', dgTargetNID = ''urn:nps:node:x'', dgInputs = GNil,
     dgConfig = GNil, dgIdempotencyKey = None, dgTargetClusterAnchor = Some ''urn:nps:cluster:c''\<rparr>"

theorem delegation_converges_witness:
  "\<exists>nid. fst (ResolveDelegateTarget (\<lambda>c. Inr None) (Some sample_delegate)
       (fold cache_step [Failover ''urn:nps:cluster:c'' ''a'' 4, LookedUp ''urn:nps:cluster:c'' \<lparr>caActiveNid = ''b'', caClusterEpoch = 7\<rparr>]
          NewClusterDelegationResolver)) = Inr nid"
  using delegation_converges [of
      "[Failover ''urn:nps:cluster:c'' ''a'' 4, LookedUp ''urn:nps:cluster:c'' \<lparr>caActiveNid = ''b'', caClusterEpoch = 7\<rparr>]"
      "[LookedUp ''urn:nps:cluster:c'' \<lparr>caActiveNid = ''b'', caClusterEpoch = 7\<rparr>, Failover ''urn:nps:cluster:c'' ''a'' 4]"
      "''urn:nps:cluster:c''" "''a''" 4 sample_delegate "\<lambda>c. Inr None" "\<lambda>c. Inr None"]
  by (auto simp: sample_delegate_def isNpsNid_def)

end
