(* ===== verification/Spec2Isabelle.thy ===== *)
theory Spec2Isabelle
  imports Core_Cache Ncp_Session Ncp_Failover Ndp_Federation Ndp_Profile Nop_Dag Nop_Condition_Spec Nop_Runs Nop_Orchestrator Nop_Frames Nwp_Anchor_Server Nop_Cluster
begin

text \<open>
  header
\<close>




end
